(* ===== verification/Prelude.thy ===== *)
theory Prelude
  imports Main "HOL-Library.Sublist" "HOL-Library.Multiset"
begin

section \<open>Shared types, hints and list lemmas\<close>

text \<open>
  What every component uses: the types that stand for the program's identifiers and
  timestamps, the result type of an operation that may raise, the collection
  \<open>model_simps\<close> of definitional equations the component proofs unfold, and
  generic list lemmas.

  A UUID is identified with the integer value of its 128 bits, a timestamp with its number
  of microseconds since the epoch.  A Python \<open>str\<close> is a HOL \<open>string\<close>: its
  characters are the code points below 256.
\<close>

type_synonym uuid = nat
type_synonym timestamp = int

text \<open>The result of a Python call: \<open>Inl\<close> the exception, \<open>Inr\<close> the returned value.\<close>

type_synonym ('e, 'a) outcome = "'e + 'a"

named_theorems model_simps \<open>definitional equations unfolded by the component proofs\<close>

subsection \<open>Sequencing of calls that may raise\<close>

definition try_bind :: "('e, 'a) outcome \<Rightarrow> ('a \<Rightarrow> ('e, 'b) outcome) \<Rightarrow> ('e, 'b) outcome" where
  "try_bind r k = (case r of Inl e \<Rightarrow> Inl e | Inr x \<Rightarrow> k x)"

lemma try_bind_simps [simp]:
  "try_bind (Inl e) k = Inl e"
  "try_bind (Inr x) k = k x"
  by (simp_all add: try_bind_def)

lemma try_bind_InrD:
  "try_bind r k = Inr y \<Longrightarrow> \<exists>x. r = Inr x \<and> k x = Inr y"
  by (cases r) auto

subsection \<open>Lists\<close>

lemma distinct_map_append_new:
  "distinct (map f xs) \<Longrightarrow> f x \<notin> f ` set xs \<Longrightarrow> distinct (map f (xs @ [x]))"
  by auto

lemma filter_unique_key:
  assumes "distinct (map f xs)" and "x \<in> set xs"
  shows "filter (\<lambda>y. f y = f x) xs = [x]"
  using assms by (induction xs) (auto simp: filter_empty_conv image_iff)

lemma length_filter_key_le_1:
  "distinct (map f xs) \<Longrightarrow> length (filter (\<lambda>y. f y = k) xs) \<le> 1"
  by (induction xs) (auto simp: filter_empty_conv image_iff)

lemma filter_conj_sub: "filter (\<lambda>x. P x \<and> Q x) xs = filter Q (filter P xs)"
  by (induction xs) auto

lemma length_filter_conj_le_1:
  "length (filter P xs) \<le> 1 \<Longrightarrow> length (filter (\<lambda>x. P x \<and> Q x) xs) \<le> 1"
  using length_filter_le [of Q "filter P xs"] by (simp only: filter_conj_sub [of P Q])

lemma distinct_map_inj_on_set:
  "distinct (map f xs) \<Longrightarrow> x \<in> set xs \<Longrightarrow> y \<in> set xs \<Longrightarrow> f x = f y \<Longrightarrow> x = y"
  by (auto simp: distinct_map dest: inj_onD)

lemma subseq_concat_mono:
  "list_all2 subseq xss yss \<Longrightarrow> subseq (concat xss) (concat yss)"
  by (induction xss yss rule: list_all2_induct) (auto intro: list_emb_append_mono)

lemma concat_filter_nonempty:
  "concat (filter (\<lambda>xs. xs \<noteq> []) xss) = concat xss"
  by (induction xss) auto

subsection \<open>One element before another\<close>

fun precedes :: "'a \<Rightarrow> 'a \<Rightarrow> 'a list \<Rightarrow> bool" where
  "precedes x y [] = False"
| "precedes x y (z # zs) = (if z = x then y \<in> set zs else precedes x y zs)"

lemma precedes_iff: "precedes x y xs \<longleftrightarrow> (\<exists>as bs. xs = as @ x # bs \<and> y \<in> set bs)"
proof
  show "precedes x y xs \<Longrightarrow> \<exists>as bs. xs = as @ x # bs \<and> y \<in> set bs"
    by (induction xs) (auto split: if_splits intro: exI [of _ "[]"] exI [of _ "_ # _"], (metis append_Cons)+)
  have "precedes x y (as @ x # bs)" if "y \<in> set bs" for as bs
    using that by (induction as) auto
  then show "\<exists>as bs. xs = as @ x # bs \<and> y \<in> set bs \<Longrightarrow> precedes x y xs" by blast
qed

lemma precedes_set: "precedes x y xs \<Longrightarrow> x \<in> set xs \<and> y \<in> set xs"
  by (auto simp: precedes_iff)

lemma precedes_append:
  "precedes x y (xs @ ys) \<longleftrightarrow>
     precedes x y xs \<or> (x \<in> set xs \<and> y \<in> set ys) \<or> (x \<notin> set xs \<and> precedes x y ys)"
  by (induction xs) auto

lemma precedes_filter: "P x \<Longrightarrow> P y \<Longrightarrow> precedes x y (filter P xs) \<longleftrightarrow> precedes x y xs"
  by (induction xs) auto

lemma precedes_sort_key:
  assumes "precedes x y xs" and "f x \<le> f y" and "x \<noteq> y"
  shows "precedes x y (sort_key f xs)"
proof (cases "f x = f y")
  case True
  have "precedes x y (filter (\<lambda>z. f z = f y) (sort_key f xs))"
    using True assms(1) by (simp add: sort_key_stable precedes_filter)
  then show ?thesis using True by (simp add: precedes_filter)
next
  case False
  have mem: "x \<in> set (sort_key f xs)" "y \<in> set (sort_key f xs)"
    using precedes_set [OF assms(1)] by simp_all
  from split_list [OF mem(1)] obtain as bs where sk: "sort_key f xs = as @ x # bs" by blast
  have "sorted (map f (sort_key f xs))" by simp
  then have "\<forall>a \<in> set as. f a \<le> f x" unfolding sk by (auto simp: sorted_append)
  with False assms(2) have "y \<notin> set as" by force
  with mem(2) assms(3) have "y \<in> set bs" unfolding sk by auto
  then show ?thesis unfolding sk precedes_iff by blast
qed

lemma precedes_take:
  assumes "distinct xs" and "precedes x y xs" and "y \<in> set (take n xs)"
  shows "precedes x y (take n xs)"
proof -
  have "distinct (take n xs @ drop n xs)" and "precedes x y (take n xs @ drop n xs)"
    using assms by simp_all
  with assms(3) show ?thesis
    unfolding precedes_append distinct_append using precedes_set [of x y "drop n xs"] by blast
qed

lemma precedes_neq: "distinct xs \<Longrightarrow> precedes x y xs \<Longrightarrow> x \<noteq> y"
  by (induction xs) (auto split: if_splits)

lemma sum_list_replace:
  fixes f :: "'a \<Rightarrow> nat"
  assumes "distinct (map key xs)" and "x \<in> set xs"
  shows "(\<Sum>k\<leftarrow>map (\<lambda>k. if key k = key x then x' else k) xs. f k) + f x = (\<Sum>k\<leftarrow>xs. f k) + f x'"
  using assms
proof (induction xs)
  case (Cons a xs)
  show ?case
  proof (cases "key a = key x")
    case True
    with Cons.prems have "key x \<notin> key ` set xs" by simp
    then have "map (\<lambda>k. if key k = key x then x' else k) xs = xs"
      by (intro map_idI) (auto simp: image_iff)
    moreover have "a = x"
      using Cons.prems True by (metis distinct_map_inj_on_set list.set_intros(1))
    ultimately show ?thesis by simp
  next
    case False
    with Cons show ?thesis by auto
  qed
qed simp

end
