(* ===== verification/PyText.thy ===== *)
theory PyText
  imports Prelude
begin

section \<open>The Python string operations the program uses\<close>

text \<open>
  \<open>str.strip\<close>, \<open>str.lower\<close>, \<open>str.split(sep)\<close>, \<open>str.split(sep, 1)\<close>,
  \<open>sep.join\<close>, \<open>str.startswith\<close> and \<open>in\<close> on characters below 256, and the
  lower-case hexadecimal form of a UUID.  These are operations of the language's standard
  library, so they carry no entry in the source map.
\<close>

subsection \<open>White space\<close>

definition is_space :: "char \<Rightarrow> bool" where
  "is_space c \<longleftrightarrow>
     (let n = of_char c :: nat in (9 \<le> n \<and> n \<le> 13) \<or> (28 \<le> n \<and> n \<le> 32) \<or> n = 133 \<or> n = 160)"

definition lstrip :: "string \<Rightarrow> string" where
  "lstrip s = dropWhile is_space s"

definition rstrip :: "string \<Rightarrow> string" where
  "rstrip s = rev (dropWhile is_space (rev s))"

definition strip :: "string \<Rightarrow> string" where
  "strip s = rstrip (lstrip s)"

definition not_blank :: "string \<Rightarrow> bool" where
  "not_blank s \<longleftrightarrow> strip s \<noteq> []"

lemma rstrip_Nil_iff: "rstrip s = [] \<longleftrightarrow> (\<forall>c \<in> set s. is_space c)"
  by (simp add: rstrip_def dropWhile_eq_Nil_conv)

lemma not_blank_iff: "not_blank s \<longleftrightarrow> (\<exists>c \<in> set s. \<not> is_space c)"
proof (cases "lstrip s")
  case Nil
  then have "\<forall>c \<in> set s. is_space c"
    by (simp add: lstrip_def dropWhile_eq_Nil_conv)
  with Nil show ?thesis
    by (simp add: not_blank_def strip_def rstrip_def)
next
  case (Cons c cs)
  then have c: "\<not> is_space c" "c \<in> set (lstrip s)"
    using hd_dropWhile [of is_space s] by (auto simp: lstrip_def)
  moreover from c(2) have "c \<in> set s"
    by (auto simp: lstrip_def dest: set_dropWhileD)
  ultimately show ?thesis
    by (auto simp: not_blank_def strip_def rstrip_Nil_iff)
qed

lemma strip_Nil_iff: "strip s = [] \<longleftrightarrow> (\<forall>c \<in> set s. is_space c)"
  using not_blank_iff [of s] by (auto simp: not_blank_def)

lemma sublist_lstrip: "sublist (lstrip s) s"
  unfolding lstrip_def by (metis suffix_dropWhile suffix_imp_sublist)

lemma sublist_rstrip: "sublist (rstrip s) s"
proof -
  have "suffix (dropWhile is_space (rev s)) (rev s)"
    by (rule suffix_dropWhile)
  then have "prefix (rstrip s) s"
    unfolding rstrip_def by (simp add: suffix_to_prefix)
  then show ?thesis by (rule prefix_imp_sublist)
qed

lemma sublist_strip: "sublist (strip s) s"
  unfolding strip_def
  by (meson sublist_lstrip sublist_rstrip sublist_order.order_trans)

lemma length_strip_le: "length (strip s) \<le> length s"
  using sublist_strip sublist_length_le by blast

lemma filter_nonspace_lstrip: "(\<And>c. P c \<Longrightarrow> \<not> is_space c) \<Longrightarrow> filter P (lstrip s) = filter P s"
  unfolding lstrip_def by (induction s) auto

lemma filter_nonspace_strip:
  assumes P: "\<And>c. P c \<Longrightarrow> \<not> is_space c"
  shows "filter P (strip s) = filter P s"
proof -
  have "filter P (rstrip t) = filter P t" for t
  proof -
    have "rev (filter P (rstrip t)) = filter P (lstrip (rev t))"
      by (simp add: rstrip_def lstrip_def rev_filter)
    also have "\<dots> = rev (filter P t)"
      using filter_nonspace_lstrip [OF P] by (simp add: rev_filter)
    finally show ?thesis by simp
  qed
  then show ?thesis
    by (simp add: strip_def filter_nonspace_lstrip [OF P])
qed

lemma strip_not_blank: "not_blank s \<Longrightarrow> not_blank (strip s)"
proof -
  assume "not_blank s"
  then obtain c where "c \<in> set s" "\<not> is_space c" by (auto simp: not_blank_iff)
  then have "c \<in> set (filter (\<lambda>c. \<not> is_space c) (strip s))"
    by (simp add: filter_nonspace_strip)
  then show ?thesis by (auto simp: not_blank_iff)
qed

subsection \<open>Splitting and joining\<close>

text \<open>\<open>find_split sep s\<close> cuts \<open>s\<close> around the first occurrence of \<open>sep\<close>.\<close>

fun find_split :: "string \<Rightarrow> string \<Rightarrow> (string \<times> string) option" where
  "find_split sep [] = (if sep = [] then Some ([], []) else None)"
| "find_split sep (c # cs) =
     (if prefix sep (c # cs) then Some ([], drop (length sep) (c # cs))
      else map_option (\<lambda>(a, b). (c # a, b)) (find_split sep cs))"

lemma find_split_Some: "find_split sep s = Some (a, b) \<Longrightarrow> s = a @ sep @ b"
  by (induction sep s arbitrary: a rule: find_split.induct)
     (auto simp: prefix_def split: if_splits)

function py_split :: "string \<Rightarrow> string \<Rightarrow> string list" where
  "py_split sep s =
     (case find_split sep s of
        None \<Rightarrow> [s]
      | Some (a, b) \<Rightarrow> if sep = [] then [s] else a # py_split sep b)"
  by pat_completeness auto
termination
  by (relation "measure (\<lambda>(sep, s). length s)") (auto dest: find_split_Some)

declare py_split.simps [simp del]

fun py_join :: "string \<Rightarrow> string list \<Rightarrow> string" where
  "py_join sep [] = []"
| "py_join sep [x] = x"
| "py_join sep (x # y # ys) = x @ sep @ py_join sep (y # ys)"

lemma py_split_not_Nil: "py_split sep s \<noteq> []"
  by (subst py_split.simps) (auto split: option.splits)

lemma py_join_Cons: "ys \<noteq> [] \<Longrightarrow> py_join sep (x # ys) = x @ sep @ py_join sep ys"
  by (cases ys) auto

lemma py_join_split: "py_join sep (py_split sep s) = s"
proof (induction sep s rule: py_split.induct)
  case (1 sep s)
  show ?case
  proof (cases "find_split sep s")
    case None
    then show ?thesis by (simp add: py_split.simps)
  next
    case (Some ab)
    obtain a b where ab: "ab = (a, b)" by force
    show ?thesis
    proof (cases "sep = []")
      case False
      from "1.IH" [OF Some _ False] ab have "py_join sep (py_split sep b) = b" by simp
      moreover have "py_split sep s = a # py_split sep b"
        using Some ab False by (simp add: py_split.simps [of sep s])
      moreover have "s = a @ sep @ b"
        using Some ab by (simp add: find_split_Some)
      ultimately show ?thesis
        using py_join_Cons [OF py_split_not_Nil, of sep a sep b] by simp
    qed (use Some ab in \<open>simp add: py_split.simps [of "[]" s]\<close>)
  qed
qed

lemma filter_py_join:
  "filter P sep = [] \<Longrightarrow> filter P (py_join sep xs) = concat (map (filter P) xs)"
  by (induction sep xs rule: py_join.induct) auto

text \<open>\<open>s.split(sep, 1)\<close>: at most one cut.\<close>

definition py_split1 :: "string \<Rightarrow> string \<Rightarrow> string list" where
  "py_split1 sep s = (case find_split sep s of None \<Rightarrow> [s] | Some (a, b) \<Rightarrow> [a, b])"

text \<open>\<open>p in s\<close> for strings.\<close>

definition py_contains :: "string \<Rightarrow> string \<Rightarrow> bool" where
  "py_contains p s \<longleftrightarrow> find_split p s \<noteq> None"

subsection \<open>Case and prefixes\<close>

definition lower_char :: "char \<Rightarrow> char" where
  "lower_char c =
     (let n = of_char c :: nat
      in if (65 \<le> n \<and> n \<le> 90) \<or> (192 \<le> n \<and> n \<le> 222 \<and> n \<noteq> 215) then char_of (n + 32) else c)"

definition lower :: "string \<Rightarrow> string" where
  "lower s = map lower_char s"

definition upper_char :: "char \<Rightarrow> char" where
  "upper_char c =
     (let n = of_char c :: nat
      in if (97 \<le> n \<and> n \<le> 122) \<or> (224 \<le> n \<and> n \<le> 254 \<and> n \<noteq> 247) then char_of (n - 32) else c)"

definition startswith :: "string \<Rightarrow> string \<Rightarrow> bool" where
  "startswith s p \<longleftrightarrow> take (length p) s = p"

lemma length_lower [simp]: "length (lower s) = length s"
  by (simp add: lower_def)

subsection \<open>The textual form of a UUID\<close>

definition hex_digit :: "nat \<Rightarrow> char" where
  "hex_digit d = char_of (if d < 10 then 48 + d else 87 + d)"

text \<open>\<open>hex_digits k n\<close>: the \<open>k\<close> low hexadecimal digits of \<open>n\<close>, most significant first.\<close>

fun hex_digits :: "nat \<Rightarrow> nat \<Rightarrow> string" where
  "hex_digits 0 n = []"
| "hex_digits (Suc k) n = hex_digits k (n div 16) @ [hex_digit (n mod 16)]"

definition uuid_str :: "uuid \<Rightarrow> string" where
  "uuid_str u =
     (let h = hex_digits 32 u
      in take 8 h @ ''-'' @ take 4 (drop 8 h) @ ''-'' @ take 4 (drop 12 h) @ ''-''
         @ take 4 (drop 16 h) @ ''-'' @ drop 20 h)"

lemma hex_digit_inj: "hex_digit a = hex_digit b \<Longrightarrow> a < 16 \<Longrightarrow> b < 16 \<Longrightarrow> a = b"
proof -
  assume eq: "hex_digit a = hex_digit b" and lt: "a < 16" "b < 16"
  from eq have "of_char (hex_digit a) = (of_char (hex_digit b) :: nat)" by simp
  with lt show "a = b" by (auto simp: hex_digit_def split: if_splits)
qed

lemma length_hex_digits [simp]: "length (hex_digits k n) = k"
  by (induction k arbitrary: n) auto

lemma hex_digits_inj: "hex_digits k a = hex_digits k b \<Longrightarrow> a mod 16 ^ k = b mod 16 ^ k"
proof (induction k arbitrary: a b)
  case (Suc k)
  from Suc.prems have "hex_digits k (a div 16) = hex_digits k (b div 16)"
    and digit: "hex_digit (a mod 16) = hex_digit (b mod 16)" by simp_all
  then have "a div 16 mod 16 ^ k = b div 16 mod 16 ^ k" using Suc.IH by blast
  moreover have "a mod 16 = b mod 16" by (rule hex_digit_inj [OF digit]) simp_all
  ultimately show ?case by (simp only: power_Suc mod_mult2_eq [of _ 16])
qed simp

lemma length_uuid_str: "length (uuid_str u) = 36"
  by (simp add: uuid_str_def Let_def)

lemma uuid_str_inj:
  assumes eq: "uuid_str a = uuid_str b" and "a < 2 ^ 128" "b < 2 ^ 128"
  shows "a = b"
proof -
  let ?g = "\<lambda>s. take 8 s @ take 4 (drop 9 s) @ take 4 (drop 14 s) @ take 4 (drop 19 s) @ drop 24 s"
  have parts: "?g (uuid_str u) = hex_digits 32 u" for u
  proof -
    have "take 8 h @ take 4 (drop 8 h) @ take 4 (drop 12 h) @ take 4 (drop 16 h) @ drop 20 h = h"
      for h :: string
      using append_take_drop_id [of 8 h] append_take_drop_id [of 4 "drop 8 h"]
        append_take_drop_id [of 4 "drop 12 h"] append_take_drop_id [of 4 "drop 16 h"]
      by (simp del: append_take_drop_id)
    then show ?thesis
      by (simp add: uuid_str_def Let_def del: append_take_drop_id)
  qed
  from eq have "hex_digits 32 a = hex_digits 32 b" using parts [of a] parts [of b] by simp
  then have "a mod 16 ^ 32 = b mod 16 ^ 32" by (rule hex_digits_inj)
  with assms(2,3) show ?thesis by simp
qed

lemma hex_digits_nonzero: "ch \<in> set (hex_digits k n) \<Longrightarrow> ch \<noteq> CHR 0x00"
proof (induction k arbitrary: n)
  case (Suc k)
  have "hex_digit (n mod 16) \<noteq> CHR 0x00"
  proof
    assume "hex_digit (n mod 16) = CHR 0x00"
    then have "of_char (hex_digit (n mod 16)) = (0 :: nat)" by simp
    moreover have "n mod 16 < 16" by simp
    ultimately show False by (simp add: hex_digit_def split: if_splits)
  qed
  with Suc show ?case by auto
qed simp

lemma uuid_str_nonzero: "CHR 0x00 \<notin> set (uuid_str u)"
  unfolding uuid_str_def Let_def
  using hex_digits_nonzero [of _ 32 u] by (auto dest!: in_set_takeD in_set_dropD)

end
