(* ===== verification/Exceptions.thy ===== *)
theory Exceptions
  imports PyText
begin

section \<open>The exception hierarchy and its HTTP rendering\<close>

text \<open>
  \<open>src/core/exceptions.py\<close>: the application errors, each with its machine-readable code,
  its HTTP status and its message; and the two exception handlers that
  \<open>src/main.py\<close> registers, which turn an exception into a JSON error envelope.
\<close>

datatype app_error =
    AppError string
  | NotFoundError string string
  | ConflictError string
  | AuthenticationError string
  | AuthorizationError string
  | RateLimitError string
  | ValidationError string
  | ExternalServiceError string string

text \<open>
  An exception of a request: an application error, one of SQLAlchemy's database errors
  (\<open>IntegrityError\<close>: a constraint violation; \<open>DataError\<close>: a value that does not fit its
  column; \<open>MultipleResultsFound\<close>: \<open>scalar_one_or_none\<close> on several rows), or one of
  Python's own.
\<close>

datatype exn =
    App app_error
  | IntegrityError
  | DataError
  | MultipleResultsFound
  | ValueError string
  | IndexError
  | OtherError string

fun error_code :: "app_error \<Rightarrow> string" where
  "error_code (AppError _) = ''INTERNAL_ERROR''"
| "error_code (NotFoundError _ _) = ''NOT_FOUND''"
| "error_code (ConflictError _) = ''CONFLICT''"
| "error_code (AuthenticationError _) = ''AUTHENTICATION_FAILED''"
| "error_code (AuthorizationError _) = ''FORBIDDEN''"
| "error_code (RateLimitError _) = ''RATE_LIMITED''"
| "error_code (ValidationError _) = ''VALIDATION_ERROR''"
| "error_code (ExternalServiceError _ _) = ''EXTERNAL_SERVICE_ERROR''"

fun error_status :: "app_error \<Rightarrow> nat" where
  "error_status (AppError _) = 500"
| "error_status (NotFoundError _ _) = 404"
| "error_status (ConflictError _) = 409"
| "error_status (AuthenticationError _) = 401"
| "error_status (AuthorizationError _) = 403"
| "error_status (RateLimitError _) = 429"
| "error_status (ValidationError _) = 422"
| "error_status (ExternalServiceError _ _) = 502"

fun error_message :: "app_error \<Rightarrow> string" where
  "error_message (AppError m) = m"
| "error_message (NotFoundError resource identifier) =
     resource @ '' with identifier '' @ [CHR 0x27] @ identifier @ [CHR 0x27] @ '' not found.''"
| "error_message (ConflictError m) = m"
| "error_message (AuthenticationError m) = m"
| "error_message (AuthorizationError m) = m"
| "error_message (RateLimitError m) = m"
| "error_message (ValidationError m) = m"
| "error_message (ExternalServiceError service m) =
     (let detail = ''External service '' @ [CHR 0x27] @ service @ [CHR 0x27] @ '' is unavailable.''
      in if m \<noteq> [] then detail @ '' '' @ m else detail)"

text \<open>The exceptions the services raise without a message of their own.\<close>

abbreviation rate_limit_error :: app_error where
  "rate_limit_error \<equiv> RateLimitError ''Rate limit exceeded. Try again later.''"

text \<open>\<open>str(exc)\<close> of an exception, as far as the program shows it to anyone.\<close>

fun exn_str :: "exn \<Rightarrow> string" where
  "exn_str (App e) = error_message e"
| "exn_str (ValueError m) = m"
| "exn_str (OtherError m) = m"
| "exn_str IntegrityError = ''IntegrityError''"
| "exn_str DataError = ''DataError''"
| "exn_str MultipleResultsFound = ''Multiple rows were found when one or none was required''"
| "exn_str IndexError = ''list index out of range''"

text \<open>\<open>xs[i]\<close>: a negative index counts from the end, an index out of range raises.\<close>

definition py_index :: "'a list \<Rightarrow> int \<Rightarrow> (exn, 'a) outcome" where
  "py_index xs i =
     (let j = (if i < 0 then int (length xs) + i else i)
      in if 0 \<le> j \<and> j < int (length xs) then Inr (xs ! nat j) else Inl IndexError)"

lemma py_index_in_range: "0 \<le> i \<Longrightarrow> i < int (length xs) \<Longrightarrow> py_index xs i = Inr (xs ! nat i)"
  by (simp add: py_index_def)

subsection \<open>The handlers registered by the application\<close>

record error_response =
  resp_status :: nat
  resp_code :: string
  resp_message :: string

definition handle_app_error :: "app_error \<Rightarrow> error_response" where
  "handle_app_error e =
     \<lparr>resp_status = error_status e, resp_code = error_code e, resp_message = error_message e\<rparr>"

definition handle_unexpected_error :: "exn \<Rightarrow> error_response" where
  "handle_unexpected_error _ =
     \<lparr>resp_status = 500, resp_code = ''INTERNAL_ERROR'',
      resp_message = ''An unexpected error occurred.''\<rparr>"

definition handle_exn :: "exn \<Rightarrow> error_response" where
  "handle_exn x = (case x of App e \<Rightarrow> handle_app_error e | _ \<Rightarrow> handle_unexpected_error x)"

lemma error_status_range: "400 \<le> error_status e \<and> error_status e < 600"
  by (cases e) auto

lemma handle_exn_status [simp]:
  "resp_status (handle_exn (App e)) = error_status e"
  "resp_status (handle_exn IntegrityError) = 500"
  "resp_status (handle_exn DataError) = 500"
  "resp_status (handle_exn IndexError) = 500"
  by (simp_all add: handle_exn_def handle_app_error_def handle_unexpected_error_def)

lemma error_code_determines_status:
  "error_code e = error_code e' \<longleftrightarrow> error_status e = error_status e'"
  by (cases e; cases e') simp_all

end
