(* ===== verification/Sql.thy ===== *)
theory Sql
  imports Exceptions
begin

section \<open>Tables, queries and transactions\<close>

text \<open>
  What the services use of PostgreSQL and SQLAlchemy.  A table is the list of its rows in
  insertion order.  \<open>SELECT ... ORDER BY\<close> is a stable sort: rows with equal keys come in
  table order, one of the orders the database may choose.  A service operation maps the database
  to its result and the database it leaves behind; the session around it commits that database
  when the operation returns, and rolls back to the old one when it raises.  None of these models
  a definition of the repository, except the session of \<open>src/auth/dependencies.py\<close>.
\<close>

definition update_where :: "('r \<Rightarrow> bool) \<Rightarrow> ('r \<Rightarrow> 'r) \<Rightarrow> 'r list \<Rightarrow> 'r list" where
  "update_where P f rows = map (\<lambda>r. if P r then f r else r) rows"

definition order_by_asc :: "('r \<Rightarrow> int) \<Rightarrow> 'r list \<Rightarrow> 'r list" where
  "order_by_asc f rows = sort_key f rows"

definition order_by_desc :: "('r \<Rightarrow> int) \<Rightarrow> 'r list \<Rightarrow> 'r list" where
  "order_by_desc f rows = sort_key (\<lambda>r. - f r) rows"

text \<open>\<open>result.scalar_one_or_none()\<close> and \<open>result.scalars().first()\<close>\<close>

fun scalar_one_or_none :: "'r list \<Rightarrow> (exn, 'r option) outcome" where
  "scalar_one_or_none [] = Inr None"
| "scalar_one_or_none [r] = Inr (Some r)"
| "scalar_one_or_none (r # s # rs) = Inl MultipleResultsFound"

fun scalars_first :: "'r list \<Rightarrow> 'r option" where
  "scalars_first [] = None"
| "scalars_first (r # rs) = Some r"

text \<open>
  A \<open>VARCHAR(n)\<close> column refuses longer values, a text column the character NUL.  A longer value
  whose excess is all spaces PostgreSQL shortens instead; the model refuses it too, which
  \<open>SchemaInserts\<close> states as the one difference.
\<close>

definition fits :: "nat \<Rightarrow> string \<Rightarrow> bool" where
  "fits n s \<longleftrightarrow> length s \<le> n \<and> CHR 0x00 \<notin> set s"

definition fits_opt :: "nat \<Rightarrow> string option \<Rightarrow> bool" where
  "fits_opt n s = (case s of None \<Rightarrow> True | Some v \<Rightarrow> fits n v)"

definition storable_text :: "string \<Rightarrow> bool" where
  "storable_text s \<longleftrightarrow> CHR 0x00 \<notin> set s"

text \<open>\<open>INSERT\<close> with the checks of the database, in the form all tables use.\<close>

definition checked_insert :: "bool \<Rightarrow> bool \<Rightarrow> 'd \<Rightarrow> (exn, 'd) outcome" where
  "checked_insert columns_fit constraints_hold db' =
     (if \<not> columns_fit then Inl DataError else if \<not> constraints_hold then Inl IntegrityError
      else Inr db')"

lemma checked_insert_Inr [simp]: "checked_insert f c d = Inr d' \<longleftrightarrow> f \<and> c \<and> d' = d"
  by (auto simp: checked_insert_def)

subsection \<open>The request session\<close>

type_synonym ('d, 'a) service = "'d \<Rightarrow> (exn, 'a) outcome \<times> 'd"

definition run_session :: "('d, 'a) service \<Rightarrow> ('d, 'a) service" where
  "run_session op db =
     (case op db of (Inl e, _) \<Rightarrow> (Inl e, db) | (Inr x, db') \<Rightarrow> (Inr x, db'))"

lemma run_session_error: "fst (run_session op db) = Inl e \<Longrightarrow> snd (run_session op db) = db"
  by (auto simp: run_session_def split: prod.splits sum.splits)

lemma run_session_ok: "op db = (Inr x, db') \<Longrightarrow> run_session op db = (Inr x, db')"
  by (simp add: run_session_def)

lemma run_session_preserves:
  "P db \<Longrightarrow> (\<And>x db'. op db = (Inr x, db') \<Longrightarrow> P db') \<Longrightarrow> P (snd (run_session op db))"
  by (auto simp: run_session_def split: prod.splits sum.splits)

subsection \<open>Facts about queries\<close>

lemma set_update_where: "set (update_where P f rows) = (\<lambda>r. if P r then f r else r) ` set rows"
  by (simp add: update_where_def)

lemma length_update_where [simp]: "length (update_where P f rows) = length rows"
  by (simp add: update_where_def)

lemma map_update_where:
  "(\<And>r. r \<in> set rows \<Longrightarrow> P r \<Longrightarrow> g (f r) = g r) \<Longrightarrow> map g (update_where P f rows) = map g rows"
  by (auto simp: update_where_def)

lemma update_where_unchanged: "(\<And>r. r \<in> set rows \<Longrightarrow> \<not> P r) \<Longrightarrow> update_where P f rows = rows"
  unfolding update_where_def by (rule map_idI) auto

lemma filter_update_where:
  "(\<And>r. r \<in> set rows \<Longrightarrow> P r \<Longrightarrow> \<not> Q r \<and> \<not> Q (f r)) \<Longrightarrow> filter Q (update_where P f rows) = filter Q rows"
  by (induction rows) (auto simp: update_where_def)

lemma filter_update_where_same:
  "(\<And>r. r \<in> set rows \<Longrightarrow> P r \<Longrightarrow> Q (f r) = Q r) \<Longrightarrow>
    filter Q (update_where P f rows) = update_where P f (filter Q rows)"
  by (induction rows) (auto simp: update_where_def)

lemma update_where_Cons [simp]:
  "update_where P f (r # rs) = (if P r then f r else r) # update_where P f rs"
  "update_where P f [] = []"
  by (simp_all add: update_where_def)

lemma set_order_by [simp]:
  "set (order_by_asc f rows) = set rows" "set (order_by_desc f rows) = set rows"
  by (simp_all add: order_by_asc_def order_by_desc_def)

lemma scalars_first_iff: "scalars_first rows = None \<longleftrightarrow> rows = []"
  by (cases rows) auto

lemma scalars_first_Some: "scalars_first rows = Some r \<longleftrightarrow> (\<exists>rs. rows = r # rs)"
  by (cases rows) auto

lemma scalars_first_in: "scalars_first rows = Some r \<Longrightarrow> r \<in> set rows"
  by (cases rows) auto

lemma first_asc_minimal:
  "scalars_first (order_by_asc f rows) = Some r \<Longrightarrow> s \<in> set rows \<Longrightarrow> f r \<le> f s"
proof -
  assume first: "scalars_first (order_by_asc f rows) = Some r" and s: "s \<in> set rows"
  from first obtain rs where eq: "sort_key f rows = r # rs"
    by (auto simp: scalars_first_Some order_by_asc_def)
  have "sorted (map f (r # rs))" unfolding eq [symmetric] by simp
  moreover have "s \<in> set (r # rs)" unfolding eq [symmetric] using s by simp
  ultimately show "f r \<le> f s" by auto
qed

lemma scalar_one_or_none_short:
  "length rows \<le> 1 \<Longrightarrow> scalar_one_or_none rows = Inr (scalars_first rows)"
  by (cases rows rule: scalar_one_or_none.cases) auto

lemma scalar_one_or_none_cases:
  obtains "scalar_one_or_none rows = Inr None" "rows = []"
  | r where "scalar_one_or_none rows = Inr (Some r)" "rows = [r]"
  | "scalar_one_or_none rows = Inl MultipleResultsFound" "1 < length rows"
  by (cases rows rule: scalar_one_or_none.cases) auto

lemma scalar_one_or_none_Some:
  "scalar_one_or_none rows = Inr (Some r) \<longleftrightarrow> rows = [r]"
  by (cases rows rule: scalar_one_or_none.cases) auto

lemma scalar_one_or_none_None: "scalar_one_or_none rows = Inr None \<longleftrightarrow> rows = []"
  by (cases rows rule: scalar_one_or_none.cases) auto

subsection \<open>The contract of a unique key\<close>

text \<open>
  A table of the database with an insert operation, and a key that the insert never duplicates.
\<close>

locale unique_key =
  fixes tbl :: "'d \<Rightarrow> 'r list"
    and ins :: "'r \<Rightarrow> 'd \<Rightarrow> (exn, 'd) outcome"
    and key :: "'r \<Rightarrow> 'k"
  assumes ins_appends: "ins r d = Inr d' \<Longrightarrow> tbl d' = tbl d @ [r]"
    and ins_new_key: "ins r d = Inr d' \<Longrightarrow> key r \<notin> key ` set (tbl d)"
begin

definition keyed :: "'d \<Rightarrow> bool" where
  "keyed d \<longleftrightarrow> distinct (map key (tbl d))"

lemma ins_keyed: "keyed d \<Longrightarrow> ins r d = Inr d' \<Longrightarrow> keyed d'"
  using ins_appends ins_new_key by (simp add: keyed_def)

lemma update_keyed:
  "keyed d \<Longrightarrow> (\<And>r. key (f r) = key r) \<Longrightarrow> tbl d' = update_where P f (tbl d) \<Longrightarrow> keyed d'"
  by (simp add: keyed_def map_update_where)

lemma delete_keyed: "keyed d \<Longrightarrow> tbl d' = filter P (tbl d) \<Longrightarrow> keyed d'"
  by (simp add: keyed_def distinct_map_filter)

lemma same_keyed: "keyed d \<Longrightarrow> tbl d' = tbl d \<Longrightarrow> keyed d'"
  by (simp add: keyed_def)

lemma unique: "keyed d \<Longrightarrow> r \<in> set (tbl d) \<Longrightarrow> s \<in> set (tbl d) \<Longrightarrow> key r = key s \<Longrightarrow> r = s"
  unfolding keyed_def by (rule distinct_map_inj_on_set)

lemma lookup:
  "keyed d \<Longrightarrow> r \<in> set (tbl d) \<Longrightarrow> scalar_one_or_none (filter (\<lambda>s. key s = key r) (tbl d)) = Inr (Some r)"
  unfolding keyed_def by (simp add: filter_unique_key)

lemma lookup_inserted:
  "keyed d \<Longrightarrow> ins r d = Inr d' \<Longrightarrow>
    scalar_one_or_none (filter (\<lambda>s. key s = key r) (tbl d')) = Inr (Some r)"
  using lookup [OF ins_keyed, of d r d' r] ins_appends by simp

lemma lookup_never_raises:
  "keyed d \<Longrightarrow> scalar_one_or_none (filter (\<lambda>s. key s = k \<and> Q s) (tbl d)) =
     Inr (scalars_first (filter (\<lambda>s. key s = k \<and> Q s) (tbl d)))"
  unfolding keyed_def
  by (intro scalar_one_or_none_short length_filter_conj_le_1 length_filter_key_le_1)

lemma lookup_Some:
  assumes "keyed d"
  shows "scalar_one_or_none (filter (\<lambda>s. key s = k \<and> Q s) (tbl d)) = Inr (Some r) \<longleftrightarrow>
    r \<in> set (tbl d) \<and> key r = k \<and> Q r"
proof -
  have "length xs \<le> 1 \<Longrightarrow> scalars_first xs = Some r \<longleftrightarrow> r \<in> set xs" for xs
    by (cases xs) auto
  from this [OF length_filter_conj_le_1 [OF length_filter_key_le_1]] assms show ?thesis
    by (simp add: lookup_never_raises keyed_def)
qed

lemma lookup_None:
  assumes "keyed d"
  shows "scalar_one_or_none (filter (\<lambda>s. key s = k \<and> Q s) (tbl d)) = Inr None \<longleftrightarrow>
    (\<forall>s \<in> set (tbl d). key s = k \<longrightarrow> \<not> Q s)"
  by (auto simp: scalar_one_or_none_None filter_empty_conv)

lemma lookup_key_never_raises:
  "keyed d \<Longrightarrow> scalar_one_or_none (filter (\<lambda>s. key s = k) (tbl d)) =
     Inr (scalars_first (filter (\<lambda>s. key s = k) (tbl d)))"
  using lookup_never_raises [of d k "\<lambda>_. True"] by simp

end

end
