(* ===== verification/Models.thy ===== *)
theory Models
  imports Complex_Main Sql
begin

section \<open>The database schema\<close>

text \<open>
  The ORM models of \<open>src/auth/models.py\<close>, \<open>src/tenants/models.py\<close>,
  \<open>src/documents/models.py\<close> and \<open>src/ingestion/models.py\<close>: one record per table, one
  datatype per \<open>CHECK\<close>-constrained status column, the database as the record of its tables,
  and one insert per table, which checks the column widths, the primary key, the unique
  constraints and the foreign keys the way the schema declares them.  Identifiers are arguments:
  they come from \<open>gen_random_uuid()\<close> or \<open>uuid4()\<close>.
\<close>

subsection \<open>Users and their credentials\<close>

record user =
  u_id :: uuid
  u_email :: string
  u_is_active :: bool
  u_created_at :: timestamp

record api_key =
  k_id :: uuid
  k_user_id :: uuid
  k_key_prefix :: string
  k_key_hash :: string
  k_name :: string
  k_is_active :: bool
  k_expires_at :: "timestamp option"
  k_last_used_at :: "timestamp option"
  k_created_at :: timestamp

record refresh_token =
  t_id :: uuid
  t_user_id :: uuid
  t_token_hash :: string
  t_expires_at :: timestamp
  t_created_at :: timestamp

subsection \<open>Organizations\<close>

datatype role = Admin | Editor | Viewer

text \<open>
  \<open>Expired\<close> is the value \<open>accept_invite\<close> writes; the \<open>CHECK\<close> constraint of the table
  allows the other four only.
\<close>

datatype invite_status = Pending | Accepted | Rejected | Revoked | Expired

definition invite_status_valid :: "invite_status \<Rightarrow> bool" where
  "invite_status_valid s \<longleftrightarrow> s \<noteq> Expired"

fun role_value :: "role \<Rightarrow> string" where
  "role_value Admin = ''admin''"
| "role_value Editor = ''editor''"
| "role_value Viewer = ''viewer''"

fun invite_status_str :: "invite_status \<Rightarrow> string" where
  "invite_status_str Pending = ''pending''"
| "invite_status_str Accepted = ''accepted''"
| "invite_status_str Rejected = ''rejected''"
| "invite_status_str Revoked = ''revoked''"
| "invite_status_str Expired = ''expired''"

record organization =
  o_id :: uuid
  o_name :: string
  o_slug :: string
  o_created_at :: timestamp

record membership =
  m_id :: uuid
  m_org_id :: uuid
  m_user_id :: uuid
  m_role :: role
  m_created_at :: timestamp

record invite =
  i_id :: uuid
  i_org_id :: uuid
  i_email :: string
  i_role :: role
  i_token_hash :: string
  i_status :: invite_status
  i_expires_at :: timestamp
  i_created_at :: timestamp
  i_accepted_at :: "timestamp option"
  i_created_by :: "uuid option"

subsection \<open>Documents, chunks and jobs\<close>

datatype document_status = DocPending | DocProcessing | DocReady | DocFailed

datatype job_status = JobQueued | JobClaimed | JobRunning | JobCompleted | JobFailed | JobDead

fun document_status_str :: "document_status \<Rightarrow> string" where
  "document_status_str DocPending = ''pending''"
| "document_status_str DocProcessing = ''processing''"
| "document_status_str DocReady = ''ready''"
| "document_status_str DocFailed = ''failed''"

fun job_status_str :: "job_status \<Rightarrow> string" where
  "job_status_str JobQueued = ''queued''"
| "job_status_str JobClaimed = ''claimed''"
| "job_status_str JobRunning = ''running''"
| "job_status_str JobCompleted = ''completed''"
| "job_status_str JobFailed = ''failed''"
| "job_status_str JobDead = ''dead''"

record document =
  d_id :: uuid
  d_user_id :: uuid
  d_tenant_id :: uuid
  d_filename :: string
  d_content_hash :: string
  d_size_bytes :: nat
  d_mime_type :: "string option"
  d_storage_key :: "string option"
  d_status :: document_status
  d_chunk_count :: nat
  d_error_message :: "string option"
  d_created_at :: timestamp
  d_updated_at :: timestamp
  d_deleted_at :: "timestamp option"

record chunk_row =
  c_id :: uuid
  c_document_id :: uuid
  c_user_id :: uuid
  c_tenant_id :: uuid
  c_content :: string
  c_page_number :: "nat option"
  c_chunk_index :: nat
  c_embedding :: "rat list"
  c_created_at :: timestamp

record job =
  j_id :: uuid
  j_document_id :: uuid
  j_user_id :: uuid
  j_tenant_id :: uuid
  j_status :: job_status
  j_idempotency_key :: string
  j_worker_id :: "string option"
  j_attempt_count :: nat
  j_max_attempts :: nat
  j_version :: nat
  j_error_message :: "string option"
  j_claimed_at :: "timestamp option"
  j_started_at :: "timestamp option"
  j_completed_at :: "timestamp option"
  j_created_at :: timestamp

definition embedding_dim :: nat where
  "embedding_dim = 384"

subsection \<open>The database and its inserts\<close>

record database =
  users :: "user list"
  api_keys :: "api_key list"
  refresh_tokens :: "refresh_token list"
  organizations :: "organization list"
  memberships :: "membership list"
  invites :: "invite list"
  documents :: "document list"
  chunks :: "chunk_row list"
  jobs :: "job list"

abbreviation "user_exists db u \<equiv> u \<in> u_id ` set (users db)"
abbreviation "org_exists db t \<equiv> t \<in> o_id ` set (organizations db)"
abbreviation "document_exists db d \<equiv> d \<in> d_id ` set (documents db)"

definition insert_user :: "user \<Rightarrow> database \<Rightarrow> (exn, database) outcome" where
  "insert_user r db = checked_insert (fits 255 (u_email r))
     (u_id r \<notin> u_id ` set (users db) \<and> u_email r \<notin> u_email ` set (users db))
     (db \<lparr>users := users db @ [r]\<rparr>)"

definition insert_api_key :: "api_key \<Rightarrow> database \<Rightarrow> (exn, database) outcome" where
  "insert_api_key r db = checked_insert
     (fits 12 (k_key_prefix r) \<and> fits 255 (k_key_hash r) \<and> fits 100 (k_name r))
     (k_id r \<notin> k_id ` set (api_keys db) \<and> user_exists db (k_user_id r))
     (db \<lparr>api_keys := api_keys db @ [r]\<rparr>)"

definition insert_refresh_token :: "refresh_token \<Rightarrow> database \<Rightarrow> (exn, database) outcome" where
  "insert_refresh_token r db = checked_insert (fits 64 (t_token_hash r))
     (t_id r \<notin> t_id ` set (refresh_tokens db) \<and>
      t_token_hash r \<notin> t_token_hash ` set (refresh_tokens db) \<and> user_exists db (t_user_id r))
     (db \<lparr>refresh_tokens := refresh_tokens db @ [r]\<rparr>)"

definition insert_organization :: "organization \<Rightarrow> database \<Rightarrow> (exn, database) outcome" where
  "insert_organization r db = checked_insert (fits 255 (o_name r) \<and> fits 100 (o_slug r))
     (o_id r \<notin> o_id ` set (organizations db) \<and> o_slug r \<notin> o_slug ` set (organizations db))
     (db \<lparr>organizations := organizations db @ [r]\<rparr>)"

definition insert_membership :: "membership \<Rightarrow> database \<Rightarrow> (exn, database) outcome" where
  "insert_membership r db = checked_insert True
     (m_id r \<notin> m_id ` set (memberships db) \<and>
      (m_org_id r, m_user_id r) \<notin> (\<lambda>m. (m_org_id m, m_user_id m)) ` set (memberships db) \<and>
      org_exists db (m_org_id r) \<and> user_exists db (m_user_id r))
     (db \<lparr>memberships := memberships db @ [r]\<rparr>)"

definition insert_invite :: "invite \<Rightarrow> database \<Rightarrow> (exn, database) outcome" where
  "insert_invite r db = checked_insert (fits 255 (i_email r) \<and> fits 64 (i_token_hash r))
     (i_id r \<notin> i_id ` set (invites db) \<and> i_token_hash r \<notin> i_token_hash ` set (invites db) \<and>
      invite_status_valid (i_status r) \<and> org_exists db (i_org_id r) \<and>
      (case i_created_by r of None \<Rightarrow> True | Some u \<Rightarrow> user_exists db u))
     (db \<lparr>invites := invites db @ [r]\<rparr>)"

definition insert_document :: "document \<Rightarrow> database \<Rightarrow> (exn, database) outcome" where
  "insert_document r db = checked_insert
     (fits 500 (d_filename r) \<and> fits 64 (d_content_hash r) \<and> fits_opt 100 (d_mime_type r) \<and>
      fits_opt 500 (d_storage_key r))
     (d_id r \<notin> d_id ` set (documents db) \<and>
      (d_tenant_id r, d_content_hash r) \<notin> (\<lambda>d. (d_tenant_id d, d_content_hash d)) ` set (documents db) \<and>
      user_exists db (d_user_id r) \<and> org_exists db (d_tenant_id r))
     (db \<lparr>documents := documents db @ [r]\<rparr>)"

definition insert_chunk :: "chunk_row \<Rightarrow> database \<Rightarrow> (exn, database) outcome" where
  "insert_chunk r db = checked_insert
     (storable_text (c_content r) \<and> length (c_embedding r) = embedding_dim)
     (c_id r \<notin> c_id ` set (chunks db) \<and> document_exists db (c_document_id r) \<and>
      user_exists db (c_user_id r) \<and> org_exists db (c_tenant_id r))
     (db \<lparr>chunks := chunks db @ [r]\<rparr>)"

definition insert_job :: "job \<Rightarrow> database \<Rightarrow> (exn, database) outcome" where
  "insert_job r db = checked_insert (fits 255 (j_idempotency_key r))
     (j_id r \<notin> j_id ` set (jobs db) \<and>
      (j_tenant_id r, j_idempotency_key r) \<notin> (\<lambda>j. (j_tenant_id j, j_idempotency_key j)) ` set (jobs db) \<and>
      document_exists db (j_document_id r) \<and> user_exists db (j_user_id r) \<and>
      org_exists db (j_tenant_id r))
     (db \<lparr>jobs := jobs db @ [r]\<rparr>)"

subsection \<open>The unique keys of the tables\<close>

interpretation user_ids: unique_key users insert_user u_id
  by unfold_locales (auto simp: insert_user_def)

interpretation user_emails: unique_key users insert_user u_email
  by unfold_locales (auto simp: insert_user_def)

interpretation token_hashes: unique_key refresh_tokens insert_refresh_token t_token_hash
  by unfold_locales (auto simp: insert_refresh_token_def)

interpretation api_key_ids: unique_key api_keys insert_api_key k_id
  by unfold_locales (auto simp: insert_api_key_def)

interpretation org_slugs: unique_key organizations insert_organization o_slug
  by unfold_locales (auto simp: insert_organization_def)

interpretation org_ids: unique_key organizations insert_organization o_id
  by unfold_locales (auto simp: insert_organization_def)

interpretation member_keys: unique_key memberships insert_membership "\<lambda>m. (m_org_id m, m_user_id m)"
  by unfold_locales (auto simp: insert_membership_def)

interpretation member_ids: unique_key memberships insert_membership m_id
  by unfold_locales (auto simp: insert_membership_def)

interpretation invite_ids: unique_key invites insert_invite i_id
  by unfold_locales (auto simp: insert_invite_def)

interpretation document_ids: unique_key documents insert_document d_id
  by unfold_locales (auto simp: insert_document_def)

interpretation document_hashes: unique_key documents insert_document "\<lambda>d. (d_tenant_id d, d_content_hash d)"
  by unfold_locales (auto simp: insert_document_def)

interpretation chunk_ids: unique_key chunks insert_chunk c_id
  by unfold_locales (auto simp: insert_chunk_def)

interpretation job_ids: unique_key jobs insert_job j_id
  by unfold_locales (auto simp: insert_job_def)

interpretation job_keys: unique_key jobs insert_job "\<lambda>j. (j_tenant_id j, j_idempotency_key j)"
  by unfold_locales (auto simp: insert_job_def)

end
