(* ===== verification/Chunking.thy ===== *)
theory Chunking
  imports Exceptions
begin

section \<open>The recursive text chunker\<close>

text \<open>
  \<open>RecursiveTextChunker\<close> of \<open>src/ingestion/pipeline.py\<close>.  Sizes are natural numbers (the
  source passes non-negative literals).  \<open>hard_split\<close> is a \<open>while\<close> loop whose progress
  depends on the constructor's check, so it is a partial function: \<open>None\<close> means that the
  loop does not end.
\<close>

record chunker =
  chunk_size :: nat
  chunk_overlap :: nat

definition make_chunker :: "nat \<Rightarrow> nat \<Rightarrow> (exn, chunker) outcome" where
  "make_chunker sz ov =
     (if ov \<ge> sz then Inl (ValueError ''chunk_overlap must be less than chunk_size.'')
      else Inr \<lparr>chunk_size = sz, chunk_overlap = ov\<rparr>)"

definition valid_chunker :: "chunker \<Rightarrow> bool" where
  "valid_chunker c \<longleftrightarrow> chunk_overlap c < chunk_size c"

definition separators :: "string list" where
  "separators = [[CHR 0x0A, CHR 0x0A], [CHR 0x0A], ''. '', '' '', '''']"

text \<open>\<open>text[start:end]\<close> for \<open>0 \<le> start\<close> and \<open>0 \<le> end\<close>.\<close>

definition slice :: "nat \<Rightarrow> nat \<Rightarrow> 'a list \<Rightarrow> 'a list" where
  "slice start stop xs = take (stop - start) (drop start xs)"

partial_function (option) hard_split_from :: "chunker \<Rightarrow> string \<Rightarrow> nat \<Rightarrow> string list option" where
  "hard_split_from c tx start =
     (if start < length tx
      then let stop = start + chunk_size c
           in Option.bind (hard_split_from c tx (stop - chunk_overlap c))
                (\<lambda>rest. Some (slice start stop tx # rest))
      else Some [])"

declare hard_split_from.simps [code]

definition hard_split :: "chunker \<Rightarrow> string \<Rightarrow> string list option" where
  "hard_split c tx = hard_split_from c tx 0"

text \<open>Each chunk but the last is extended by the beginning of the next one.\<close>

fun add_overlaps :: "nat \<Rightarrow> string list \<Rightarrow> string list" where
  "add_overlaps n [] = []"
| "add_overlaps n [x] = [x]"
| "add_overlaps n (x # y # ys) = (x @ take n y) # add_overlaps n (y # ys)"

definition apply_overlap :: "chunker \<Rightarrow> string list \<Rightarrow> string list" where
  "apply_overlap c chunks =
     (if length chunks \<le> 1 \<or> chunk_overlap c = 0 then chunks
      else add_overlaps (chunk_overlap c) chunks)"

text \<open>
  The loop over the parts of a text cut at \<open>sep\<close>: \<open>chunks\<close> collects what is finished,
  \<open>current\<close> is the chunk under construction, \<open>finer\<close> says whether finer separators remain
  and \<open>recurse\<close> is the recursive call with them.
\<close>

fun merge_parts ::
  "chunker \<Rightarrow> string \<Rightarrow> bool \<Rightarrow> (string \<Rightarrow> string list option) \<Rightarrow> string list \<Rightarrow> string list \<Rightarrow> string
     \<Rightarrow> string list option" where
  "merge_parts c sep finer recurse [] chunks current =
     Some (if current \<noteq> [] then chunks @ [current] else chunks)"
| "merge_parts c sep finer recurse (part # parts) chunks current =
     (let candidate = (if current \<noteq> [] then current @ sep @ part else part)
      in if length candidate \<le> chunk_size c
         then merge_parts c sep finer recurse parts chunks candidate
         else let chunks' = (if current \<noteq> [] then chunks @ [current] else chunks)
              in if length part > chunk_size c \<and> finer
                 then case recurse part of
                        None \<Rightarrow> None
                      | Some cs \<Rightarrow> merge_parts c sep finer recurse parts (chunks' @ cs) current
                 else merge_parts c sep finer recurse parts chunks' part)"

primrec split_text :: "string list \<Rightarrow> chunker \<Rightarrow> string \<Rightarrow> string list option" where
  "split_text [] c tx =
     (if length tx \<le> chunk_size c then Some [tx] else hard_split c tx)"
| "split_text (sep # remaining) c tx =
     (if length tx \<le> chunk_size c then Some [tx]
      else if sep = '''' then hard_split c tx
      else map_option (apply_overlap c)
             (merge_parts c sep (remaining \<noteq> []) (split_text remaining c) (py_split sep tx) [] ''''))"

definition chunk_text :: "chunker \<Rightarrow> string \<Rightarrow> string list option" where
  "chunk_text c tx0 =
     (let tx = strip tx0
      in if tx = [] then Some []
         else map_option (filter not_blank) (split_text separators c tx))"


subsection \<open>The hard split\<close>

lemma hard_split_from_step:
  "start < length tx \<Longrightarrow>
   hard_split_from c tx start =
     map_option (\<lambda>rest. slice start (start + chunk_size c) tx # rest)
       (hard_split_from c tx (start + chunk_size c - chunk_overlap c))"
  by (simp add: hard_split_from.simps [of c tx start] Let_def map_conv_bind_option comp_def)

lemma hard_split_from_end:
  "length tx \<le> start \<Longrightarrow> hard_split_from c tx start = Some []"
  by (simp add: hard_split_from.simps [of c tx start])

lemma hard_split_from_induct [consumes 1, case_names finish step]:
  assumes valid: "valid_chunker c"
    and base: "\<And>start. length tx \<le> start \<Longrightarrow> P start []"
    and step: "\<And>start rest. start < length tx \<Longrightarrow>
      hard_split_from c tx (start + chunk_size c - chunk_overlap c) = Some rest \<Longrightarrow>
      P (start + chunk_size c - chunk_overlap c) rest \<Longrightarrow>
      P start (slice start (start + chunk_size c) tx # rest)"
  shows "\<exists>cs. hard_split_from c tx start = Some cs \<and> P start cs"
proof (induction "length tx - start" arbitrary: start rule: less_induct)
  case less
  show ?case
  proof (cases "start < length tx")
    case True
    let ?next = "start + chunk_size c - chunk_overlap c"
    from valid True have "length tx - ?next < length tx - start"
      unfolding valid_chunker_def by linarith
    from less [OF this] obtain rest where
      rest: "hard_split_from c tx ?next = Some rest" "P ?next rest" by blast
    with step [OF True] show ?thesis
      by (simp add: hard_split_from_step [OF True])
  next
    case False
    then show ?thesis using base by (simp add: hard_split_from_end)
  qed
qed

lemma slice_drop: "slice start (start + n) xs @ drop (start + n) xs = drop start xs"
  by (simp add: slice_def add.commute [of start n] flip: drop_drop)

lemma hard_split_sizes:
  assumes "valid_chunker c"
  shows "\<exists>cs. hard_split c tx = Some cs \<and> (\<forall>x \<in> set cs. length x \<le> chunk_size c)"
  unfolding hard_split_def
  using assms by (induction rule: hard_split_from_induct) (auto simp: slice_def)

lemma hard_split_content:
  assumes "valid_chunker c"
  shows "\<exists>cs. hard_split c tx = Some cs \<and> subseq tx (concat cs)"
proof -
  have "\<exists>cs. hard_split_from c tx 0 = Some cs \<and> subseq (drop 0 tx) (concat cs)"
    using assms
  proof (induction rule: hard_split_from_induct)
    case (step start rest)
    let ?stop = "start + chunk_size c"
    have "subseq (drop ?stop tx) (drop (?stop - chunk_overlap c) tx)"
      by (metis diff_le_self suffix_drop le_add_diff_inverse drop_drop add.commute suffix_imp_subseq)
    then have "subseq (drop ?stop tx) (concat rest)"
      using step(3) by (rule subseq_order.order_trans)
    then have "subseq (slice start ?stop tx @ drop ?stop tx) (slice start ?stop tx @ concat rest)"
      by (simp only: subseq_append')
    then show ?case by (simp only: slice_drop concat.simps)
  qed simp_all
  then show ?thesis by (simp add: hard_split_def)
qed

text \<open>
  For a chunker that the constructor accepts, the hard split ends, and
  its result is exactly the list of windows of \<open>chunk_size\<close> characters that start at the
  multiples of \<open>chunk_size - chunk_overlap\<close> inside the text.
\<close>

theorem hard_split_windows:
  assumes "make_chunker sz ov = Inr c"
  shows "hard_split c tx =
    Some (map (\<lambda>i. slice (i * (sz - ov)) (i * (sz - ov) + sz) tx)
           [0..<(length tx + (sz - ov) - 1) div (sz - ov)])"
proof -
  let ?d = "sz - ov" and ?n = "(length tx + (sz - ov) - 1) div (sz - ov)"
  let ?w = "\<lambda>i. slice (i * ?d) (i * ?d + sz) tx"
  from assms have c: "chunk_size c = sz" "chunk_overlap c = ov" "ov < sz"
    by (auto simp: make_chunker_def split: if_splits)
  then have d: "0 < ?d" and valid: "valid_chunker c" by (simp_all add: valid_chunker_def)
  have "hard_split_from c tx (i * ?d) = Some (map ?w [i..<?n])" for i
  proof (induction "?n - i" arbitrary: i rule: less_induct)
    case less
    have iff: "i * ?d < length tx \<longleftrightarrow> i < ?n"
      using d by (simp add: less_eq_div_iff_mult_less_eq flip: Suc_le_eq) linarith
    show ?case
    proof (cases "i < ?n")
      case True
      have next_start: "i * ?d + sz - ov = Suc i * ?d"
        using c(3) by simp
      have "?n - Suc i < ?n - i" using True by (rule diff_less_mono2 [OF lessI])
      from less [OF this] True iff next_start c show ?thesis
        by (simp add: hard_split_from_step upt_conv_Cons)
    next
      case False
      with iff show ?thesis by (simp add: hard_split_from_end)
    qed
  qed
  from this [of 0] show ?thesis by (simp add: hard_split_def)
qed

theorem hard_split_windows_witness:
  "make_chunker 4 1 = Inr \<lparr>chunk_size = 4, chunk_overlap = 1\<rparr> \<and>
   hard_split \<lparr>chunk_size = 4, chunk_overlap = 1\<rparr> ''abcdefgh'' = Some [''abcd'', ''defg'', ''gh'']"
proof -
  have mk: "make_chunker 4 1 = Inr \<lparr>chunk_size = 4, chunk_overlap = 1\<rparr>"
    by (simp add: make_chunker_def)
  from hard_split_windows [OF this, of "''abcdefgh''"] mk show ?thesis
    by (simp add: slice_def upt_rec)
qed


subsection \<open>Overlaps\<close>

lemma add_overlaps_sizes:
  "\<forall>x \<in> set cs. length x \<le> b \<Longrightarrow> \<forall>x \<in> set (add_overlaps n cs). length x \<le> b + n"
  by (induction n cs rule: add_overlaps.induct) auto

lemma subseq_add_overlaps: "subseq (concat cs) (concat (add_overlaps n cs))"
proof (induction n cs rule: add_overlaps.induct)
  case (3 n x y ys)
  then have "subseq ([] @ concat (y # ys)) (take n y @ concat (add_overlaps n (y # ys)))"
    by (intro list_emb_append_mono) auto
  then have "subseq (x @ concat (y # ys)) (x @ take n y @ concat (add_overlaps n (y # ys)))"
    by (simp only: subseq_append' append_Nil)
  then show ?case by simp
qed auto

lemma apply_overlap_sizes:
  "\<forall>x \<in> set cs. length x \<le> b \<Longrightarrow> \<forall>x \<in> set (apply_overlap c cs). length x \<le> b + chunk_overlap c"
  using add_overlaps_sizes by (auto simp: apply_overlap_def)

lemma subseq_apply_overlap: "subseq (concat cs) (concat (apply_overlap c cs))"
  by (simp add: apply_overlap_def subseq_add_overlaps)

subsection \<open>The merging loop\<close>

text \<open>The loop body's three branches, on the candidate and on the flushed chunks.\<close>

abbreviation candidate :: "string \<Rightarrow> string \<Rightarrow> string \<Rightarrow> string" where
  "candidate current sep part \<equiv> (if current \<noteq> [] then current @ sep @ part else part)"

abbreviation flush :: "string list \<Rightarrow> string \<Rightarrow> string list" where
  "flush chunks current \<equiv> (if current \<noteq> [] then chunks @ [current] else chunks)"

lemma merge_parts_fits:
  "length (candidate current sep part) \<le> chunk_size c \<Longrightarrow>
   merge_parts c sep finer recurse (part # parts) chunks current =
     merge_parts c sep finer recurse parts chunks (candidate current sep part)"
  unfolding merge_parts.simps Let_def by (simp only: if_True)

lemma merge_parts_recurse:
  "\<not> length (candidate current sep part) \<le> chunk_size c \<Longrightarrow> chunk_size c < length part \<and> finer \<Longrightarrow>
   merge_parts c sep finer recurse (part # parts) chunks current =
     (case recurse part of
        None \<Rightarrow> None
      | Some ps \<Rightarrow> merge_parts c sep finer recurse parts (flush chunks current @ ps) current)"
  unfolding merge_parts.simps Let_def by (simp only: if_True if_False simp_thms)

lemma merge_parts_push:
  "\<not> length (candidate current sep part) \<le> chunk_size c \<Longrightarrow> \<not> (chunk_size c < length part \<and> finer) \<Longrightarrow>
   merge_parts c sep finer recurse (part # parts) chunks current =
     merge_parts c sep finer recurse parts (flush chunks current) part"
  unfolding merge_parts.simps Let_def by (simp only: if_True if_False simp_thms)

declare merge_parts.simps(2) [simp del]

lemma merge_parts_induct [consumes 1, case_names Nil Fits Recurse Push]:
  assumes "merge_parts c sep finer recurse parts chunks current = Some cs"
    and "\<And>chunks current. P [] chunks current (flush chunks current)"
    and "\<And>part parts chunks current cs. length (candidate current sep part) \<le> chunk_size c \<Longrightarrow>
      P parts chunks (candidate current sep part) cs \<Longrightarrow> P (part # parts) chunks current cs"
    and "\<And>part parts chunks current ps cs. chunk_size c < length part \<Longrightarrow> finer \<Longrightarrow>
      recurse part = Some ps \<Longrightarrow> P parts (flush chunks current @ ps) current cs \<Longrightarrow>
      P (part # parts) chunks current cs"
    and "\<And>part parts chunks current cs. \<not> (chunk_size c < length part \<and> finer) \<Longrightarrow>
      P parts (flush chunks current) part cs \<Longrightarrow> P (part # parts) chunks current cs"
  shows "P parts chunks current cs"
  using assms(1)
proof (induction parts arbitrary: chunks current)
  case Nil
  then show ?case using assms(2) [of chunks current] by (metis merge_parts.simps(1) option.inject)
next
  case (Cons part parts)
  consider "length (candidate current sep part) \<le> chunk_size c"
    | "\<not> length (candidate current sep part) \<le> chunk_size c" "chunk_size c < length part \<and> finer"
    | "\<not> length (candidate current sep part) \<le> chunk_size c" "\<not> (chunk_size c < length part \<and> finer)"
    by blast
  then show ?case
  proof cases
    case 1
    with Cons show ?thesis by (simp only: merge_parts_fits assms(3))
  next
    case 2
    from Cons.prems have "(case recurse part of None \<Rightarrow> None
      | Some ps \<Rightarrow> merge_parts c sep finer recurse parts (flush chunks current @ ps) current) = Some cs"
      unfolding merge_parts_recurse [OF 2] .
    then obtain ps where "recurse part = Some ps"
      "merge_parts c sep finer recurse parts (flush chunks current @ ps) current = Some cs"
      by (cases "recurse part") (simp_all only: option.case option.distinct)
    with 2 show ?thesis using Cons.IH assms(4) by blast
  next
    case 3
    from Cons.prems have "merge_parts c sep finer recurse parts (flush chunks current) part = Some cs"
      unfolding merge_parts_push [OF 3] .
    with 3 show ?thesis using Cons.IH assms(5) by blast
  qed
qed

lemma merge_parts_total:
  "(\<And>p. \<exists>cs. recurse p = Some cs) \<Longrightarrow> \<exists>cs. merge_parts c sep finer recurse parts chunks current = Some cs"
proof (induction parts arbitrary: chunks current)
  case (Cons part parts)
  obtain ps where ps: "recurse part = Some ps" using Cons.prems by blast
  note IH = Cons.IH [OF Cons.prems]
  show ?case
  proof (cases "length (candidate current sep part) \<le> chunk_size c")
    case True
    then show ?thesis by (simp only: merge_parts_fits IH)
  next
    case long: False
    show ?thesis
    proof (cases "chunk_size c < length part \<and> finer")
      case True
      show ?thesis unfolding merge_parts_recurse [OF long True] ps option.case by (rule IH)
    next
      case False
      show ?thesis unfolding merge_parts_push [OF long False] by (rule IH)
    qed
  qed
qed simp

lemma merge_parts_sizes:
  assumes "merge_parts c sep True recurse parts chunks current = Some cs"
    and "\<And>p ps. recurse p = Some ps \<Longrightarrow> \<forall>x \<in> set ps. length x \<le> b"
    and "chunk_size c \<le> b"
    and "\<forall>x \<in> set chunks. length x \<le> b" and "length current \<le> chunk_size c"
  shows "\<forall>x \<in> set cs. length x \<le> b"
  using assms(1,4,5)
proof (induction rule: merge_parts_induct)
  case (Recurse part parts chunks current ps cs)
  have "\<forall>x \<in> set (flush chunks current @ ps). length x \<le> b"
    using Recurse(5,6) assms(3) assms(2) [OF Recurse(3)] by (simp add: ball_Un)
  from Recurse(4) [OF this Recurse(6)] show ?case .
next
  case (Push part parts chunks current cs)
  have "\<forall>x \<in> set (flush chunks current). length x \<le> b" and "length part \<le> chunk_size c"
    using Push(1,3,4) assms(3) by simp_all
  from Push(2) [OF this] show ?case .
next
  case (Nil chunks current)
  then have "\<forall>x \<in> set (flush chunks current). length x \<le> b" using assms(3) by simp
  then show ?case .
next
  case (Fits part parts chunks current cs)
  from Fits(2) [OF Fits(3) Fits(1)] show ?case .
qed

text \<open>
  The characters of a text that no separator contains and that stripping keeps.
\<close>

definition content_char :: "char \<Rightarrow> bool" where
  "content_char ch \<longleftrightarrow> \<not> is_space ch \<and> ch \<noteq> CHR ''.''"

abbreviation content_of :: "string \<Rightarrow> string" where
  "content_of s \<equiv> filter content_char s"

lemma content_sep: "sep \<in> set separators \<Longrightarrow> content_of sep = []"
  by (auto simp: separators_def content_char_def is_space_def Let_def)

lemma content_strip: "content_of (strip s) = content_of s"
  by (rule filter_nonspace_strip) (simp add: content_char_def)

lemma content_char_space: "is_space ch \<Longrightarrow> \<not> content_char ch"
  by (simp add: content_char_def)

lemma content_blank: "\<not> not_blank s \<Longrightarrow> content_of s = []"
  by (auto simp: not_blank_iff content_char_def filter_empty_conv)

lemma content_not_blank: "content_of (concat (filter not_blank ss)) = content_of (concat ss)"
  by (induction ss) (simp_all add: content_blank)

lemma content_strip_not_blank: "content_of (concat [strip s. s \<leftarrow> ss, not_blank s]) = content_of (concat ss)"
  by (induction ss) (simp_all add: content_blank content_strip)

lemma subseq_content: "subseq s t \<Longrightarrow> subseq (content_of s) (content_of t)"
  by (rule subseq_filter)

lemma merge_parts_content:
  assumes "merge_parts c sep finer recurse parts chunks current = Some cs"
    and "content_of sep = []"
    and "\<And>p ps. recurse p = Some ps \<Longrightarrow> subseq (content_of p) (content_of (concat ps))"
  shows "subseq (content_of (concat chunks) @ content_of current @ content_of (concat parts)) (content_of (concat cs))"
  using assms(1)
proof (induction rule: merge_parts_induct)
  case (Nil chunks current)
  then show ?case by simp
next
  case (Fits part parts chunks current cs)
  have "content_of (candidate current sep part) = content_of current @ content_of part"
    using assms(2) by simp
  with Fits(2) show ?case by (simp only: concat.simps filter_append append_assoc)
next
  case (Recurse part parts chunks current ps cs)
  have pushed: "content_of (concat (flush chunks current)) = content_of (concat chunks) @ content_of current"
    by simp
  have "subseq (content_of part @ content_of (concat parts))
          (content_of (concat ps) @ content_of current @ content_of (concat parts))"
    using assms(3) [OF Recurse(3)] by (intro list_emb_append_mono) (auto intro: list_emb_append2)
  then have "subseq ((content_of (concat chunks) @ content_of current) @ content_of part @ content_of (concat parts))
      ((content_of (concat chunks) @ content_of current)
        @ content_of (concat ps) @ content_of current @ content_of (concat parts))"
    by (simp only: subseq_append')
  also have "subseq \<dots> (content_of (concat cs))"
    using Recurse(4) pushed by (simp only: concat_append filter_append append_assoc)
  finally show ?case by (simp only: concat.simps filter_append append_assoc)
next
  case (Push part parts chunks current cs)
  have "content_of (concat (flush chunks current)) = content_of (concat chunks) @ content_of current"
    by simp
  with Push(2) show ?case by (simp only: concat.simps filter_append append_assoc)
qed

subsection \<open>The whole splitter\<close>

lemma split_text_total:
  "valid_chunker c \<Longrightarrow> \<exists>cs. split_text seps c tx = Some cs"
proof (induction seps arbitrary: tx)
  case Nil
  then show ?case using hard_split_sizes [of c tx] by auto
next
  case (Cons sep seps)
  obtain cs where "merge_parts c sep (seps \<noteq> []) (split_text seps c) (py_split sep tx) [] [] = Some cs"
    using merge_parts_total [of "split_text seps c"] Cons.IH [OF Cons.prems] by metis
  then show ?case using hard_split_sizes [OF Cons.prems, of tx] by auto
qed

lemma split_text_sizes:
  assumes "valid_chunker c"
  shows "split_text seps c tx = Some cs \<Longrightarrow> seps \<noteq> [] \<Longrightarrow> last seps = [] \<Longrightarrow>
    \<forall>x \<in> set cs. length x \<le> chunk_size c + (length seps - 1) * chunk_overlap c"
proof (induction seps arbitrary: tx cs)
  case (Cons sep seps)
  consider "length tx \<le> chunk_size c" | "chunk_size c < length tx" "sep = []"
    | "chunk_size c < length tx" "sep \<noteq> []"
    by linarith
  then show ?case
  proof cases
    case 1
    with Cons.prems(1) show ?thesis by auto
  next
    case 2
    with Cons.prems(1) hard_split_sizes [OF assms, of tx] show ?thesis by fastforce
  next
    case 3
    with Cons.prems(3) have seps: "seps \<noteq> []" "last seps = []" by (auto split: if_splits)
    let ?b = "chunk_size c + (length seps - 1) * chunk_overlap c"
    from 3 seps Cons.prems(1) obtain ms where
      ms: "merge_parts c sep True (split_text seps c) (py_split sep tx) [] [] = Some ms"
      and cs: "cs = apply_overlap c ms" by auto
    have "\<forall>x \<in> set ms. length x \<le> ?b"
      by (rule merge_parts_sizes [OF ms]) (use Cons.IH seps in auto)
    then have "\<forall>x \<in> set cs. length x \<le> ?b + chunk_overlap c"
      unfolding cs by (rule apply_overlap_sizes)
    moreover have "?b + chunk_overlap c = chunk_size c + length seps * chunk_overlap c"
      using seps(1) by (cases seps) auto
    ultimately show ?thesis by (simp del: One_nat_def)
  qed
qed simp

lemma split_text_content:
  assumes "valid_chunker c"
  shows "split_text seps c tx = Some cs \<Longrightarrow> set seps \<subseteq> set separators \<Longrightarrow>
    subseq (content_of tx) (content_of (concat cs))"
proof (induction seps arbitrary: tx cs)
  case Nil
  then show ?case
    using hard_split_content [OF assms, of tx] by (auto split: if_splits dest: subseq_content)
next
  case (Cons sep seps)
  consider "length tx \<le> chunk_size c" | "chunk_size c < length tx" "sep = []"
    | "chunk_size c < length tx" "sep \<noteq> []"
    by linarith
  then show ?case
  proof cases
    case 3
    with Cons.prems(1) obtain ms where
      ms: "merge_parts c sep (seps \<noteq> []) (split_text seps c) (py_split sep tx) [] [] = Some ms"
      and cs: "cs = apply_overlap c ms" by auto
    have sep: "content_of sep = []" using Cons.prems(2) content_sep by simp
    have "content_of tx = content_of (concat (py_split sep tx))"
      using filter_py_join [OF sep, of "py_split sep tx"] by (simp add: py_join_split filter_concat)
    also have "subseq \<dots> (content_of (concat ms))"
      using merge_parts_content [OF ms sep] Cons.IH Cons.prems(2) by simp
    also have "subseq \<dots> (content_of (concat cs))"
      unfolding cs by (intro subseq_content subseq_apply_overlap)
    finally show ?thesis .
  qed (use Cons.prems(1) hard_split_content [OF assms, of tx] in \<open>auto dest: subseq_content\<close>)
qed

text \<open>
  With every chunker that the constructor accepts, splitting any text
  ends with a list of chunks, whatever recursion through the separators it takes.
\<close>

theorem chunk_text_returns:
  assumes "make_chunker sz ov = Inr c"
  shows "\<exists>cs. chunk_text c tx = Some cs"
proof -
  from assms have "valid_chunker c"
    by (auto simp: make_chunker_def valid_chunker_def split: if_splits)
  from split_text_total [OF this] show ?thesis
    by (simp add: chunk_text_def Let_def)
qed

theorem chunk_text_returns_witness:
  "make_chunker 2048 256 = Inr \<lparr>chunk_size = 2048, chunk_overlap = 256\<rparr> \<and>
   (\<exists>cs. chunk_text \<lparr>chunk_size = 2048, chunk_overlap = 256\<rparr> ''some text'' = Some cs)"
proof -
  have mk: "make_chunker 2048 256 = Inr \<lparr>chunk_size = 2048, chunk_overlap = 256\<rparr>"
    by (simp add: make_chunker_def)
  from chunk_text_returns [OF this] mk show ?thesis by blast
qed

text \<open>The laws of a chunker that its clients rely on: nothing for a blank text, no blank chunk.\<close>

lemma chunk_text_blank: "strip tx = [] \<Longrightarrow> chunk_text c tx = Some []"
  by (simp add: chunk_text_def)

lemma chunk_text_not_blank: "chunk_text c tx = Some cs \<Longrightarrow> \<forall>x \<in> set cs. not_blank x"
  by (auto simp: chunk_text_def Let_def split: if_splits)

lemma chunk_text_SomeD:
  "chunk_text c tx = Some cs \<Longrightarrow> strip tx \<noteq> [] \<Longrightarrow>
   \<exists>ps. split_text separators c (strip tx) = Some ps \<and> cs = filter not_blank ps"
  by (auto simp: chunk_text_def Let_def)

lemma separators_last: "separators \<noteq> []" "last separators = []" "length separators = 5"
  by (simp_all add: separators_def)

lemma make_chunkerD:
  "make_chunker sz ov = Inr c \<Longrightarrow> valid_chunker c \<and> chunk_size c = sz \<and> chunk_overlap c = ov"
  by (auto simp: make_chunker_def valid_chunker_def split: if_splits)

lemma chunk_text_sizes:
  assumes "valid_chunker c" and "chunk_text c tx = Some cs"
  shows "\<forall>x \<in> set cs. not_blank x \<and> length x \<le> chunk_size c + 4 * chunk_overlap c"
proof (cases "strip tx = []")
  case True
  with assms(2) show ?thesis by (simp add: chunk_text_blank)
next
  case False
  from chunk_text_SomeD [OF assms(2) False] obtain ps where
    ps: "split_text separators c (strip tx) = Some ps" and cs: "cs = filter not_blank ps"
    by blast
  from split_text_sizes [OF assms(1) ps] separators_last cs show ?thesis by auto
qed

lemma chunk_text_content:
  assumes "valid_chunker c" and "chunk_text c tx = Some cs"
  shows "subseq (content_of tx) (content_of (concat cs))"
proof (cases "strip tx = []")
  case True
  then have "content_of tx = []" using content_strip [of tx] by simp
  then show ?thesis by simp
next
  case False
  from chunk_text_SomeD [OF assms(2) False] obtain ps where
    ps: "split_text separators c (strip tx) = Some ps" and cs: "cs = filter not_blank ps"
    by blast
  from split_text_content [OF assms(1) ps] show ?thesis
    by (simp add: cs content_strip content_not_blank)
qed

text \<open>
  Claim C13 (bounds): every chunk is non-blank and has at most \<open>chunk_size\<close> characters plus one
  overlap for each of the four levels of separators above the hard split; with no overlap the
  configured size is never exceeded.
\<close>

theorem chunk_text_bounds:
  assumes "make_chunker sz ov = Inr c" and "chunk_text c tx = Some cs"
  shows "\<forall>x \<in> set cs. not_blank x \<and> length x \<le> sz + 4 * ov"
  using chunk_text_sizes [OF _ assms(2)] make_chunkerD [OF assms(1)] by simp

theorem chunk_text_bounds_witness:
  "list_all (\<lambda>x. not_blank x \<and> length x \<le> 4 + 4 * 1) [''abcddddd'', ''defggggg'', ''gh'']"
  unfolding list_all_iff
proof (rule chunk_text_bounds)
  show "make_chunker 4 1 = Inr \<lparr>chunk_size = 4, chunk_overlap = 1\<rparr>"
    by (simp add: make_chunker_def)
  show "chunk_text \<lparr>chunk_size = 4, chunk_overlap = 1\<rparr> ''abcdefgh'' = Some [''abcddddd'', ''defggggg'', ''gh'']"
    by code_simp
qed

text \<open>
  Claim C12 (safety): no content is lost or reordered.  The characters of the text other than
  white space and full stops occur, in their order, in the concatenation of the chunks.
\<close>

theorem chunk_text_keeps_content:
  assumes "make_chunker sz ov = Inr c" and "chunk_text c tx = Some cs"
  shows "subseq (content_of tx) (content_of (concat cs))"
  using chunk_text_content [OF _ assms(2)] make_chunkerD [OF assms(1)] by simp

theorem chunk_text_keeps_content_witness:
  "subseq (content_of ''a bc. d'') (content_of (concat [''a bc'', ''d'']))"
proof (rule chunk_text_keeps_content)
  show "make_chunker 6 0 = Inr \<lparr>chunk_size = 6, chunk_overlap = 0\<rparr>"
    by (simp add: make_chunker_def)
  show "chunk_text \<lparr>chunk_size = 6, chunk_overlap = 0\<rparr> ''a bc. d'' = Some [''a bc'', ''d'']"
    by code_simp
qed

text \<open>
  When a text is cut at a separator and no part is empty or larger than
  \<open>chunk_size\<close>, the chunker without overlap only groups consecutive parts: joining its chunks
  with the separator gives the text back.
\<close>

lemma merge_parts_lossless:
  assumes "merge_parts c sep finer recurse parts chunks current = Some cs"
    and "\<forall>p \<in> set parts. p \<noteq> [] \<and> length p \<le> chunk_size c"
  shows "py_join sep cs = py_join sep (flush chunks current @ parts)"
  using assms
proof (induction rule: merge_parts_induct)
  case (Fits part parts chunks current cs)
  have "py_join sep (xs @ (x @ sep @ y) # ys) = py_join sep (xs @ x # y # ys)" for xs x y ys
  proof (induction xs)
    case Nil
    show ?case by (cases ys) auto
  qed (simp add: py_join_Cons)
  with Fits show ?case by (cases "current = []") auto
next
  case (Recurse part parts chunks current ps cs)
  then show ?case by auto
next
  case (Push part parts chunks current cs)
  then show ?case by simp
qed simp

text \<open>
  When a text is cut at a separator and no part is empty or larger than
  \<open>chunk_size\<close>, the loop only groups consecutive parts: joining its chunks with the separator
  gives the text back.
\<close>

theorem merge_parts_partition:
  assumes "merge_parts c sep finer recurse (py_split sep tx) [] [] = Some cs"
    and "\<forall>p \<in> set (py_split sep tx). p \<noteq> [] \<and> length p \<le> chunk_size c"
  shows "py_join sep cs = tx"
  using merge_parts_lossless [OF assms] by (simp add: py_join_split)

theorem merge_parts_partition_witness:
  "py_join '' '' [''ab cd'', ''efg''] = ''ab cd efg''"
proof (rule merge_parts_partition)
  show "merge_parts \<lparr>chunk_size = 5, chunk_overlap = 0\<rparr> '' '' True (\<lambda>p. Some [p])
          (py_split '' '' ''ab cd efg'') [] [] = Some [''ab cd'', ''efg'']"
    by code_simp
  show "\<forall>p \<in> set (py_split '' '' ''ab cd efg'').
          p \<noteq> [] \<and> length p \<le> chunk_size \<lparr>chunk_size = 5, chunk_overlap = 0\<rparr>"
    by code_simp
qed

subsection \<open>Where the chunker repeats text\<close>

text \<open>
  The pending chunk is emitted twice around an oversized part.  When a
  part must be split further while \<open>current\<close> is pending, the loop appends \<open>current\<close> to the
  chunks but keeps it as the start of the next chunk, so its text is emitted again, joined to
  the part that follows.
\<close>

theorem merge_parts_repeats_pending:
  assumes "current \<noteq> []" and "chunk_size c < length big" and "recurse big = Some pieces"
    and "length (current @ sep @ next) \<le> chunk_size c"
  shows "merge_parts c sep True recurse [big, next] chunks current =
    Some (chunks @ [current] @ pieces @ [current @ sep @ next])"
  using assms by (simp add: merge_parts.simps(2) Let_def)

theorem merge_parts_repeats_pending_witness:
  "merge_parts \<lparr>chunk_size = 8, chunk_overlap = 0\<rparr> [CHR 0x0A, CHR 0x0A] True
     (split_text [[]] \<lparr>chunk_size = 8, chunk_overlap = 0\<rparr>) [''cdefghijklmn'', ''op''] [] ''ab'' =
   Some ([] @ [''ab''] @ [''cdefghij'', ''klmn''] @ [''ab'' @ [CHR 0x0A, CHR 0x0A] @ ''op''])"
proof (rule merge_parts_repeats_pending)
  show "split_text [[]] \<lparr>chunk_size = 8, chunk_overlap = 0\<rparr> ''cdefghijklmn'' =
          Some [''cdefghij'', ''klmn'']"
    by code_simp
qed simp_all

text \<open>A text without separators goes down to the hard split through every level.\<close>

lemma split_text_no_sep:
  assumes "chunk_size c < length tx" and "sep \<noteq> []" and "find_split sep tx = None" and "seps \<noteq> []"
    and "split_text seps c tx = Some ps"
  shows "split_text (sep # seps) c tx = Some (apply_overlap c ps)"
  using assms by (simp add: py_split.simps [of sep tx] merge_parts.simps(2) Let_def)

text \<open>
  Overlaps pile up.  On a text without white space and full stops that is
  longer than \<open>chunk_size\<close>, the windows of the hard split, which overlap already, are extended
  by the overlap once more for each of the four levels of separators.
\<close>

theorem chunk_text_overlap_accumulates:
  assumes "make_chunker sz ov = Inr c" and "sz < length tx"
    and "\<forall>ch \<in> set tx. content_char ch"
  shows "\<exists>ws. hard_split c tx = Some ws \<and>
    chunk_text c tx = Some (filter not_blank ((apply_overlap c ^^ 4) ws))"
proof -
  have none: "find_split sep tx = None" if "sep \<noteq> []" "content_of sep = []" for sep
  proof (cases "find_split sep tx")
    case (Some ab)
    obtain a b where "tx = a @ sep @ b"
      using find_split_Some Some by (metis prod.collapse)
    with assms(3) that show ?thesis by (cases sep) (auto split: if_splits)
  qed
  have long: "chunk_size c < length tx" and valid: "valid_chunker c"
    using make_chunkerD [OF assms(1)] assms(2) by simp_all
  obtain ws where ws: "hard_split c tx = Some ws"
    using hard_split_sizes [OF valid] by blast
  with long have s0: "split_text [[]] c tx = Some ws" by simp
  have step: "split_text (sep # seps) c tx = Some (apply_overlap c ps)"
    if "sep \<in> set separators" "sep \<noteq> []" "seps \<noteq> []" "split_text seps c tx = Some ps" for sep seps ps
    using split_text_no_sep [OF long that(2) none [OF that(2) content_sep [OF that(1)]] that(3,4)] .
  have s1: "split_text ['' '', []] c tx = Some (apply_overlap c ws)"
    by (rule step [OF _ _ _ s0]) (simp_all add: separators_def)
  have s2: "split_text [''. '', '' '', []] c tx = Some (apply_overlap c (apply_overlap c ws))"
    by (rule step [OF _ _ _ s1]) (simp_all add: separators_def)
  have s3: "split_text [[CHR 0x0A], ''. '', '' '', []] c tx =
      Some (apply_overlap c (apply_overlap c (apply_overlap c ws)))"
    by (rule step [OF _ _ _ s2]) (simp_all add: separators_def)
  have s4: "split_text separators c tx =
      Some (apply_overlap c (apply_overlap c (apply_overlap c (apply_overlap c ws))))"
    unfolding separators_def by (rule step [OF _ _ _ s3]) (simp_all add: separators_def)
  then have "split_text separators c tx = Some ((apply_overlap c ^^ 4) ws)"
    by (simp add: eval_nat_numeral)
  moreover have "strip tx = tx"
  proof -
    have drop: "dropWhile is_space xs = xs" if "\<forall>ch \<in> set xs. content_char ch" for xs
      using that by (cases xs) (auto simp: content_char_def)
    show ?thesis
      using drop [of tx] drop [of "rev tx"] assms(3) by (simp add: strip_def lstrip_def rstrip_def)
  qed
  moreover have "tx \<noteq> []" using assms(2) by auto
  ultimately show ?thesis using ws by (simp add: chunk_text_def)
qed

theorem chunk_text_overlap_accumulates_witness:
  "\<exists>ws. hard_split \<lparr>chunk_size = 4, chunk_overlap = 1\<rparr> ''abcdefgh'' = Some ws \<and>
    chunk_text \<lparr>chunk_size = 4, chunk_overlap = 1\<rparr> ''abcdefgh'' =
      Some (filter not_blank ((apply_overlap \<lparr>chunk_size = 4, chunk_overlap = 1\<rparr> ^^ 4) ws))"
proof (rule chunk_text_overlap_accumulates)
  show "make_chunker 4 1 = Inr \<lparr>chunk_size = 4, chunk_overlap = 1\<rparr>"
    by (simp add: make_chunker_def)
  show "\<forall>ch \<in> set ''abcdefgh''. content_char ch"
    by code_simp
qed simp

end
