(* ===== verification/Binary64.thy ===== *)
theory Binary64
  imports Complex_Main Prelude
begin

section \<open>Python floats: rounding to binary64\<close>

text \<open>
  A Python \<open>float\<close> is a rational number, and each arithmetic operation rounds its exact result
  to the nearest number with a 53-bit significand, ties to even (\<open>b64\<close>).  The exponent
  is unbounded: the program's floats (scores between 0 and 1, similarities of unit vectors,
  percentages) stay far from overflow, and results small enough to be subnormal are not
  distinguished.  \<open>round(x, 6)\<close> is \<open>round6\<close>.  These operations belong to the language, so
  they carry no entry in the source map.
\<close>

definition round_half_even :: "rat \<Rightarrow> int" where
  "round_half_even y =
     (let f = \<lfloor>y\<rfloor>; r = y - of_int f
      in if r < 1 / 2 then f else if r > 1 / 2 then f + 1 else if even f then f else f + 1)"

fun log2n :: "nat \<Rightarrow> nat" where
  "log2n n = (if n < 2 then 0 else Suc (log2n (n div 2)))"

declare log2n.simps [simp del]

text \<open>The exponent of a positive rational: \<open>2 powi (ilog2 x) \<le> x < 2 powi (ilog2 x + 1)\<close>.\<close>

definition ilog2 :: "rat \<Rightarrow> int" where
  "ilog2 x =
     (let (p, q) = quotient_of x; k = int (log2n (nat p)) - int (log2n (nat q))
      in if 2 powi k \<le> x then k else k - 1)"

definition round53 :: "rat \<Rightarrow> rat" where
  "round53 x = (let u = 2 powi (ilog2 x - 52) in of_int (round_half_even (x / u)) * u)"

definition b64 :: "rat \<Rightarrow> rat" where
  "b64 x = (if x = 0 then 0 else if x < 0 then - round53 (- x) else round53 x)"

definition round6 :: "rat \<Rightarrow> rat" where
  "round6 x = b64 (of_int (round_half_even (x * 10 ^ 6)) / 10 ^ 6)"

subsection \<open>Rounding is monotone\<close>

lemma round_half_even_mono: "x \<le> y \<Longrightarrow> round_half_even x \<le> round_half_even y"
proof -
  assume le: "x \<le> y"
  then have fl: "\<lfloor>x\<rfloor> \<le> \<lfloor>y\<rfloor>" by (rule floor_mono)
  show ?thesis
  proof (cases "\<lfloor>x\<rfloor> = \<lfloor>y\<rfloor>")
    case True
    with le show ?thesis by (auto simp: round_half_even_def Let_def)
  next
    case False
    with fl have "\<lfloor>x\<rfloor> + 1 \<le> \<lfloor>y\<rfloor>" by linarith
    moreover have "round_half_even x \<le> \<lfloor>x\<rfloor> + 1" and "\<lfloor>y\<rfloor> \<le> round_half_even y"
      by (simp_all add: round_half_even_def Let_def)
    ultimately show ?thesis by linarith
  qed
qed

lemma round_half_even_of_int [simp]: "round_half_even (of_int k) = k"
  by (simp add: round_half_even_def)

lemma log2n_bounds: "0 < n \<Longrightarrow> 2 ^ log2n n \<le> n \<and> n < 2 ^ Suc (log2n n)"
proof (induction n rule: log2n.induct)
  case (1 n)
  show ?case
  proof (cases "n < 2")
    case True
    with "1.prems" show ?thesis by (simp add: log2n.simps)
  next
    case False
    with 1 have "2 ^ log2n (n div 2) \<le> n div 2 \<and> n div 2 < 2 ^ Suc (log2n (n div 2))" by simp
    with False show ?thesis by (auto simp: log2n.simps [of n])
  qed
qed

lemma powi_nat_le: "0 < n \<Longrightarrow> (2::rat) powi int (log2n n) \<le> of_nat n \<and> of_nat n < (2::rat) powi (int (log2n n) + 1)"
proof -
  assume "0 < n"
  from log2n_bounds [OF this]
  have "(of_nat (2 ^ log2n n) :: rat) \<le> of_nat n" "(of_nat n :: rat) < of_nat (2 ^ Suc (log2n n))"
    by (simp_all only: of_nat_le_iff of_nat_less_iff)
  then show ?thesis by (simp add: power_int_add)
qed

lemma ilog2_bounds:
  assumes "0 < x"
  shows "2 powi (ilog2 x) \<le> x \<and> x < 2 powi (ilog2 x + 1)"
proof -
  obtain p q where pq: "quotient_of x = (p, q)" by force
  have x: "x = of_int p / of_int q" using pq by (rule quotient_of_div)
  have q: "0 < q" using pq by (rule quotient_of_denom_pos)
  with x assms have p: "0 < p" by (simp add: zero_less_divide_iff)
  let ?a = "int (log2n (nat p))" and ?b = "int (log2n (nat q))"
  have P: "(2::rat) powi ?a \<le> of_int p" "of_int p < (2::rat) powi (?a + 1)"
    using powi_nat_le [of "nat p"] p by simp_all
  have Q: "(2::rat) powi ?b \<le> of_int q" "of_int q < (2::rat) powi (?b + 1)"
    using powi_nat_le [of "nat q"] q by simp_all
  have "x < 2 powi (?a + 1) / 2 powi ?b"
    unfolding x using P(2) Q(1) p q by (intro frac_less) simp_all
  then have up: "x < 2 powi (?a - ?b + 1)"
    by (simp add: power_int_diff power_int_add field_simps)
  have "2 powi ?a / 2 powi (?b + 1) < x"
    unfolding x using P(1) Q(2) q by (intro frac_less2) simp_all
  then have lo: "2 powi (?a - ?b - 1) < x"
    by (simp add: power_int_diff power_int_add field_simps)
  show ?thesis using up lo by (simp add: ilog2_def pq Let_def)
qed

lemma ilog2_mono: "0 < x \<Longrightarrow> x \<le> y \<Longrightarrow> ilog2 x \<le> ilog2 y"
proof (rule ccontr)
  assume xy: "0 < x" "x \<le> y" and "\<not> ilog2 x \<le> ilog2 y"
  then have "(2::rat) powi (ilog2 y + 1) \<le> 2 powi (ilog2 x)"
    by (intro power_int_increasing) auto
  with ilog2_bounds [of x] ilog2_bounds [of y] xy show False by linarith
qed

lemma round53_bounds:
  assumes "0 < x"
  shows "2 powi (ilog2 x) \<le> round53 x \<and> round53 x \<le> 2 powi (ilog2 x + 1)"
proof -
  let ?u = "(2::rat) powi (ilog2 x - 52)"
  have u: "0 < ?u" by simp
  have e: "(2::rat) powi (ilog2 x) = of_int (2 ^ 52) * ?u" "(2::rat) powi (ilog2 x + 1) = of_int (2 ^ 53) * ?u"
    by (simp_all add: power_int_diff power_int_add)
  from ilog2_bounds [OF assms] u have "of_int (2 ^ 52) \<le> x / ?u" "x / ?u \<le> of_int (2 ^ 53)"
    unfolding e by (simp_all add: field_simps)
  then have "2 ^ 52 \<le> round_half_even (x / ?u)" "round_half_even (x / ?u) \<le> 2 ^ 53"
    using round_half_even_mono round_half_even_of_int by metis+
  then have "(of_int (2 ^ 52) :: rat) \<le> of_int (round_half_even (x / ?u))"
    "(of_int (round_half_even (x / ?u)) :: rat) \<le> of_int (2 ^ 53)"
    by (simp_all only: of_int_le_iff)
  then show ?thesis
    unfolding e round53_def Let_def using u by (simp_all only: mult_right_mono less_imp_le simp_thms)
qed

lemma round53_mono: "0 < x \<Longrightarrow> x \<le> y \<Longrightarrow> round53 x \<le> round53 y"
proof -
  assume xy: "0 < x" "x \<le> y"
  show ?thesis
  proof (cases "ilog2 x = ilog2 y")
    case True
    have "round_half_even (x / 2 powi (ilog2 y - 52)) \<le> round_half_even (y / 2 powi (ilog2 y - 52))"
      by (intro round_half_even_mono divide_right_mono xy) simp
    then show ?thesis
      unfolding round53_def Let_def True by (intro mult_right_mono) simp_all
  next
    case False
    with ilog2_mono [OF xy] have "(2::rat) powi (ilog2 x + 1) \<le> 2 powi (ilog2 y)"
      by (intro power_int_increasing) auto
    with round53_bounds [of x] round53_bounds [of y] xy show ?thesis by linarith
  qed
qed

lemma round53_pos: "0 < x \<Longrightarrow> 0 < round53 x"
  using round53_bounds [of x] zero_less_power_int [of "2::rat" "ilog2 x"] by linarith

lemma b64_0 [simp]: "b64 0 = 0"
  by (simp add: b64_def)

lemma b64_pos: "0 < x \<Longrightarrow> 0 < b64 x"
  by (simp add: b64_def round53_pos)

lemma b64_mono: "x \<le> y \<Longrightarrow> b64 x \<le> b64 y"
  using round53_mono [of x y] round53_mono [of "- y" "- x"] round53_pos [of "- x"] round53_pos [of y]
  by (auto simp: b64_def)

lemma b64_nonneg: "0 \<le> x \<Longrightarrow> 0 \<le> b64 x"
  using b64_mono [of 0 x] by simp

text \<open>The integers of the significand's range are exact.\<close>

lemma b64_of_nat: "n < 2 ^ 53 \<Longrightarrow> b64 (of_nat n) = of_nat n"
proof (cases "n = 0")
  case False
  assume n: "n < 2 ^ 53"
  let ?x = "of_nat n :: rat"
  let ?e = "ilog2 ?x"
  from False have pos: "0 < ?x" by simp
  note e = ilog2_bounds [OF pos]
  have "(of_nat n :: rat) < of_nat (2 ^ 53)" using n by (simp only: of_nat_less_iff)
  then have "?x < 2 powi 53" by simp
  with e have "(2::rat) powi ?e < 2 powi 53" by linarith
  then have e52: "?e \<le> 52"
    using power_int_increasing [of 53 ?e "2::rat"] by (cases "53 \<le> ?e") auto
  obtain k where k: "52 - ?e = int k" using e52 by (metis diff_ge_0_iff_ge zero_le_imp_eq_int)
  have "?x / 2 powi (?e - 52) = ?x * 2 ^ k"
    using k by (metis divide_inverse minus_diff_eq power_int_minus power_int_of_nat inverse_inverse_eq)
  also have "\<dots> = of_int (int n * 2 ^ k)" by simp
  finally have "round_half_even (?x / 2 powi (?e - 52)) = int n * 2 ^ k"
    by (simp only: round_half_even_of_int)
  then have "round53 ?x = of_int (int n * 2 ^ k) * 2 powi (?e - 52)"
    by (simp add: round53_def Let_def)
  also have "\<dots> = ?x"
    using \<open>?x / 2 powi (?e - 52) = ?x * 2 ^ k\<close> by (simp add: field_simps)
  finally show ?thesis using pos by (simp add: b64_def)
qed simp

subsection \<open>Rounding again changes nothing\<close>

lemma ilog2_unique:
  assumes "0 < x" and "2 powi k \<le> x" and "x < 2 powi (k + 1)"
  shows "ilog2 x = k"
proof (rule ccontr)
  assume "ilog2 x \<noteq> k"
  then consider "ilog2 x + 1 \<le> k" | "k + 1 \<le> ilog2 x" by linarith
  then show False
  proof cases
    case 1
    then have "(2::rat) powi (ilog2 x + 1) \<le> 2 powi k" by (intro power_int_increasing) auto
    with ilog2_bounds [OF assms(1)] assms(2) show False by linarith
  next
    case 2
    then have "(2::rat) powi (k + 1) \<le> 2 powi (ilog2 x)" by (intro power_int_increasing) auto
    with ilog2_bounds [OF assms(1)] assms(3) show False by linarith
  qed
qed

lemma round53_idem:
  assumes "0 < x"
  shows "round53 (round53 x) = round53 x"
proof (cases "round53 x = 2 powi (ilog2 x + 1)")
  case True
  have e: "ilog2 (2 powi (ilog2 x + 1)) = ilog2 x + 1"
    by (rule ilog2_unique) (simp_all add: power_int_add)
  have shift: "(2::rat) powi e = of_int (2 ^ 52) * 2 powi (e - 52)" for e
    by (simp add: power_int_diff)
  then have "(2::rat) powi (ilog2 x + 1) / 2 powi (ilog2 x + 1 - 52) = of_int (2 ^ 52)"
    by (metis nonzero_eq_divide_eq power_int_not_zero zero_neq_numeral)
  with e show ?thesis
    unfolding True using shift [of "ilog2 x + 1"]
    by (simp only: round53_def Let_def round_half_even_of_int)
next
  case False
  with round53_bounds [OF assms] have "round53 x < 2 powi (ilog2 x + 1)" by linarith
  then have "ilog2 (round53 x) = ilog2 x"
    using round53_bounds [OF assms] round53_pos [OF assms] by (intro ilog2_unique) auto
  moreover have "round53 x / 2 powi (ilog2 x - 52) = of_int (round_half_even (x / 2 powi (ilog2 x - 52)))"
    by (simp add: round53_def Let_def)
  ultimately show ?thesis
    by (simp only: round53_def [of "round53 x"] Let_def round_half_even_of_int)
      (simp add: round53_def Let_def)
qed

lemma b64_idem: "0 \<le> x \<Longrightarrow> b64 (b64 x) = b64 x"
  using round53_idem [of x] round53_pos [of x] by (auto simp: b64_def)

lemma round6_mono: "x \<le> y \<Longrightarrow> round6 x \<le> round6 y"
  unfolding round6_def by (intro b64_mono divide_right_mono) (simp_all add: round_half_even_mono)

end
