(* ===== verification/SemanticChunking.thy ===== *)
theory SemanticChunking
  imports Chunking Binary64
begin

section \<open>The semantic text chunker\<close>

text \<open>
  \<open>SemanticTextChunker\<close> of \<open>src/ingestion/pipeline.py\<close>.  The embedding model is not part of
  the repository: it is the parameter \<open>encode\<close>, which may raise.  A chunker's result is
  \<open>None\<close> when it does not return, an exception, or the list of chunks.
\<close>

type_synonym embedder = "string list \<Rightarrow> (exn, rat list list) outcome"
type_synonym chunk_result = "(exn, string list) outcome option"

record semantic_chunker =
  threshold_percentile :: rat
  max_chunk_size :: nat
  buffer_size :: nat

text \<open>
  \<open>re.split(r"(?<=[.!?])\s+", text)\<close>: a run of white space is a cut when the character
  before it ends a sentence.  \<open>cur\<close> is the current sentence, reversed.
\<close>

definition ends_sentence :: "char \<Rightarrow> bool" where
  "ends_sentence ch \<longleftrightarrow> ch = CHR ''.'' \<or> ch = CHR ''!'' \<or> ch = CHR ''?''"

function split_sentences :: "string \<Rightarrow> string \<Rightarrow> string list" where
  "split_sentences cur [] = [rev cur]"
| "split_sentences cur (ch # rest) =
     (if is_space ch \<and> cur \<noteq> [] \<and> ends_sentence (hd cur)
      then rev cur # split_sentences [] (dropWhile is_space rest)
      else split_sentences (ch # cur) rest)"
  by pat_completeness auto
termination
  by (relation "measure (\<lambda>(cur, rest). length rest)") (auto simp: length_dropWhile_le less_Suc_eq_le)

definition sentences_of :: "string \<Rightarrow> string list" where
  "sentences_of tx = [strip s. s \<leftarrow> split_sentences [] tx, not_blank s]"

definition sentence_windows :: "nat \<Rightarrow> string list \<Rightarrow> string list" where
  "sentence_windows buf sentences =
     map (\<lambda>i. py_join '' '' (slice (i - buf) (min (length sentences) (i + buf + 1)) sentences))
       [0..<length sentences]"

definition similarity :: "rat list \<Rightarrow> rat list \<Rightarrow> rat" where
  "similarity vec1 vec2 = foldl (\<lambda>s (a, b). b64 (s + b64 (a * b))) 0 (zip vec1 vec2)"

fun adjacent_distances :: "rat list list \<Rightarrow> rat list" where
  "adjacent_distances (v # w # rest) = b64 (1 - similarity v w) # adjacent_distances (w # rest)"
| "adjacent_distances _ = []"

text \<open>\<open>int(x)\<close> of a float.\<close>

definition py_trunc :: "rat \<Rightarrow> int" where
  "py_trunc x = (if 0 \<le> x then \<lfloor>x\<rfloor> else \<lceil>x\<rceil>)"

definition percentile :: "rat list \<Rightarrow> rat \<Rightarrow> (exn, rat) outcome" where
  "percentile data p =
     (if data = [] then Inr 0
      else let sorted_data = sort data;
               k = b64 (of_int (int (length sorted_data) - 1) * b64 (p / 100));
               f = py_trunc k;
               c = min (f + 1) (int (length sorted_data) - 1)
           in try_bind (py_index sorted_data f) (\<lambda>lo.
              try_bind (py_index sorted_data c) (\<lambda>hi.
              Inr (b64 (lo + b64 (b64 (k - of_int f) * b64 (hi - lo)))))))"

definition split_indices :: "rat \<Rightarrow> rat list \<Rightarrow> nat list" where
  "split_indices threshold distances =
     [idx. (idx, d) \<leftarrow> enumerate 0 distances, d \<ge> threshold]"

text \<open>The sentences of each chunk: a chunk ends after the sentence at a split index.\<close>

fun group_sentences :: "nat list \<Rightarrow> nat \<Rightarrow> string list \<Rightarrow> string list \<Rightarrow> string list list" where
  "group_sentences splits idx cur [] = (if cur \<noteq> [] then [cur] else [])"
| "group_sentences splits idx cur (s # ss) =
     (if idx \<in> set splits
      then (cur @ [s]) # group_sentences splits (Suc idx) [] ss
      else group_sentences splits (Suc idx) (cur @ [s]) ss)"

text \<open>Chunks above the maximum go through a recursive chunker without overlap.\<close>

fun enforce_max_size :: "chunker \<Rightarrow> nat \<Rightarrow> string list \<Rightarrow> string list option" where
  "enforce_max_size fallback mx [] = Some []"
| "enforce_max_size fallback mx (x # xs) =
     (case (if length x > mx then chunk_text fallback x else Some [x]) of
        None \<Rightarrow> None
      | Some ys \<Rightarrow> map_option (\<lambda>zs. ys @ zs) (enforce_max_size fallback mx xs))"

definition semantic_chunk :: "embedder \<Rightarrow> semantic_chunker \<Rightarrow> string \<Rightarrow> chunk_result" where
  "semantic_chunk encode sc tx0 =
     (let tx = strip tx0
      in if tx = [] then Some (Inr [])
         else let sentences = sentences_of tx
         in if length sentences \<le> 1 then Some (Inr sentences)
         else case encode (sentence_windows (buffer_size sc) sentences) of
           Inl e \<Rightarrow> Some (Inl e)
         | Inr embeddings \<Rightarrow>
             let distances = adjacent_distances embeddings
             in if distances = [] then Some (Inr [py_join '' '' sentences])
             else case percentile distances (threshold_percentile sc) of
               Inl e \<Rightarrow> Some (Inl e)
             | Inr threshold \<Rightarrow>
                 let chunks = map (py_join '' '')
                       (group_sentences (split_indices threshold distances) 0 [] sentences)
                 in case make_chunker (max_chunk_size sc) 0 of
                   Inl e \<Rightarrow> Some (Inl e)
                 | Inr fallback \<Rightarrow>
                     map_option (\<lambda>final. Inr [strip c. c \<leftarrow> final, not_blank c])
                       (enforce_max_size fallback (max_chunk_size sc) chunks))"

definition recursive_chunk :: "chunker \<Rightarrow> string \<Rightarrow> chunk_result" where
  "recursive_chunk c tx = map_option Inr (chunk_text c tx)"

subsection \<open>Sentences and groups\<close>

lemma content_split_sentences: "content_of (concat (split_sentences cur tx)) = content_of (rev cur) @ content_of tx"
proof (induction cur tx rule: split_sentences.induct)
  case (2 cur ch rest)
  have "content_of (dropWhile is_space rest) = content_of rest"
    using filter_nonspace_lstrip [of content_char rest] by (auto simp: lstrip_def content_char_def)
  with 2 show ?case by (simp add: content_char_space)
qed simp

lemma content_sentences_of: "content_of (concat (sentences_of tx)) = content_of tx"
  using content_split_sentences [of "[]" tx] by (simp add: sentences_of_def content_strip_not_blank)

lemma sentences_of_not_blank: "s \<in> set (sentences_of tx) \<Longrightarrow> not_blank s"
  by (auto simp: sentences_of_def intro: strip_not_blank)

lemma concat_group_sentences: "concat (group_sentences splits idx cur ss) = cur @ ss"
  by (induction splits idx cur ss rule: group_sentences.induct) auto

lemma content_join: "content_of (py_join '' '' xs) = content_of (concat xs)"
  using filter_py_join [of content_char "'' ''" xs] content_sep [of "'' ''"]
  by (simp add: separators_def filter_concat)

lemma enforce_max_size_total:
  "valid_chunker fallback \<Longrightarrow> \<exists>ys. enforce_max_size fallback mx xs = Some ys"
proof (induction xs)
  case (Cons x xs)
  have "\<exists>ys. chunk_text fallback x = Some ys"
    using split_text_total [OF Cons.prems] by (simp add: chunk_text_def Let_def)
  with Cons show ?case by auto
qed simp

lemma enforce_max_size_bounds:
  assumes "make_chunker mx 0 = Inr fallback"
  shows "enforce_max_size fallback mx xs = Some ys \<Longrightarrow> \<forall>y \<in> set ys. length y \<le> mx"
proof (induction xs arbitrary: ys)
  case (Cons x xs)
  then obtain zs ws where zs: "(if length x > mx then chunk_text fallback x else Some [x]) = Some zs"
    and ws: "enforce_max_size fallback mx xs = Some ws" and ys: "ys = zs @ ws"
    by (auto split: option.splits)
  have "\<forall>y \<in> set zs. length y \<le> mx"
    using zs chunk_text_sizes [of fallback x zs] make_chunkerD [OF assms] by (auto split: if_splits)
  with Cons.IH [OF ws] show ?case unfolding ys by auto
qed simp

lemma enforce_max_size_content:
  assumes "make_chunker mx 0 = Inr fallback"
  shows "enforce_max_size fallback mx xs = Some ys \<Longrightarrow> subseq (content_of (concat xs)) (content_of (concat ys))"
proof (induction xs arbitrary: ys)
  case (Cons x xs)
  then obtain zs ws where zs: "(if length x > mx then chunk_text fallback x else Some [x]) = Some zs"
    and ws: "enforce_max_size fallback mx xs = Some ws" and ys: "ys = zs @ ws"
    by (auto split: option.splits)
  have "subseq (content_of x) (content_of (concat zs))"
    using zs chunk_text_content [of fallback x zs] make_chunkerD [OF assms] by (auto split: if_splits)
  with Cons.IH [OF ws] show ?case
    unfolding ys by (auto intro: list_emb_append_mono)
qed simp

subsection \<open>The percentile\<close>

lemma b64_le_of_nat: "n < 2 ^ 53 \<Longrightarrow> x \<le> of_nat n \<Longrightarrow> b64 x \<le> of_nat n"
  using b64_mono [of x "of_nat n"] b64_of_nat [of n] by simp

text \<open>
  For a percentile between 0 and 100 the interpolation never indexes out of
  range: it returns a threshold for every list of distances (of fewer than \<open>2 ^ 53\<close> entries).
\<close>

theorem percentile_returns:
  assumes "0 \<le> p" and "p \<le> 100" and "length data < 2 ^ 53"
  shows "\<exists>v. percentile data p = Inr v"
proof (cases "data = []")
  case False
  let ?n = "length data - 1"
  let ?k = "b64 (of_int (int (length (sort data)) - 1) * b64 (p / 100))"
  from False have n: "int (length (sort data)) - 1 = int ?n" by (cases data) auto
  have q: "0 \<le> b64 (p / 100)" "b64 (p / 100) \<le> 1"
    using assms(1,2) b64_nonneg [of "p / 100"] b64_le_of_nat [of 1 "p / 100"] by simp_all
  have k: "0 \<le> ?k" "?k \<le> of_nat ?n"
    unfolding n using q assms(3) mult_left_le [of "b64 (p / 100)" "of_nat ?n"]
    by (auto intro!: b64_nonneg b64_le_of_nat)
  then have f: "0 \<le> py_trunc ?k" "py_trunc ?k \<le> int ?n"
    by (simp_all add: py_trunc_def floor_le_iff)
  have lt: "int ?n < int (length (sort data))" using False by (cases data) auto
  obtain t where t: "py_trunc ?k = t" by blast
  from f have "0 \<le> t" "t \<le> int ?n" unfolding t .
  with lt have "\<exists>lo. py_index (sort data) t = Inr lo"
    "\<exists>hi. py_index (sort data) (min (t + 1) (int ?n)) = Inr hi"
    by (simp_all add: py_index_in_range del: length_sort)
  note this [folded n]
  with False t show ?thesis
    by (auto simp: percentile_def Let_def simp del: length_sort)
qed (simp add: percentile_def)

theorem percentile_returns_witness: "\<exists>v. percentile [1, 2, 3, 4, 5] 60 = Inr v"
  by (rule percentile_returns) simp_all

subsection \<open>The chunker\<close>

text \<open>The exits of the chunker after the sentences are known.\<close>

lemma semantic_chunk_cases:
  assumes "semantic_chunk encode sc tx = Some (Inr cs)"
  obtains (blank) "strip tx = []" "cs = []"
  | (single) "strip tx \<noteq> []" "length (sentences_of (strip tx)) \<le> 1" "cs = sentences_of (strip tx)"
  | (no_distances) es where "strip tx \<noteq> []" "1 < length (sentences_of (strip tx))"
      "encode (sentence_windows (buffer_size sc) (sentences_of (strip tx))) = Inr es"
      "adjacent_distances es = []"
      "cs = [py_join '' '' (sentences_of (strip tx))]"
  | (grouped) splits fallback final where "strip tx \<noteq> []" "1 < length (sentences_of (strip tx))"
      "make_chunker (max_chunk_size sc) 0 = Inr fallback"
      "enforce_max_size fallback (max_chunk_size sc)
         (map (py_join '' '') (group_sentences splits 0 [] (sentences_of (strip tx)))) = Some final"
      "cs = [strip c. c \<leftarrow> final, not_blank c]"
  using assms unfolding semantic_chunk_def Let_def
  by (auto split: if_splits sum.splits)

lemma semantic_chunk_returns: "\<exists>r. semantic_chunk encode sc tx = Some r"
  using enforce_max_size_total make_chunkerD
  by (fastforce simp: semantic_chunk_def Let_def split: sum.splits)

lemma semantic_chunk_blank: "strip tx = [] \<Longrightarrow> semantic_chunk encode sc tx = Some (Inr [])"
  by (simp add: semantic_chunk_def)

lemma not_blank_join: "xs \<noteq> [] \<Longrightarrow> \<forall>x \<in> set xs. not_blank x \<Longrightarrow> not_blank (py_join sep xs)"
  by (induction sep xs rule: py_join.induct) (auto simp: not_blank_iff)

lemma semantic_chunk_not_blank:
  assumes "semantic_chunk encode sc tx = Some (Inr cs)"
  shows "\<forall>x \<in> set cs. not_blank x"
  using assms
proof (cases rule: semantic_chunk_cases)
  case no_distances
  then show ?thesis
    using not_blank_join [of "sentences_of (strip tx)"] sentences_of_not_blank by fastforce
qed (auto intro: strip_not_blank sentences_of_not_blank)

text \<open>
  The semantic chunker neither loses nor reorders content.  Whatever the
  embedding model answers, when the chunker returns chunks, the characters of the text other
  than white space and full stops occur in their order in the chunks.
\<close>

theorem semantic_chunk_keeps_content:
  assumes "semantic_chunk encode sc tx = Some (Inr cs)"
  shows "subseq (content_of tx) (content_of (concat cs))"
  using assms
proof (cases rule: semantic_chunk_cases)
  case blank
  then have "content_of tx = []" using content_strip [of tx] by simp
  then show ?thesis by simp
next
  case (grouped splits fallback final)
  let ?gs = "group_sentences splits 0 [] (sentences_of (strip tx))"
  have "content_of (concat (map (py_join '' '') gs)) = content_of (concat (concat gs))" for gs
    by (induction gs) (simp_all add: content_join)
  then have "content_of (concat (map (py_join '' '') ?gs)) = content_of tx"
    by (simp add: concat_group_sentences content_sentences_of content_strip)
  then show ?thesis
    using enforce_max_size_content [OF grouped(3,4)] grouped(5)
    by (simp add: content_strip_not_blank)
qed (use content_sentences_of [of "strip tx"] content_strip [of tx] content_join in simp_all)

theorem semantic_chunk_keeps_content_witness:
  "subseq (content_of ''Hi you. Bye.'') (content_of (concat [''Hi you.'', ''Bye.'']))"
proof (rule semantic_chunk_keeps_content)
  show "semantic_chunk (\<lambda>ws. Inr (map (\<lambda>_. [1]) ws))
          \<lparr>threshold_percentile = 60, max_chunk_size = 20, buffer_size = 1\<rparr> ''Hi you. Bye.'' =
        Some (Inr [''Hi you.'', ''Bye.''])"
    by code_simp
qed

text \<open>
  What the chunker relies on of the embedding model: one embedding per text.
\<close>

definition one_embedding_per_text :: "embedder \<Rightarrow> bool" where
  "one_embedding_per_text encode \<longleftrightarrow> (\<forall>ws es. encode ws = Inr es \<longrightarrow> length es = length ws)"

lemma adjacent_distances_Nil: "adjacent_distances es = [] \<longleftrightarrow> length es \<le> 1"
  by (cases es rule: adjacent_distances.cases) auto

text \<open>
  On a text of at least two sentences, with a model that returns one
  embedding per window, every chunk is non-blank and none exceeds the configured maximum.
\<close>

theorem semantic_chunk_bounds:
  assumes "one_embedding_per_text encode" and "1 < length (sentences_of (strip tx))"
    and chunks: "semantic_chunk encode sc tx = Some (Inr cs)"
  shows "\<forall>x \<in> set cs. not_blank x \<and> length x \<le> max_chunk_size sc"
  using chunks
proof (cases rule: semantic_chunk_cases)
  case (no_distances es)
  then have "length es = length (sentences_of (strip tx))"
    using assms(1) by (auto simp: one_embedding_per_text_def sentence_windows_def)
  with no_distances show ?thesis by (simp add: adjacent_distances_Nil)
next
  case (grouped splits fallback final)
  have "\<forall>y \<in> set final. length y \<le> max_chunk_size sc"
    using enforce_max_size_bounds [OF grouped(3,4)] .
  then have "\<forall>y \<in> set final. length (strip y) \<le> max_chunk_size sc"
    using length_strip_le order.trans by blast
  with semantic_chunk_not_blank [OF chunks] grouped(5) show ?thesis by auto
qed (use assms in auto)

theorem semantic_chunk_bounds_witness:
  "list_all (\<lambda>x. not_blank x \<and>
       length x \<le> max_chunk_size \<lparr>threshold_percentile = 60, max_chunk_size = 5, buffer_size = 1\<rparr>)
     [''Hi'', ''you.'', ''Bye.'']"
  unfolding list_all_iff
proof (rule semantic_chunk_bounds)
  show "one_embedding_per_text (\<lambda>ws. Inr (map (\<lambda>_. [1]) ws))"
    by (simp add: one_embedding_per_text_def)
  show "semantic_chunk (\<lambda>ws. Inr (map (\<lambda>_. [1]) ws))
          \<lparr>threshold_percentile = 60, max_chunk_size = 5, buffer_size = 1\<rparr> ''Hi you. Bye.'' =
        Some (Inr [''Hi'', ''you.'', ''Bye.''])"
    by code_simp
  show "1 < length (sentences_of (strip ''Hi you. Bye.''))"
    by code_simp
qed

text \<open>
  The size limit is not enforced on a single sentence.  A text without an
  inner sentence end is returned as one chunk, whatever its length and whatever
  \<open>max_chunk_size\<close> is.
\<close>

theorem semantic_chunk_single_sentence:
  assumes "not_blank tx" and "length (sentences_of (strip tx)) \<le> 1"
  shows "semantic_chunk encode sc tx = Some (Inr (sentences_of (strip tx)))"
  using assms by (simp add: semantic_chunk_def not_blank_def Let_def)

theorem semantic_chunk_single_sentence_witness:
  "semantic_chunk (\<lambda>_. Inr []) \<lparr>threshold_percentile = 60, max_chunk_size = 5, buffer_size = 1\<rparr>
     ''a sentence without any end'' = Some (Inr [''a sentence without any end'']) \<and>
   5 < length ''a sentence without any end''"
proof -
  have s: "sentences_of (strip ''a sentence without any end'') = [''a sentence without any end'']"
    by code_simp
  have "not_blank ''a sentence without any end''"
    by code_simp
  from semantic_chunk_single_sentence [OF this] s show ?thesis by simp
qed

end
