(* ===== verification/Pipeline.thy ===== *)
theory Pipeline
  imports SemanticChunking
begin

section \<open>The ingestion pipeline: extract, chunk, embed\<close>

text \<open>
  \<open>extract_text\<close>, \<open>ChunkData\<close> and \<open>IngestionPipeline\<close> of \<open>src/ingestion/pipeline.py\<close>.
  Bytes are characters.  Parameters: \<open>decode\<close> is \<open>bytes.decode("utf-8", errors="replace")\<close>,
  \<open>pypdf\<close> the optional PDF library (\<open>None\<close>: not installed) as the function from a file to the
  texts of its pages, and \<open>encode\<close> the embedding model.
\<close>

type_synonym bytes = "char list"
type_synonym pdf_library = "(bytes \<Rightarrow> (exn, string list) outcome) option"

record chunk_data =
  cd_content :: string
  cd_embedding :: "rat list"
  cd_chunk_index :: nat
  cd_page_number :: "nat option"

definition supported_text_types :: "string list" where
  "supported_text_types = [''text/plain'', ''text/markdown'', ''text/csv'', ''application/json'']"

definition extract_pdf_text :: "pdf_library \<Rightarrow> bytes \<Rightarrow> (exn, string) outcome" where
  "extract_pdf_text pypdf content =
     (case pypdf of
        None \<Rightarrow> Inl (App (ValidationError
                  ''PDF support requires pypdf. Install with: pip install pypdf''))
      | Some read_pages \<Rightarrow>
          try_bind (read_pages content) (\<lambda>page_texts.
            let pages = filter (\<lambda>t. t \<noteq> []) page_texts
            in if pages = []
               then Inl (App (ValidationError ''PDF contains no extractable text.''))
               else Inr (py_join [CHR 0x0A, CHR 0x0A] pages)))"

text \<open>\<open>(mime_type or "").lower().split(";")[0].strip()\<close>\<close>

definition normal_mime :: "string option \<Rightarrow> string" where
  "normal_mime mime_type =
     strip (hd (py_split '';'' (lower (case mime_type of None \<Rightarrow> [] | Some m \<Rightarrow> m))))"

definition extract_text ::
  "(bytes \<Rightarrow> string) \<Rightarrow> pdf_library \<Rightarrow> bytes \<Rightarrow> string option \<Rightarrow> (exn, string) outcome" where
  "extract_text decode pypdf content mime_type =
     (let mime = normal_mime mime_type
      in if mime \<in> set supported_text_types \<or> mime = [] then Inr (decode content)
         else if mime = ''application/pdf'' then extract_pdf_text pypdf content
         else Inl (App (ValidationError
                (''Unsupported file type: '' @ [CHR 0x27] @ mime @ [CHR 0x27] @
                 ''. Supported: text/plain, text/markdown, application/pdf.''))))"

text \<open>The loop over \<open>enumerate(zip(raw_chunks, embeddings))\<close>, from index \<open>idx\<close>.\<close>

fun number_chunks :: "nat \<Rightarrow> (string \<times> rat list) list \<Rightarrow> chunk_data list" where
  "number_chunks idx [] = []"
| "number_chunks idx ((piece, embedding) # rest) =
     \<lparr>cd_content = piece, cd_embedding = embedding, cd_chunk_index = idx,
      cd_page_number = None\<rparr> # number_chunks (Suc idx) rest"

text \<open>
  \<open>process\<close>; the result is \<open>None\<close> when the chunker does not return.  \<open>zip\<close> stops at the
  shorter of the two lists.
\<close>

definition process ::
  "(bytes \<Rightarrow> string) \<Rightarrow> pdf_library \<Rightarrow> embedder \<Rightarrow> (string \<Rightarrow> chunk_result) \<Rightarrow>
     bytes \<Rightarrow> string option \<Rightarrow> (exn, chunk_data list) outcome option" where
  "process decode pypdf encode chunk content mime_type =
     (case extract_text decode pypdf content mime_type of
        Inl e \<Rightarrow> Some (Inl e)
      | Inr tx \<Rightarrow>
          (case chunk tx of
             None \<Rightarrow> None
           | Some (Inl e) \<Rightarrow> Some (Inl e)
           | Some (Inr raw_chunks) \<Rightarrow>
               if raw_chunks = [] then Some (Inr [])
               else (case encode raw_chunks of
                 Inl e \<Rightarrow> Some (Inl e)
               | Inr embeddings \<Rightarrow>
                   Some (Inr (number_chunks 0 (zip raw_chunks embeddings))))))"

lemma number_chunks_index: "map cd_chunk_index (number_chunks n ps) = [n..<n + length ps]"
  by (induction n ps rule: number_chunks.induct) (simp_all add: upt_conv_Cons del: upt_Suc)

lemma number_chunks_content: "map cd_content (number_chunks n ps) = map fst ps"
  by (induction n ps rule: number_chunks.induct) auto

lemma number_chunks_embedding: "map cd_embedding (number_chunks n ps) = map snd ps"
  by (induction n ps rule: number_chunks.induct) auto

lemma length_number_chunks [simp]: "length (number_chunks n ps) = length ps"
  using arg_cong [OF number_chunks_content [of n ps], of length] by simp

lemma process_cases:
  assumes "process decode pypdf encode chunk content mime_type = Some (Inr ds)"
  obtains (empty) tx where "extract_text decode pypdf content mime_type = Inr tx"
      "chunk tx = Some (Inr [])" "ds = []"
  | (embedded) tx cs es where "extract_text decode pypdf content mime_type = Inr tx"
      "chunk tx = Some (Inr cs)" "cs \<noteq> []" "encode cs = Inr es"
      "ds = number_chunks 0 (zip cs es)"
  using assms by (auto simp: process_def split: sum.splits option.splits if_splits)

subsection \<open>The interface between the pipeline and its chunker\<close>

text \<open>
  What the pipeline may assume of the chunker it is given: it returns, it gives nothing for a
  blank text, and it gives no blank chunk.
\<close>

locale text_chunker =
  fixes chunk :: "string \<Rightarrow> chunk_result"
  assumes returns: "\<exists>r. chunk tx = Some r"
    and blank: "strip tx = [] \<Longrightarrow> chunk tx = Some (Inr [])"
    and not_blank: "chunk tx = Some (Inr cs) \<Longrightarrow> \<forall>x \<in> set cs. not_blank x"
begin

lemma process_returns: "\<exists>r. process decode pypdf encode chunk content mime_type = Some r"
proof (cases "extract_text decode pypdf content mime_type")
  case (Inr tx)
  obtain r where "chunk tx = Some r" using returns by blast
  with Inr show ?thesis
    by (cases r) (auto simp: process_def split: sum.splits)
qed (simp add: process_def)

lemma process_blank:
  assumes "extract_text decode pypdf content mime_type = Inr tx" and "strip tx = []"
  shows "process decode pypdf encode chunk content mime_type = Some (Inr [])"
  using assms by (simp add: process_def blank)

lemma process_chunks:
  assumes "process decode pypdf encode chunk content mime_type = Some (Inr ds)"
  shows "map cd_chunk_index ds = [0..<length ds] \<and> (\<forall>d \<in> set ds. not_blank (cd_content d))"
  using assms
proof (cases rule: process_cases)
  case (embedded tx cs es)
  have "cd_content ` set ds \<subseteq> set cs"
    using number_chunks_content [of 0 "zip cs es"] unfolding embedded(5)
    by (metis image_subsetI list.set_map map_fst_zip_take set_take_subset subset_trans image_mono subsetI)
  with not_blank [OF embedded(2)] number_chunks_index [of 0 "zip cs es"] show ?thesis
    by (auto simp: embedded(5))
qed simp

lemma process_complete:
  assumes "one_embedding_per_text encode"
    and "process decode pypdf encode chunk content mime_type = Some (Inr ds)"
    and "extract_text decode pypdf content mime_type = Inr tx"
  shows "chunk tx = Some (Inr (map cd_content ds)) \<and>
    (ds \<noteq> [] \<longrightarrow> encode (map cd_content ds) = Inr (map cd_embedding ds))"
  using assms(2)
proof (cases rule: process_cases)
  case (embedded tx' cs es)
  with assms(1) have "length es = length cs" by (auto simp: one_embedding_per_text_def)
  with embedded assms(3) show ?thesis
    by (simp add: number_chunks_content number_chunks_embedding)
qed (use assms(3) in auto)

end

subsection \<open>The two chunkers provide the interface\<close>

text \<open>
  The chunker \<open>run_worker\<close> of \<open>src/ingestion/worker.py\<close> constructs from its settings.
\<close>

record chunking_settings =
  chunking_strategy :: string
  chunking_semantic_threshold_percentile :: rat
  chunking_semantic_buffer_size :: nat

definition default_chunker :: chunker where
  "default_chunker = \<lparr>chunk_size = 2048, chunk_overlap = 256\<rparr>"

definition worker_semantic_chunker :: "chunking_settings \<Rightarrow> semantic_chunker" where
  "worker_semantic_chunker st =
     \<lparr>threshold_percentile = chunking_semantic_threshold_percentile st,
      max_chunk_size = 2048, buffer_size = chunking_semantic_buffer_size st\<rparr>"

definition worker_chunker :: "chunking_settings \<Rightarrow> embedder \<Rightarrow> string \<Rightarrow> chunk_result" where
  "worker_chunker st encode =
     (if chunking_strategy st = ''semantic''
      then semantic_chunk encode (worker_semantic_chunker st)
      else recursive_chunk default_chunker)"

interpretation rec_chunker: text_chunker "recursive_chunk default_chunker"
proof
  show "\<exists>r. recursive_chunk default_chunker tx = Some r" for tx
    using split_text_total [of default_chunker separators "strip tx"]
    by (auto simp: recursive_chunk_def chunk_text_def Let_def valid_chunker_def default_chunker_def)
  show "strip tx = [] \<Longrightarrow> recursive_chunk default_chunker tx = Some (Inr [])" for tx
    by (simp add: recursive_chunk_def chunk_text_blank)
  show "recursive_chunk default_chunker tx = Some (Inr cs) \<Longrightarrow> \<forall>x \<in> set cs. not_blank x" for tx cs
    using chunk_text_not_blank by (auto simp: recursive_chunk_def)
qed

interpretation sem_chunker: text_chunker "semantic_chunk encode sc" for encode sc
  by unfold_locales
    (simp_all add: semantic_chunk_returns semantic_chunk_blank semantic_chunk_not_blank)

interpretation chosen_chunker: text_chunker "worker_chunker st encode" for st encode
  by unfold_locales
    (auto simp: worker_chunker_def rec_chunker.returns rec_chunker.blank sem_chunker.returns
       sem_chunker.blank dest: rec_chunker.not_blank sem_chunker.not_blank split: if_splits)

subsection \<open>The pipeline of the worker\<close>

text \<open>
  Claim C29 (termination): whatever the file, its MIME type, the settings, the decoder, the PDF
  library and the embedding model, processing a file returns: with chunks or an exception.
\<close>

theorem process_terminates:
  "\<exists>r. process decode pypdf encode (worker_chunker st encode) file mime_type = Some r"
  by (rule chosen_chunker.process_returns)

text \<open>
  With an embedding model that gives one embedding per text, a successful
  run stores exactly the chunks of the extracted text, each with the embedding the model gives
  for it in one batch, numbered 0, 1, 2, ... in order, and none of them is blank.
\<close>

theorem process_stores_chunks:
  assumes "one_embedding_per_text encode"
    and "extract_text decode pypdf file mime_type = Inr tx"
    and "process decode pypdf encode (worker_chunker st encode) file mime_type = Some (Inr ds)"
  shows "worker_chunker st encode tx = Some (Inr (map cd_content ds)) \<and>
    (ds \<noteq> [] \<longrightarrow> encode (map cd_content ds) = Inr (map cd_embedding ds)) \<and>
    map cd_chunk_index ds = [0..<length ds] \<and> (\<forall>d \<in> set ds. not_blank (cd_content d))"
  using chosen_chunker.process_complete [OF assms(1,3,2)] chosen_chunker.process_chunks [OF assms(3)] by simp

theorem process_stores_chunks_witness:
  "(let st = \<lparr>chunking_strategy = ''recursive'', chunking_semantic_threshold_percentile = 85,
              chunking_semantic_buffer_size = 1\<rparr>;
        encode = (\<lambda>ts. Inr (map (\<lambda>_. [1]) ts));
        ds = [\<lparr>cd_content = ''Hi.'', cd_embedding = [1], cd_chunk_index = 0, cd_page_number = None\<rparr>]
    in worker_chunker st encode ''Hi. '' = Some (Inr (map cd_content ds)) \<and>
       (ds \<noteq> [] \<longrightarrow> encode (map cd_content ds) = Inr (map cd_embedding ds)) \<and>
       map cd_chunk_index ds = [0..<length ds] \<and> (\<forall>d \<in> set ds. not_blank (cd_content d)))"
  unfolding Let_def
proof (rule process_stores_chunks)
  show "one_embedding_per_text (\<lambda>ts. Inr (map (\<lambda>_. [1]) ts))"
    by (simp add: one_embedding_per_text_def)
  show "extract_text id None ''Hi. '' (Some ''Text/Plain; charset=utf-8'') = Inr ''Hi. ''"
    by code_simp
  show "process id None (\<lambda>ts. Inr (map (\<lambda>_. [1]) ts))
          (worker_chunker \<lparr>chunking_strategy = ''recursive'',
             chunking_semantic_threshold_percentile = 85, chunking_semantic_buffer_size = 1\<rparr>
             (\<lambda>ts. Inr (map (\<lambda>_. [1]) ts))) ''Hi. '' (Some ''Text/Plain; charset=utf-8'') =
        Some (Inr [\<lparr>cd_content = ''Hi.'', cd_embedding = [1], cd_chunk_index = 0,
                    cd_page_number = None\<rparr>])"
    by code_simp
qed

text \<open>
  A file whose normalised MIME type is neither empty, nor a supported text
  type, nor PDF is rejected with a validation error, whose HTTP status is 422, before any
  chunking or embedding; and a PDF is rejected so when the PDF library is not installed.
\<close>

theorem process_rejects_unsupported:
  assumes "normal_mime mime_type \<notin> set supported_text_types" and "normal_mime mime_type \<noteq> []"
    and "normal_mime mime_type = ''application/pdf'' \<Longrightarrow> pypdf = None"
  shows "\<exists>m. process decode pypdf encode chunk file mime_type = Some (Inl (App (ValidationError m))) \<and>
    resp_status (handle_exn (App (ValidationError m))) = 422"
  using assms by (simp add: process_def extract_text_def extract_pdf_text_def Let_def)

theorem process_rejects_unsupported_witness:
  "\<exists>m. process id None (\<lambda>ts. Inr []) (recursive_chunk default_chunker) ''x'' (Some ''image/PNG'') =
     Some (Inl (App (ValidationError m))) \<and> resp_status (handle_exn (App (ValidationError m))) = 422"
  by (rule process_rejects_unsupported) code_simp+

end
