(* ===== verification/JobService.thy ===== *)
theory JobService
  imports Models Pipeline
begin

section \<open>The ingestion job service\<close>

text \<open>
  \<open>src/ingestion/service.py\<close>.  \<open>now\<close> is the application's clock, \<open>tx_now\<close> the
  database's \<open>now()\<close>, \<open>locked\<close> the ids of the job rows that other transactions hold locked
  (\<open>SKIP LOCKED\<close>), and \<open>new_id\<close> numbers the ids the database generates for new rows.
\<close>

definition stale_claim :: "timestamp \<Rightarrow> job \<Rightarrow> bool" where
  "stale_claim cutoff j \<longleftrightarrow>
     j_status j = JobClaimed \<and> (case j_claimed_at j of None \<Rightarrow> False | Some c \<Rightarrow> c < cutoff)"

definition requeue :: "job \<Rightarrow> job" where
  "requeue j = j \<lparr>j_status := JobQueued, j_worker_id := None, j_claimed_at := None\<rparr>"

definition minutes :: "int \<Rightarrow> timestamp" where
  "minutes m = m * 60 * 10 ^ 6"

definition reset_stale_claims :: "int \<Rightarrow> timestamp \<Rightarrow> database \<Rightarrow> database" where
  "reset_stale_claims timeout now db =
     db \<lparr>jobs := update_where (stale_claim (now - minutes timeout)) requeue (jobs db)\<rparr>"

definition claimable :: "job \<Rightarrow> bool" where
  "claimable j \<longleftrightarrow> j_status j = JobQueued \<and> j_attempt_count j < j_max_attempts j"

definition next_job :: "uuid set \<Rightarrow> database \<Rightarrow> job option" where
  "next_job locked db =
     scalars_first (order_by_asc j_created_at
       (filter (\<lambda>j. claimable j \<and> j_id j \<notin> locked) (jobs db)))"

definition claim :: "string \<Rightarrow> timestamp \<Rightarrow> job \<Rightarrow> job" where
  "claim worker_id tx_now j =
     j \<lparr>j_status := JobClaimed, j_worker_id := Some worker_id, j_claimed_at := Some tx_now,
        j_attempt_count := j_attempt_count j + 1, j_version := j_version j + 1\<rparr>"

definition claim_next_job ::
  "int \<Rightarrow> timestamp \<Rightarrow> timestamp \<Rightarrow> uuid set \<Rightarrow> string \<Rightarrow> database \<Rightarrow> job option \<times> database" where
  "claim_next_job timeout now tx_now locked worker_id db =
     (let db1 = reset_stale_claims timeout now db
      in case next_job locked db1 of
           None \<Rightarrow> (None, db1)
         | Some row \<Rightarrow>
             let db2 = db1 \<lparr>jobs := update_where (\<lambda>j. j_id j = j_id row) (claim worker_id tx_now) (jobs db1)\<rparr>
             in (scalars_first (filter (\<lambda>j. j_id j = j_id row) (jobs db2)), db2))"

definition mark_running :: "uuid \<Rightarrow> nat \<Rightarrow> timestamp \<Rightarrow> database \<Rightarrow> bool \<times> database" where
  "mark_running job_id version now db =
     (let hit = (\<lambda>j. j_id j = job_id \<and> j_version j = version)
      in (filter hit (jobs db) \<noteq> [],
          db \<lparr>jobs := update_where hit
                (\<lambda>j. j \<lparr>j_status := JobRunning, j_started_at := Some now, j_version := version + 1\<rparr>)
                (jobs db)\<rparr>))"

fun add_chunks ::
  "(nat \<Rightarrow> uuid) \<Rightarrow> nat \<Rightarrow> uuid \<Rightarrow> uuid \<Rightarrow> uuid \<Rightarrow> timestamp \<Rightarrow> chunk_data list \<Rightarrow>
     database \<Rightarrow> (exn, database) outcome" where
  "add_chunks new_id n document_id user_id tenant_id tx_now [] db = Inr db"
| "add_chunks new_id n document_id user_id tenant_id tx_now (ch # chs) db =
     try_bind (insert_chunk
       \<lparr>c_id = new_id n, c_document_id = document_id, c_user_id = user_id, c_tenant_id = tenant_id,
        c_content = cd_content ch, c_page_number = cd_page_number ch,
        c_chunk_index = cd_chunk_index ch, c_embedding = cd_embedding ch, c_created_at = tx_now\<rparr> db)
       (add_chunks new_id (Suc n) document_id user_id tenant_id tx_now chs)"

definition complete_job ::
  "(nat \<Rightarrow> uuid) \<Rightarrow> timestamp \<Rightarrow> timestamp \<Rightarrow> uuid \<Rightarrow> uuid \<Rightarrow> chunk_data list \<Rightarrow> uuid \<Rightarrow> uuid \<Rightarrow>
     database \<Rightarrow> (exn, database) outcome" where
  "complete_job new_id now tx_now job_id document_id chs user_id tenant_id db =
     try_bind (add_chunks new_id 0 document_id user_id tenant_id tx_now chs db) (\<lambda>db1.
       Inr (db1 \<lparr>documents := update_where (\<lambda>d. d_id d = document_id)
                   (\<lambda>d. d \<lparr>d_status := DocReady, d_chunk_count := length chs, d_updated_at := now\<rparr>)
                   (documents db1),
                 jobs := update_where (\<lambda>j. j_id j = job_id)
                   (\<lambda>j. j \<lparr>j_status := JobCompleted, j_completed_at := Some now\<rparr>) (jobs db1)\<rparr>))"

definition fail_job ::
  "timestamp \<Rightarrow> uuid \<Rightarrow> uuid \<Rightarrow> string \<Rightarrow> nat \<Rightarrow> nat \<Rightarrow> database \<Rightarrow> (exn, database) outcome" where
  "fail_job now job_id document_id message attempt_count max_attempts db =
     (let final_status = (if attempt_count \<ge> max_attempts then JobDead else JobFailed)
      in if \<not> storable_text message then Inl DataError
         else if final_status = JobDead
         then Inr (db \<lparr>jobs := update_where (\<lambda>j. j_id j = job_id)
                    (\<lambda>j. j \<lparr>j_status := JobDead, j_error_message := Some message\<rparr>) (jobs db),
                  documents := update_where (\<lambda>d. d_id d = document_id)
                    (\<lambda>d. d \<lparr>d_status := DocFailed, d_error_message := Some message,
                            d_updated_at := now\<rparr>) (documents db)\<rparr>)
         else Inr (db \<lparr>jobs := update_where (\<lambda>j. j_id j = job_id)
                    (\<lambda>j. j \<lparr>j_status := JobQueued, j_error_message := Some message,
                            j_worker_id := None, j_claimed_at := None\<rparr>) (jobs db)\<rparr>))"

definition get_job :: "uuid \<Rightarrow> uuid \<Rightarrow> database \<Rightarrow> (exn, job option) outcome" where
  "get_job job_id tenant_id db =
     scalar_one_or_none (filter (\<lambda>j. j_id j = job_id \<and> j_tenant_id j = tenant_id) (jobs db))"

definition list_jobs_for_document :: "uuid \<Rightarrow> uuid \<Rightarrow> database \<Rightarrow> job list" where
  "list_jobs_for_document document_id tenant_id db =
     order_by_desc j_created_at
       (filter (\<lambda>j. j_document_id j = document_id \<and> j_tenant_id j = tenant_id) (jobs db))"

subsection \<open>What each operation does to the jobs\<close>

lemma requeue_simps [simp]:
  "j_id (requeue j) = j_id j" "j_version (requeue j) = j_version j" "j_status (requeue j) = JobQueued"
  "j_attempt_count (requeue j) = j_attempt_count j" "j_max_attempts (requeue j) = j_max_attempts j"
  "j_created_at (requeue j) = j_created_at j" "j_document_id (requeue j) = j_document_id j"
  by (simp_all add: requeue_def)

lemma claim_simps [simp]:
  "j_id (claim w n j) = j_id j" "j_version (claim w n j) = Suc (j_version j)"
  "j_status (claim w n j) = JobClaimed" "j_attempt_count (claim w n j) = Suc (j_attempt_count j)"
  "j_max_attempts (claim w n j) = j_max_attempts j" "j_document_id (claim w n j) = j_document_id j"
  by (simp_all add: claim_def)

lemma next_job_Some:
  assumes "next_job locked db = Some row"
  shows "row \<in> set (jobs db)" "claimable row" "j_id row \<notin> locked"
    and "j \<in> set (jobs db) \<Longrightarrow> claimable j \<Longrightarrow> j_id j \<notin> locked \<Longrightarrow> j_created_at row \<le> j_created_at j"
  using assms first_asc_minimal [OF assms [unfolded next_job_def]]
  by (auto simp: next_job_def dest!: scalars_first_in)

lemma next_job_None:
  "next_job locked db = None \<longleftrightarrow> (\<forall>j \<in> set (jobs db). claimable j \<longrightarrow> j_id j \<in> locked)"
proof -
  have "next_job locked db = None \<longleftrightarrow>
      set (order_by_asc j_created_at (filter (\<lambda>j. claimable j \<and> j_id j \<notin> locked) (jobs db))) = {}"
    by (simp add: next_job_def scalars_first_iff del: set_order_by)
  then show ?thesis by auto
qed

lemma jobs_reset:
  "jobs (reset_stale_claims timeout now db) =
     update_where (stale_claim (now - minutes timeout)) requeue (jobs db)"
  by (simp add: reset_stale_claims_def)

lemma job_ids_reset: "job_ids.keyed db \<Longrightarrow> job_ids.keyed (reset_stale_claims timeout now db)"
  by (rule job_ids.update_keyed [OF _ _ jobs_reset]) simp_all

text \<open>A claim either finds nothing, or changes one row, which it returns as changed.\<close>

lemma claim_next_job_cases:
  assumes "job_ids.keyed db"
  obtains (none) "claim_next_job timeout now tx_now locked w db = (None, reset_stale_claims timeout now db)"
      "next_job locked (reset_stale_claims timeout now db) = None"
  | (claimed) row where "next_job locked (reset_stale_claims timeout now db) = Some row"
      "claim_next_job timeout now tx_now locked w db =
        (Some (claim w tx_now row),
         (reset_stale_claims timeout now db)
           \<lparr>jobs := update_where (\<lambda>j. j_id j = j_id row) (claim w tx_now)
             (jobs (reset_stale_claims timeout now db))\<rparr>)"
proof (cases "next_job locked (reset_stale_claims timeout now db)")
  case None
  then show ?thesis using none by (simp add: claim_next_job_def)
next
  case (Some row)
  let ?db = "reset_stale_claims timeout now db"
  have "filter (\<lambda>j. j_id j = j_id row) (jobs ?db) = [row]"
    using job_ids_reset [OF assms, of timeout now] next_job_Some(1) [OF Some]
    unfolding job_ids.keyed_def by (rule filter_unique_key)
  then have "filter (\<lambda>j. j_id j = j_id row)
      (update_where (\<lambda>j. j_id j = j_id row) (claim w tx_now) (jobs ?db)) = [claim w tx_now row]"
    by (simp add: filter_update_where_same)
  then show ?thesis using claimed Some by (simp add: claim_next_job_def Let_def)
qed

text \<open>The rows that \<open>complete_job\<close> inserts.\<close>

fun chunk_rows ::
  "(nat \<Rightarrow> uuid) \<Rightarrow> nat \<Rightarrow> uuid \<Rightarrow> uuid \<Rightarrow> uuid \<Rightarrow> timestamp \<Rightarrow> chunk_data list \<Rightarrow> chunk_row list" where
  "chunk_rows new_id n document_id user_id tenant_id tx_now [] = []"
| "chunk_rows new_id n document_id user_id tenant_id tx_now (ch # chs) =
     \<lparr>c_id = new_id n, c_document_id = document_id, c_user_id = user_id, c_tenant_id = tenant_id,
      c_content = cd_content ch, c_page_number = cd_page_number ch,
      c_chunk_index = cd_chunk_index ch, c_embedding = cd_embedding ch, c_created_at = tx_now\<rparr>
     # chunk_rows new_id (Suc n) document_id user_id tenant_id tx_now chs"

lemma add_chunks_Inr:
  "add_chunks new_id n document_id user_id tenant_id tx_now chs db = Inr db' \<Longrightarrow>
    db' = db \<lparr>chunks := chunks db @ chunk_rows new_id n document_id user_id tenant_id tx_now chs\<rparr>"
proof (induction chs arbitrary: n db)
  case (Cons ch chs)
  from Cons.prems show ?case
    by (auto simp: insert_chunk_def dest!: try_bind_InrD Cons.IH)
qed simp

lemma chunk_rows_fields:
  "map c_content (chunk_rows new_id n d u t tx chs) = map cd_content chs"
  "map c_embedding (chunk_rows new_id n d u t tx chs) = map cd_embedding chs"
  "map c_chunk_index (chunk_rows new_id n d u t tx chs) = map cd_chunk_index chs"
  "c \<in> set (chunk_rows new_id n d u t tx chs) \<Longrightarrow> c_document_id c = d \<and> c_tenant_id c = t"
  by (induction chs arbitrary: n) auto

lemma length_chunk_rows [simp]: "length (chunk_rows new_id n d u t tx chs) = length chs"
  by (induction chs arbitrary: n) auto

lemma complete_job_Inr:
  assumes "complete_job new_id now tx_now job_id document_id chs user_id tenant_id db = Inr db'"
  shows "chunks db' = chunks db @ chunk_rows new_id 0 document_id user_id tenant_id tx_now chs"
    and "jobs db' = update_where (\<lambda>j. j_id j = job_id)
           (\<lambda>j. j \<lparr>j_status := JobCompleted, j_completed_at := Some now\<rparr>) (jobs db)"
    and "documents db' = update_where (\<lambda>d. d_id d = document_id)
           (\<lambda>d. d \<lparr>d_status := DocReady, d_chunk_count := length chs, d_updated_at := now\<rparr>) (documents db)"
  using assms by (auto simp: complete_job_def dest!: try_bind_InrD add_chunks_Inr)

lemma jobs_mark_running:
  "jobs (snd (mark_running job_id version now db)) =
     update_where (\<lambda>j. j_id j = job_id \<and> j_version j = version)
       (\<lambda>j. j \<lparr>j_status := JobRunning, j_started_at := Some now, j_version := version + 1\<rparr>) (jobs db)"
  "chunks (snd (mark_running job_id version now db)) = chunks db"
  "documents (snd (mark_running job_id version now db)) = documents db"
  by (simp_all add: mark_running_def Let_def)

lemma fst_mark_running:
  "fst (mark_running job_id version now db) \<longleftrightarrow>
     (\<exists>j \<in> set (jobs db). j_id j = job_id \<and> j_version j = version)"
  by (auto simp: mark_running_def Let_def filter_empty_conv)

subsection \<open>Properties of claiming\<close>

lemma claim_takes_row:
  assumes "job_ids.keyed db"
    and "claim_next_job timeout now tx_now locked w db = (Some j, db')"
  shows "\<exists>row. row \<in> set (jobs (reset_stale_claims timeout now db)) \<and> claimable row \<and>
    j_id row \<notin> locked \<and> j = claim w tx_now row \<and>
    (\<forall>k \<in> set (jobs (reset_stale_claims timeout now db)).
       claimable k \<and> j_id k \<notin> locked \<longrightarrow> j_created_at row \<le> j_created_at k) \<and>
    jobs db' = map (\<lambda>k. if j_id k = j_id j then j else k) (jobs (reset_stale_claims timeout now db))"
  using assms(1)
proof (cases rule: claim_next_job_cases [where timeout = timeout and now = now and tx_now = tx_now
      and locked = locked and w = w])
  case (claimed row)
  let ?db = "reset_stale_claims timeout now db"
  have j: "j = claim w tx_now row" using claimed assms(2) by simp
  have "update_where (\<lambda>k. j_id k = j_id row) (claim w tx_now) (jobs ?db) =
      map (\<lambda>k. if j_id k = j_id j then j else k) (jobs ?db)"
    using job_ids.unique [OF job_ids_reset [OF assms(1)] _ next_job_Some(1) [OF claimed(1)]]
    unfolding update_where_def j by (intro map_cong) auto
  with claimed assms(2) next_job_Some [OF claimed(1)] j show ?thesis by auto
qed (use assms(2) in simp)

text \<open>
  Claim C28 (functional): claiming a job.  In a database with unique job ids, a claim first puts
  back all stale claims; a job it then returns has the oldest creation time among those that
  are queued, have attempts left and are not locked by another transaction.  The job is then
  claimed by this worker, has one more attempt and the next version, and every other job row is
  as the reset of the stale claims left it.
\<close>

theorem claim_takes_oldest:
  assumes "job_ids.keyed db"
    and "claim_next_job timeout now tx_now locked w db = (Some j, db')"
  shows "\<exists>row. row \<in> set (jobs (reset_stale_claims timeout now db)) \<and> claimable row \<and>
    j_id row \<notin> locked \<and> j = claim w tx_now row \<and>
    (\<forall>k \<in> set (jobs (reset_stale_claims timeout now db)).
       claimable k \<and> j_id k \<notin> locked \<longrightarrow> j_created_at row \<le> j_created_at k) \<and>
    jobs db' = map (\<lambda>k. if j_id k = j_id j then j else k) (jobs (reset_stale_claims timeout now db))"
  using claim_takes_row [OF assms] .

text \<open>A database with given jobs and documents, for the witnesses.\<close>

abbreviation sample_job :: "uuid \<Rightarrow> timestamp \<Rightarrow> nat \<Rightarrow> job" where
  "sample_job jid created attempts \<equiv>
     \<lparr>j_id = jid, j_document_id = 100 + jid, j_user_id = 1, j_tenant_id = 2, j_status = JobQueued,
      j_idempotency_key = replicate jid CHR ''k'', j_worker_id = None, j_attempt_count = attempts,
      j_max_attempts = 3, j_version = 1, j_error_message = None, j_claimed_at = None,
      j_started_at = None, j_completed_at = None, j_created_at = created\<rparr>"

abbreviation sample_document :: "uuid \<Rightarrow> document" where
  "sample_document did \<equiv>
     \<lparr>d_id = did, d_user_id = 1, d_tenant_id = 2, d_filename = ''f'', d_content_hash = replicate did CHR ''h'',
      d_size_bytes = 1, d_mime_type = Some ''text/plain'', d_storage_key = Some ''k'',
      d_status = DocPending, d_chunk_count = 0, d_error_message = None, d_created_at = 0,
      d_updated_at = 0, d_deleted_at = None\<rparr>"

abbreviation sample_db :: "document list \<Rightarrow> job list \<Rightarrow> database" where
  "sample_db ds js \<equiv>
     \<lparr>users = [\<lparr>u_id = 1, u_email = ''a@b.c'', u_is_active = True, u_created_at = 0\<rparr>],
      api_keys = [], refresh_tokens = [],
      organizations = [\<lparr>o_id = 2, o_name = ''o'', o_slug = ''o'', o_created_at = 0\<rparr>],
      memberships = [], invites = [], documents = ds, chunks = [], jobs = js\<rparr>"

theorem claim_takes_oldest_witness:
  "(let db = sample_db [] [sample_job 8 20 0, sample_job 9 10 1];
        j = claim ''w'' 50 (sample_job 9 10 1);
        db1 = reset_stale_claims 10 50 db;
        db' = db \<lparr>jobs := [sample_job 8 20 0, j]\<rparr>
    in \<exists>row. row \<in> set (jobs db1) \<and> claimable row \<and> j_id row \<notin> {} \<and> j = claim ''w'' 50 row \<and>
       (\<forall>k \<in> set (jobs db1). claimable k \<and> j_id k \<notin> {} \<longrightarrow> j_created_at row \<le> j_created_at k) \<and>
       jobs db' = map (\<lambda>k. if j_id k = j_id j then j else k) (jobs db1))"
  unfolding Let_def
proof (rule claim_takes_oldest)
  show "job_ids.keyed (sample_db [] [sample_job 8 20 0, sample_job 9 10 1])"
    by (simp add: job_ids.keyed_def)
  show "claim_next_job 10 50 50 {} ''w'' (sample_db [] [sample_job 8 20 0, sample_job 9 10 1]) =
      (Some (claim ''w'' 50 (sample_job 9 10 1)),
       sample_db [] [sample_job 8 20 0, sample_job 9 10 1]
         \<lparr>jobs := [sample_job 8 20 0, claim ''w'' 50 (sample_job 9 10 1)]\<rparr>)"
    by (simp add: claim_next_job_def reset_stale_claims_def next_job_def order_by_asc_def
        claimable_def stale_claim_def)
qed

text \<open>A claim returns nothing exactly when no unlocked job is queued with attempts left.\<close>

lemma claim_none_iff:
  assumes "job_ids.keyed db"
  shows "fst (claim_next_job timeout now tx_now locked w db) = None \<longleftrightarrow>
    (\<forall>j \<in> set (jobs (reset_stale_claims timeout now db)). claimable j \<longrightarrow> j_id j \<in> locked)"
  using assms
  by (cases rule: claim_next_job_cases [where timeout = timeout and now = now and tx_now = tx_now
      and locked = locked and w = w]) (auto simp: next_job_None [symmetric])

end
