(* ===== verification/Worker.thy ===== *)
theory Worker
  imports JobService
begin

section \<open>The ingestion worker\<close>

text \<open>
  \<open>process_single_job\<close> and the loop of \<open>run_worker\<close> of \<open>src/ingestion/worker.py\<close>.  A
  \<open>task\<close> is what \<open>run_worker\<close> passes on from the job it claimed.  The work on a claimed job
  is one transaction: \<open>mark_running\<close> locks the job's row until the commit or the rollback, so
  it is one step of the system, whose effect is that of its commit.  The object store's
  \<open>download\<close> and the \<open>pipeline\<close> are parameters.
\<close>

record task =
  t_job_id :: uuid
  t_document_id :: uuid
  t_user_id :: uuid
  t_tenant_id :: uuid
  t_version :: nat
  t_attempt_count :: nat
  t_max_attempts :: nat

definition task_of :: "job \<Rightarrow> task" where
  "task_of j =
     \<lparr>t_job_id = j_id j, t_document_id = j_document_id j, t_user_id = j_user_id j,
      t_tenant_id = j_tenant_id j, t_version = j_version j, t_attempt_count = j_attempt_count j,
      t_max_attempts = j_max_attempts j\<rparr>"

text \<open>
  The environment of a run: the clocks, the ids the database generates, the object store and the
  pipeline, whose result is \<open>None\<close> when it does not return.
\<close>

record worker_env =
  app_now :: timestamp
  db_now :: timestamp
  fresh_id :: "nat \<Rightarrow> uuid"
  download :: "string \<Rightarrow> (exn, bytes) outcome"
  pipeline :: "bytes \<Rightarrow> string option \<Rightarrow> (exn, chunk_data list) outcome option"

datatype attempt_result =
    Skipped
  | Committed database
  | Raised exn
  | Hangs

definition process_transaction :: "worker_env \<Rightarrow> task \<Rightarrow> database \<Rightarrow> attempt_result" where
  "process_transaction env t db =
     (let (ok, db1) = mark_running (t_job_id t) (t_version t) (app_now env) db
      in if \<not> ok then Skipped
         else case scalars_first (filter (\<lambda>d. d_id d = t_document_id t) (documents db1)) of
           None \<Rightarrow> Raised (ValueError (''Document '' @ uuid_str (t_document_id t)
                              @ '' not found or has no storage key.''))
         | Some doc \<Rightarrow>
             (case d_storage_key doc of
                None \<Rightarrow> Raised (ValueError (''Document '' @ uuid_str (t_document_id t)
                                  @ '' not found or has no storage key.''))
              | Some storage_key \<Rightarrow>
                  (case download env storage_key of
                     Inl e \<Rightarrow> Raised e
                   | Inr file_data \<Rightarrow>
                       (case pipeline env file_data (d_mime_type doc) of
                          None \<Rightarrow> Hangs
                        | Some (Inl e) \<Rightarrow> Raised e
                        | Some (Inr chs) \<Rightarrow>
                            (case complete_job (fresh_id env) (app_now env) (db_now env) (t_job_id t)
                                    (t_document_id t) chs (t_user_id t) (t_tenant_id t) db1 of
                               Inl e \<Rightarrow> Raised e
                             | Inr db2 \<Rightarrow> Committed db2)))))"

definition fail_transaction :: "worker_env \<Rightarrow> task \<Rightarrow> exn \<Rightarrow> database \<Rightarrow> (exn, database) outcome" where
  "fail_transaction env t e db =
     fail_job (app_now env) (t_job_id t) (t_document_id t) (exn_str e) (t_attempt_count t)
       (t_max_attempts t) db"

text \<open>
  One task alone, with no other transaction in between; \<open>None\<close> when the pipeline hangs.  An
  exception of \<open>fail_job\<close> is logged and dropped, which leaves the job as it was claimed.
\<close>

definition process_single_job :: "worker_env \<Rightarrow> task \<Rightarrow> database \<Rightarrow> database option" where
  "process_single_job env t db =
     (case process_transaction env t db of
        Skipped \<Rightarrow> Some db
      | Committed db' \<Rightarrow> Some db'
      | Raised e \<Rightarrow> Some (case fail_transaction env t e db of Inl _ \<Rightarrow> db | Inr db' \<Rightarrow> db')
      | Hangs \<Rightarrow> None)"

text \<open>
  One turn of the loop of \<open>run_worker\<close>: claim, then process what was claimed.  The loop over a
  list of environments, one per turn.
\<close>

definition worker_turn :: "int \<Rightarrow> string \<Rightarrow> worker_env \<Rightarrow> database \<Rightarrow> database option" where
  "worker_turn timeout worker_id env db =
     (case claim_next_job timeout (app_now env) (db_now env) {} worker_id db of
        (None, db1) \<Rightarrow> Some db1
      | (Some j, db1) \<Rightarrow> process_single_job env (task_of j) db1)"

fun worker_turns :: "int \<Rightarrow> string \<Rightarrow> worker_env list \<Rightarrow> database \<Rightarrow> database option" where
  "worker_turns timeout worker_id [] db = Some db"
| "worker_turns timeout worker_id (env # envs) db =
     (case worker_turn timeout worker_id env db of
        None \<Rightarrow> None
      | Some db' \<Rightarrow> worker_turns timeout worker_id envs db')"

text \<open>The pipeline the worker builds; it always returns.\<close>

definition worker_pipeline ::
  "(bytes \<Rightarrow> string) \<Rightarrow> pdf_library \<Rightarrow> embedder \<Rightarrow> chunking_settings \<Rightarrow>
     bytes \<Rightarrow> string option \<Rightarrow> (exn, chunk_data list) outcome option" where
  "worker_pipeline decode pypdf encode st = process decode pypdf encode (worker_chunker st encode)"

subsection \<open>One transaction\<close>

lemma process_transaction_committed:
  assumes "process_transaction env t db = Committed db'"
  shows "\<exists>doc key data chs.
    (\<exists>j \<in> set (jobs db). j_id j = t_job_id t \<and> j_version j = t_version t) \<and>
    scalars_first (filter (\<lambda>d. d_id d = t_document_id t) (documents db)) = Some doc \<and>
    d_storage_key doc = Some key \<and> download env key = Inr data \<and>
    pipeline env data (d_mime_type doc) = Some (Inr chs) \<and>
    complete_job (fresh_id env) (app_now env) (db_now env) (t_job_id t) (t_document_id t) chs
      (t_user_id t) (t_tenant_id t) (snd (mark_running (t_job_id t) (t_version t) (app_now env) db)) = Inr db'"
proof -
  obtain ok db1 where m: "mark_running (t_job_id t) (t_version t) (app_now env) db = (ok, db1)" by force
  with assms fst_mark_running [of "t_job_id t" "t_version t" "app_now env" db]
    jobs_mark_running(3) [of "t_job_id t" "t_version t" "app_now env" db]
  show ?thesis
    by (auto simp: process_transaction_def split: option.splits sum.splits if_splits)
qed

lemma process_transaction_skipped:
  "process_transaction env t db = Skipped \<longleftrightarrow>
     \<not> (\<exists>j \<in> set (jobs db). j_id j = t_job_id t \<and> j_version j = t_version t)"
proof -
  obtain ok db1 where m: "mark_running (t_job_id t) (t_version t) (app_now env) db = (ok, db1)" by force
  with fst_mark_running [of "t_job_id t" "t_version t" "app_now env" db] show ?thesis
    by (auto simp: process_transaction_def split: option.splits sum.splits)
qed

lemma worker_pipeline_returns: "worker_pipeline decode pypdf encode st file mime \<noteq> None"
  using chosen_chunker.process_returns by (auto simp: worker_pipeline_def)

lemma process_transaction_hangs:
  "process_transaction env t db = Hangs \<Longrightarrow> \<exists>data mime. pipeline env data mime = None"
  by (auto simp: process_transaction_def split: prod.splits option.splits sum.splits if_splits)

text \<open>The job row of a committed task is completed, at the version after the task's.\<close>

lemma committed_jobs:
  assumes "process_transaction env t db = Committed db'"
  shows "jobs db' = map (\<lambda>j. if j_id j = t_job_id t
           then (if j_version j = t_version t
                 then j \<lparr>j_status := JobCompleted, j_started_at := Some (app_now env),
                         j_version := t_version t + 1, j_completed_at := Some (app_now env)\<rparr>
                 else j \<lparr>j_status := JobCompleted, j_completed_at := Some (app_now env)\<rparr>)
           else j) (jobs db)"
proof -
  from process_transaction_committed [OF assms] obtain chs where
    "complete_job (fresh_id env) (app_now env) (db_now env) (t_job_id t) (t_document_id t) chs
      (t_user_id t) (t_tenant_id t) (snd (mark_running (t_job_id t) (t_version t) (app_now env) db)) = Inr db'"
    by blast
  from complete_job_Inr(2) [OF this] show ?thesis
    by (simp add: jobs_mark_running update_where_def comp_def)
qed

text \<open>The row of a failed task's job.\<close>

definition failed_row :: "exn \<Rightarrow> task \<Rightarrow> job \<Rightarrow> job" where
  "failed_row e t j =
     (if t_attempt_count t \<ge> t_max_attempts t
      then j \<lparr>j_status := JobDead, j_error_message := Some (exn_str e)\<rparr>
      else j \<lparr>j_status := JobQueued, j_error_message := Some (exn_str e), j_worker_id := None,
              j_claimed_at := None\<rparr>)"

lemma fail_transaction_Inl: "(\<exists>e'. fail_transaction env t e db = Inl e') \<longleftrightarrow> \<not> storable_text (exn_str e)"
  by (simp add: fail_transaction_def fail_job_def Let_def)

lemma fail_transaction_rows:
  assumes "fail_transaction env t e db = Inr db'"
  shows "jobs db' = map (\<lambda>j. if j_id j = t_job_id t then failed_row e t j else j) (jobs db)"
  and "chunks db' = chunks db"
  and "documents db' =
     (if t_attempt_count t \<ge> t_max_attempts t
      then update_where (\<lambda>d. d_id d = t_document_id t)
             (\<lambda>d. d \<lparr>d_status := DocFailed, d_error_message := Some (exn_str e),
                     d_updated_at := app_now env\<rparr>) (documents db)
      else documents db)"
  using assms
  by (auto simp: fail_transaction_def fail_job_def failed_row_def update_where_def Let_def split: if_splits)

text \<open>
  The outcomes of a task: everything stored, the failure recorded, or neither, when the database
  refuses the text of the failure.
\<close>

definition stored_all :: "worker_env \<Rightarrow> job \<Rightarrow> database \<Rightarrow> database \<Rightarrow> bool" where
  "stored_all env j db db' \<longleftrightarrow>
     (\<exists>doc key file chs. doc \<in> set (documents db) \<and> d_id doc = j_document_id j \<and>
       d_storage_key doc = Some key \<and> download env key = Inr file \<and>
       pipeline env file (d_mime_type doc) = Some (Inr chs) \<and>
       chunks db' = chunks db @ chunk_rows (fresh_id env) 0 (j_document_id j) (j_user_id j)
                      (j_tenant_id j) (db_now env) chs \<and>
       (\<forall>d \<in> set (documents db'). d_id d = j_document_id j \<longrightarrow>
          d_status d = DocReady \<and> d_chunk_count d = length chs) \<and>
       (\<forall>k \<in> set (jobs db'). j_id k = j_id j \<longrightarrow> j_status k = JobCompleted))"

definition recorded_failure :: "worker_env \<Rightarrow> job \<Rightarrow> database \<Rightarrow> database \<Rightarrow> bool" where
  "recorded_failure env j db db' \<longleftrightarrow>
     (\<exists>e. process_transaction env (task_of j) db = Raised e \<and> chunks db' = chunks db \<and>
       (\<forall>k \<in> set (jobs db'). j_id k = j_id j \<longrightarrow> j_error_message k = Some (exn_str e) \<and>
          (if j_attempt_count j < j_max_attempts j
           then j_status k = JobQueued \<and> j_worker_id k = None else j_status k = JobDead)) \<and>
       (j_attempt_count j < j_max_attempts j \<or>
        (\<forall>d \<in> set (documents db'). d_id d = j_document_id j \<longrightarrow>
           d_status d = DocFailed \<and> d_error_message d = Some (exn_str e))))"

definition unrecorded_failure :: "worker_env \<Rightarrow> job \<Rightarrow> database \<Rightarrow> database \<Rightarrow> bool" where
  "unrecorded_failure env j db db' \<longleftrightarrow>
     (\<exists>e. process_transaction env (task_of j) db = Raised e \<and> \<not> storable_text (exn_str e)) \<and> db' = db"

text \<open>
  Claim C7 (functional): a task is all or nothing.  For a task just claimed, either the file of
  the job's document was fetched and cut into chunks, exactly these chunks are added, the
  document is ready with their number and the job is completed; or the transaction raised, no
  chunk is added, and the job is queued again while attempts are left, and otherwise dead, with its
  document failed and the error recorded on both; or it raised an error whose text the database
  refuses, and nothing changes at all: the job stays claimed.
\<close>

theorem process_all_or_nothing:
  assumes "j \<in> set (jobs db)" and "process_single_job env (task_of j) db = Some db'"
  shows "stored_all env j db db' \<or> recorded_failure env j db db' \<or> unrecorded_failure env j db db'"
proof (cases "process_transaction env (task_of j) db")
  case Skipped
  with assms(1) show ?thesis by (auto simp: process_transaction_skipped task_of_def)
next
  case (Committed db1)
  with assms(2) have db': "db' = db1" by (simp add: process_single_job_def)
  note rows = committed_jobs [OF Committed]
  from process_transaction_committed [OF Committed] obtain doc key data chs where
    doc: "scalars_first (filter (\<lambda>d. d_id d = j_document_id j) (documents db)) = Some doc"
    and fetched: "d_storage_key doc = Some key" "download env key = Inr data"
      "pipeline env data (d_mime_type doc) = Some (Inr chs)"
    and complete: "complete_job (fresh_id env) (app_now env) (db_now env) (j_id j) (j_document_id j) chs
      (j_user_id j) (j_tenant_id j)
      (snd (mark_running (j_id j) (j_version j) (app_now env) db)) = Inr db1"
    by (auto simp: task_of_def)
  from scalars_first_in [OF doc] have "doc \<in> set (documents db)" "d_id doc = j_document_id j" by auto
  moreover have "\<forall>d \<in> set (documents db1). d_id d = j_document_id j \<longrightarrow>
      d_status d = DocReady \<and> d_chunk_count d = length chs"
    by (auto simp: complete_job_Inr(3) [OF complete] set_update_where)
  moreover have "chunks db1 = chunks db @ chunk_rows (fresh_id env) 0 (j_document_id j) (j_user_id j)
      (j_tenant_id j) (db_now env) chs"
    by (simp add: complete_job_Inr(1) [OF complete] jobs_mark_running)
  moreover have "\<forall>k \<in> set (jobs db1). j_id k = j_id j \<longrightarrow> j_status k = JobCompleted"
    by (auto simp: rows task_of_def)
  ultimately show ?thesis using fetched unfolding db' stored_all_def by blast
next
  case (Raised e)
  show ?thesis
  proof (cases "fail_transaction env (task_of j) e db")
    case (Inl e')
    with fail_transaction_Inl [of env "task_of j" e db] Raised assms(2) show ?thesis
      by (auto simp: process_single_job_def unrecorded_failure_def)
  next
    case (Inr db1)
    with Raised assms(2) have "fail_transaction env (task_of j) e db = Inr db'" by (simp add: process_single_job_def)
    from fail_transaction_rows [OF this] Raised show ?thesis
      unfolding recorded_failure_def
      by (intro disjI2 disjI1 exI [of _ e]) (auto simp: failed_row_def task_of_def set_update_where)
  qed
qed (use assms(2) in \<open>simp add: process_single_job_def\<close>)

abbreviation sample_env :: worker_env where
  "sample_env \<equiv>
     \<lparr>app_now = 60, db_now = 50, fresh_id = (\<lambda>n. 1000 + n), download = (\<lambda>_. Inr ''Hi.''),
      pipeline = worker_pipeline id None (\<lambda>ts. Inr (map (\<lambda>_. replicate embedding_dim 0) ts))
        \<lparr>chunking_strategy = ''recursive'', chunking_semantic_threshold_percentile = 85,
         chunking_semantic_buffer_size = 1\<rparr>\<rparr>"

theorem process_all_or_nothing_witness:
  "(let j = claim ''w'' 50 (sample_job 8 0 0); db = sample_db [sample_document 108] [j]
    in \<exists>db'. process_single_job sample_env (task_of j) db = Some db' \<and>
         (stored_all sample_env j db db' \<or> recorded_failure sample_env j db db' \<or> unrecorded_failure sample_env j db db'))"
proof -
  let ?j = "claim ''w'' 50 (sample_job 8 0 0)"
  let ?db = "sample_db [sample_document 108] [?j]"
  have "process_transaction sample_env (task_of ?j) ?db \<noteq> Hangs"
    using process_transaction_hangs [of sample_env "task_of ?j" ?db] worker_pipeline_returns by auto
  then obtain db' where db': "process_single_job sample_env (task_of ?j) ?db = Some db'"
    by (cases "process_transaction sample_env (task_of ?j) ?db") (auto simp: process_single_job_def)
  then have "stored_all sample_env ?j ?db db' \<or> recorded_failure sample_env ?j ?db db' \<or> unrecorded_failure sample_env ?j ?db db'"
    by (intro process_all_or_nothing) simp_all
  with db' show ?thesis unfolding Let_def by blast
qed

subsection \<open>The loop drains the queue\<close>

text \<open>
  Errors whose text the database takes: those of the object store, the PDF library and the embedding
  model are assumed to be such; those of the worker's own code are, for a stored MIME type.
\<close>

definition clear :: "(exn, 'a) outcome \<Rightarrow> bool" where
  "clear r = (case r of Inl e \<Rightarrow> storable_text (exn_str e) | Inr _ \<Rightarrow> True)"

definition storable_type :: "string option \<Rightarrow> bool" where
  "storable_type m = (case m of None \<Rightarrow> True | Some s \<Rightarrow> storable_text s)"

definition storable_types :: "database \<Rightarrow> bool" where
  "storable_types db \<longleftrightarrow> (\<forall>d \<in> set (documents db). storable_type (d_mime_type d))"

definition clear_env :: "worker_env \<Rightarrow> bool" where
  "clear_env env \<longleftrightarrow> (\<forall>key. clear (download env key)) \<and>
     (\<forall>f mime r. storable_type mime \<longrightarrow> pipeline env f mime = Some r \<longrightarrow> clear r)"

lemma clear_simps [simp]: "clear (Inr x)" "clear (Inl e) = storable_text (exn_str e)"
  by (simp_all add: clear_def)

lemma clear_bind: "clear r \<Longrightarrow> (\<And>x. r = Inr x \<Longrightarrow> clear (k x)) \<Longrightarrow> clear (try_bind r k)"
  by (cases r) simp_all

lemma set_normal_mime: "storable_type m \<Longrightarrow> CHR 0x00 \<notin> set (normal_mime m)"
proof -
  assume m: "storable_type m"
  have zero: "lower_char c = CHR 0x00 \<Longrightarrow> c = CHR 0x00" for c
  proof -
    assume "lower_char c = CHR 0x00"
    then have "of_char (lower_char c) = (0 :: nat)" by simp
    moreover have "n \<le> 222 \<Longrightarrow> \<not> 256 dvd n + 32" for n :: nat by (auto dest: dvd_imp_le)
    moreover have "of_char c = (0 :: nat) \<Longrightarrow> c = CHR 0x00"
      using of_char_eq_iff [of c "CHR 0x00", where 'a = nat] by simp
    ultimately show ?thesis by (auto simp: lower_char_def Let_def split: if_splits)
  qed
  let ?s = "lower (case m of None \<Rightarrow> [] | Some s \<Rightarrow> s)"
  have "set (hd (py_split '';'' ?s)) \<subseteq> set ?s"
    using py_join_split [of "'';''" ?s] py_join_Cons [of "tl (py_split '';'' ?s)" "'';''" "hd (py_split '';'' ?s)"]
      py_split_not_Nil [of "'';''" ?s]
    by (cases "py_split '';'' ?s"; cases "tl (py_split '';'' ?s)") auto
  then have "set (normal_mime m) \<subseteq> set ?s"
    using set_mono_sublist [OF sublist_strip [of "hd (py_split '';'' ?s)"]] unfolding normal_mime_def by blast
  with m show ?thesis
    by (auto simp: storable_type_def storable_text_def lower_def dest!: zero zero [OF sym] subsetD split: option.splits)
qed

lemma clear_chunks: "\<forall>ts. clear (encode ts) \<Longrightarrow> worker_chunker st encode tx = Some r \<Longrightarrow> clear r"
proof -
  assume enc: "\<forall>ts. clear (encode ts)"
  have percent: "percentile xs p = Inl e \<Longrightarrow> e = IndexError" for xs p e
    by (auto simp: percentile_def py_index_def Let_def split: if_splits)
  show "worker_chunker st encode tx = Some r \<Longrightarrow> clear r"
    using enc [rule_format, of "sentence_windows (buffer_size (worker_semantic_chunker st)) (sentences_of (strip tx))"]
    by (auto simp: worker_chunker_def recursive_chunk_def semantic_chunk_def Let_def make_chunker_def storable_text_def
        split: if_splits sum.splits dest!: percent)
qed

lemma clear_worker_env:
  assumes "pipeline env = worker_pipeline decode pypdf encode st"
    and "\<forall>key. clear (download env key)" and "\<forall>ts. clear (encode ts)" and "\<forall>pages f. pypdf = Some pages \<longrightarrow> clear (pages f)"
  shows "clear_env env"
proof -
  have ext: "clear (extract_text decode pypdf f mime)" if "storable_type mime" for f mime
    using assms(4) set_normal_mime [OF that]
    by (auto simp: extract_text_def extract_pdf_text_def Let_def storable_text_def intro!: clear_bind split: option.splits)
  have chk: "clear r" if "worker_chunker st encode tx = Some r" for tx r
    using clear_chunks [OF assms(3) that] .
  have "clear r" if "storable_type mime" "process decode pypdf encode (worker_chunker st encode) f mime = Some r" for f mime r
  proof (cases "extract_text decode pypdf f mime")
    case (Inl e)
    with that ext [OF that(1), of f] show ?thesis by (auto simp: process_def)
  next
    case (Inr tx)
    from assms(3) have "clear (encode ts)" for ts by simp
    with that(2) Inr chk [of tx] show ?thesis
      by (auto simp: process_def split: sum.splits option.splits if_splits) (metis clear_simps(2))
  qed
  with assms(2) show ?thesis by (simp add: clear_env_def assms(1) worker_pipeline_def)
qed

lemma clear_complete: "clear (complete_job new_id now tx j d chs u t db)"
proof -
  have "clear (insert_chunk r db)" for r db
    by (simp add: insert_chunk_def checked_insert_def storable_text_def)
  then have "clear (add_chunks new_id n d u t tx chs db)" for n db
    by (induction chs arbitrary: n db) (auto intro: clear_bind)
  then show ?thesis by (auto simp: complete_job_def intro: clear_bind)
qed

lemma clear_runs:
  assumes "clear_env env" and "storable_types db" and "process_transaction env t db = Raised e"
  shows "storable_text (exn_str e)"
proof -
  obtain ok db1 where m: "mark_running (t_job_id t) (t_version t) (app_now env) db = (ok, db1)" by force
  with jobs_mark_running(3) [of "t_job_id t" "t_version t" "app_now env" db] have docs: "documents db1 = documents db" by simp
  have missing: "storable_text (exn_str (ValueError (''Document '' @ uuid_str u @ '' not found or has no storage key.'')))" for u
    using uuid_str_nonzero by (simp add: storable_text_def)
  have type: "storable_type (d_mime_type d)"
    if "scalars_first (filter (\<lambda>d. d_id d = t_document_id t) (documents db)) = Some d" for d
    using assms(2) scalars_first_in [OF that] by (auto simp: storable_types_def)
  note loads = assms(1) [unfolded clear_env_def, THEN conjunct1, rule_format]
    and runs = assms(1) [unfolded clear_env_def, THEN conjunct2, rule_format, OF type]
  note stores = clear_complete [of "fresh_id env" "app_now env" "db_now env" "t_job_id t" "t_document_id t" _ "t_user_id t" "t_tenant_id t" db1]
  show ?thesis
    using assms(3) m docs missing
    by (auto simp: process_transaction_def split: if_splits option.splits sum.splits)
      (metis loads runs stores clear_simps(2))+
qed

text \<open>The jobs after a task that was just claimed has been processed.\<close>

lemma process_single_job_jobs:
  assumes "job_ids.keyed db" and "j \<in> set (jobs db)"
    and "process_single_job env (task_of j) db = Some db'"
    and "clear_env env" and "storable_types db"
  shows "\<exists>j'. jobs db' = map (\<lambda>k. if j_id k = j_id j then j' else k) (jobs db) \<and> j_id j' = j_id j \<and>
    j_attempt_count j' = j_attempt_count j \<and> j_max_attempts j' = j_max_attempts j \<and>
    (j_status j' \<in> {JobCompleted, JobDead} \<or> claimable j')"
proof -
  have same: "k = j" if "k \<in> set (jobs db)" "j_id k = j_id j" for k
    using job_ids.unique [OF assms(1) that(1) assms(2) that(2)] .
  show ?thesis
  proof (cases "process_transaction env (task_of j) db")
    case Skipped
    with assms(2) show ?thesis by (auto simp: process_transaction_skipped task_of_def)
  next
    case (Committed db1)
    with assms(3) have "db' = db1" by (simp add: process_single_job_def)
    then show ?thesis
      using same by (intro exI [of _ "j \<lparr>j_status := JobCompleted, j_started_at := Some (app_now env),
                         j_version := j_version j + 1, j_completed_at := Some (app_now env)\<rparr>"])
        (auto simp: committed_jobs [OF Committed] task_of_def)
  next
    case (Raised e)
    with clear_runs [OF assms(4,5)] fail_transaction_Inl [of env "task_of j" e db] assms(3)
    have "fail_transaction env (task_of j) e db = Inr db'"
      by (cases "fail_transaction env (task_of j) e db") (auto simp: process_single_job_def)
    from fail_transaction_rows(1) [OF this] show ?thesis
      using same by (intro exI [of _ "failed_row e (task_of j) j"]) (auto simp: failed_row_def task_of_def claimable_def)
  qed (use assms(3) in \<open>simp add: process_single_job_def\<close>)
qed

lemma process_single_job_types:
  assumes "process_single_job env t db = Some db'" and "storable_types db"
  shows "storable_types db'"
proof (cases "process_transaction env t db")
  case (Committed db1)
  with assms(1) process_transaction_committed [OF Committed] obtain chs where
    "complete_job (fresh_id env) (app_now env) (db_now env) (t_job_id t) (t_document_id t) chs
      (t_user_id t) (t_tenant_id t) (snd (mark_running (t_job_id t) (t_version t) (app_now env) db)) = Inr db'"
    by (auto simp: process_single_job_def)
  from complete_job_Inr(3) [OF this] assms(2) show ?thesis
    by (auto simp: storable_types_def set_update_where jobs_mark_running)
next
  case (Raised e)
  show ?thesis
  proof (cases "fail_transaction env t e db")
    case (Inr db1)
    with Raised assms fail_transaction_rows(3) [OF Inr] show ?thesis
      by (auto simp: process_single_job_def storable_types_def set_update_where)
  qed (use Raised assms in \<open>simp add: process_single_job_def\<close>)
qed (use assms in \<open>simp_all add: process_single_job_def\<close>)

definition settled :: "job \<Rightarrow> bool" where
  "settled j \<longleftrightarrow> j_status j \<notin> {JobClaimed, JobRunning} \<and> (j_status j = JobQueued \<longrightarrow> claimable j)"

definition attempt_budget :: "database \<Rightarrow> nat" where
  "attempt_budget db = (\<Sum>j\<leftarrow>jobs db. j_max_attempts j - j_attempt_count j)"

lemma reset_settled: "\<forall>j \<in> set (jobs db). settled j \<Longrightarrow> reset_stale_claims timeout now db = db"
  unfolding reset_stale_claims_def
  by (subst update_where_unchanged) (auto simp: settled_def stale_claim_def)

lemma worker_turn_settled:
  assumes keyed: "job_ids.keyed db" and settled: "\<forall>j \<in> set (jobs db). settled j"
    and turn: "worker_turn timeout w env db = Some db'" and clear: "clear_env env" "storable_types db"
  shows "job_ids.keyed db' \<and> (\<forall>j \<in> set (jobs db'). settled j) \<and> storable_types db' \<and>
    (db' = db \<and> (\<forall>j \<in> set (jobs db). \<not> claimable j) \<or> attempt_budget db' < attempt_budget db)"
  using keyed
proof (cases rule: claim_next_job_cases [where timeout = timeout and now = "app_now env"
      and tx_now = "db_now env" and locked = "{}" and w = w])
  case none
  with turn settled keyed clear(2) show ?thesis
    by (auto simp: worker_turn_def reset_settled next_job_None)
next
  case (claimed row)
  note claimed = claimed [unfolded reset_settled [OF settled]]
  let ?j = "claim w (db_now env) row"
  let ?db1 = "db \<lparr>jobs := update_where (\<lambda>j. j_id j = j_id row) (claim w (db_now env)) (jobs db)\<rparr>"
  note row = next_job_Some(1,2) [OF claimed(1)]
  have same: "k = row" if "k \<in> set (jobs db)" "j_id k = j_id row" for k
    using job_ids.unique [OF keyed that(1) row(1) that(2)] .
  have k1: "job_ids.keyed ?db1" using keyed by (rule job_ids.update_keyed) simp_all
  have mem: "?j \<in> set (jobs ?db1)" using row(1) by (auto simp: set_update_where)
  have run: "process_single_job env (task_of ?j) ?db1 = Some db'"
    using turn claimed by (simp add: worker_turn_def)
  have types: "storable_types ?db1" using clear(2) by (simp add: storable_types_def)
  from process_single_job_jobs [OF k1 mem run clear(1) types]
  obtain j' where j': "jobs db' = map (\<lambda>k. if j_id k = j_id row then j' else k) (jobs ?db1)"
    "j_id j' = j_id row" "j_attempt_count j' = Suc (j_attempt_count row)"
    "j_max_attempts j' = j_max_attempts row" "j_status j' \<in> {JobCompleted, JobDead} \<or> claimable j'"
    unfolding claim_simps by blast
  have jobs': "jobs db' = map (\<lambda>k. if j_id k = j_id row then j' else k) (jobs db)"
    unfolding j'(1) by (simp add: update_where_def comp_def)
  have "attempt_budget db' + (j_max_attempts row - j_attempt_count row) =
      attempt_budget db + (j_max_attempts row - Suc (j_attempt_count row))"
    using sum_list_replace [of j_id "jobs db" row "\<lambda>j. j_max_attempts j - j_attempt_count j" j']
      keyed row(1) j'(2,3,4) by (simp add: attempt_budget_def jobs' job_ids.keyed_def comp_def)
  then have "attempt_budget db' < attempt_budget db" using row(2) unfolding claimable_def by linarith
  moreover have "job_ids.keyed db'"
    using keyed unfolding job_ids.keyed_def jobs' by (simp add: comp_def if_distrib j'(2) cong: if_cong)
  moreover have "\<forall>j \<in> set (jobs db'). settled j"
    using settled j'(5) unfolding jobs' by (auto simp: settled_def claimable_def)
  moreover have "storable_types db'" by (rule process_single_job_types [OF run types])
  ultimately show ?thesis by blast
qed

lemma worker_turn_idle:
  assumes "job_ids.keyed db" and "\<forall>j \<in> set (jobs db). settled j"
    and "\<forall>j \<in> set (jobs db). \<not> claimable j" and "worker_turn timeout w env db = Some db'"
  shows "db' = db"
proof -
  have "next_job {} db = None" using assms(3) by (simp add: next_job_None)
  with assms(4) show ?thesis
    by (simp add: worker_turn_def claim_next_job_def reset_settled [OF assms(2)])
qed

lemma worker_turn_returns:
  assumes "pipeline env = worker_pipeline decode pypdf encode st"
  shows "\<exists>db'. worker_turn timeout w env db = Some db'"
proof -
  have "pipeline env data mime \<noteq> None" for data mime
    using worker_pipeline_returns by (simp add: assms)
  then have "process_transaction env t db1 \<noteq> Hangs" for t db1
    using process_transaction_hangs by blast
  then show ?thesis
    by (auto simp: worker_turn_def process_single_job_def split: prod.splits option.splits attempt_result.splits)
qed

lemma attempt_budget_0: "attempt_budget db = 0 \<Longrightarrow> j \<in> set (jobs db) \<Longrightarrow> \<not> claimable j"
  by (auto simp: attempt_budget_def claimable_def)

lemma worker_turns_drain:
  assumes "\<forall>env \<in> set envs. pipeline env = worker_pipeline decode pypdf encode st \<and> clear_env env"
    and "job_ids.keyed db" and "\<forall>j \<in> set (jobs db). settled j" and "storable_types db"
    and "attempt_budget db \<le> length envs \<or> (\<forall>j \<in> set (jobs db). \<not> claimable j)"
  shows "\<exists>db'. worker_turns timeout w envs db = Some db' \<and>
    (\<forall>j \<in> set (jobs db'). settled j \<and> \<not> claimable j)"
  using assms
proof (induction envs arbitrary: db)
  case Nil
  then show ?case using attempt_budget_0 by auto
next
  case (Cons env envs)
  obtain db1 where db1: "worker_turn timeout w env db = Some db1"
    using worker_turn_returns [of env decode pypdf encode st timeout w db] Cons.prems(1) by auto
  have "clear_env env" using Cons.prems(1) by simp
  note turn = worker_turn_settled [OF Cons.prems(2,3) db1 this Cons.prems(4)]
  have "attempt_budget db1 \<le> length envs \<or> (\<forall>j \<in> set (jobs db1). \<not> claimable j)"
    using turn Cons.prems(5) worker_turn_idle [OF Cons.prems(2,3) _ db1] by auto
  with Cons.IH [of db1] Cons.prems(1) turn db1 show ?case by auto
qed

text \<open>
  Claim C8 (liveness): a worker alone drains the queue.  Start with jobs none of which is in
  progress and whose queued ones have attempts left.  Whatever the files, the object store, the PDF
  library and the embedding model do, provided the text of an error they raise is one the database
  can store, as many turns of the loop as there are attempts left all return, and after them every
  job is completed, dead or failed: none is queued or claimed.
\<close>

theorem worker_drains_queue:
  assumes "job_ids.keyed db" and "\<forall>j \<in> set (jobs db). settled j"
    and "\<forall>env \<in> set envs. pipeline env = worker_pipeline decode pypdf encode st \<and> (\<forall>key. clear (download env key))"
    and "\<forall>ts. clear (encode ts)" and "\<forall>pages f. pypdf = Some pages \<longrightarrow> clear (pages f)" and "storable_types db"
    and "attempt_budget db \<le> length envs"
  shows "\<exists>db'. worker_turns timeout w envs db = Some db' \<and>
    (\<forall>j \<in> set (jobs db'). j_status j \<in> {JobCompleted, JobDead, JobFailed})"
proof -
  have "\<forall>env \<in> set envs. pipeline env = worker_pipeline decode pypdf encode st \<and> clear_env env"
    using assms(3) clear_worker_env [OF _ _ assms(4,5)] by blast
  from worker_turns_drain [OF this assms(1,2,6)] assms(7) obtain db' where
    db': "worker_turns timeout w envs db = Some db'"
    "\<forall>j \<in> set (jobs db'). settled j \<and> \<not> claimable j" by blast
  have "s \<notin> {JobQueued, JobClaimed, JobRunning} \<Longrightarrow> s \<in> {JobCompleted, JobDead, JobFailed}" for s
    by (cases s) simp_all
  with db' show ?thesis by (intro exI [of _ db']) (auto simp: settled_def)
qed

theorem worker_drains_queue_witness:
  "\<exists>db'. worker_turns 10 ''w'' [sample_env, sample_env, sample_env]
       (sample_db [sample_document 108] [sample_job 8 0 0]) = Some db' \<and>
     (\<forall>j \<in> set (jobs db'). j_status j \<in> {JobCompleted, JobDead, JobFailed})"
proof (rule worker_drains_queue [where decode = id and pypdf = None
      and encode = "\<lambda>ts. Inr (map (\<lambda>_. replicate embedding_dim 0) ts)"
      and st = "\<lparr>chunking_strategy = ''recursive'', chunking_semantic_threshold_percentile = 85,
                chunking_semantic_buffer_size = 1\<rparr>"])
  show "job_ids.keyed (sample_db [sample_document 108] [sample_job 8 0 0])"
    by (simp add: job_ids.keyed_def)
qed (simp_all add: settled_def claimable_def attempt_budget_def storable_types_def storable_type_def storable_text_def)

end
