(* ===== verification/Machine.thy ===== *)
theory Machine
  imports Main
begin

section \<open>Invariants of transition systems\<close>

text \<open>
  The contract under which a property holds in every reachable state: it holds initially and
  every step keeps it.  The components that are state machines interpret it.
\<close>

locale transition_invariant =
  fixes init :: "'s \<Rightarrow> bool" and step :: "'s \<Rightarrow> 's \<Rightarrow> bool" and inv :: "'s \<Rightarrow> bool"
  assumes inv_init: "init s \<Longrightarrow> inv s"
    and inv_step: "step s s' \<Longrightarrow> inv s \<Longrightarrow> inv s'"
begin

lemma inv_later: "step\<^sup>*\<^sup>* s s' \<Longrightarrow> inv s \<Longrightarrow> inv s'"
  by (induction rule: rtranclp_induct) (auto intro: inv_step)

lemma inv_reachable: "init s \<Longrightarrow> step\<^sup>*\<^sup>* s s' \<Longrightarrow> inv s'"
  using inv_init inv_later by blast

end

section \<open>Refinement of deterministic machines\<close>

text \<open>
  A machine answers each event with an output.  A concrete machine refines an abstract one when
  related states answer every event alike and stay related; then they answer every trace alike.
\<close>

fun outputs :: "('e \<Rightarrow> 's \<Rightarrow> 'o \<times> 's) \<Rightarrow> 'e list \<Rightarrow> 's \<Rightarrow> 'o list" where
  "outputs step [] s = []"
| "outputs step (e # es) s = fst (step e s) # outputs step es (snd (step e s))"

fun final_state :: "('e \<Rightarrow> 's \<Rightarrow> 'o \<times> 's) \<Rightarrow> 'e list \<Rightarrow> 's \<Rightarrow> 's" where
  "final_state step [] s = s"
| "final_state step (e # es) s = final_state step es (snd (step e s))"

locale machine_refinement =
  fixes cstep :: "'e \<Rightarrow> 'c \<Rightarrow> 'o \<times> 'c" and astep :: "'e \<Rightarrow> 'a \<Rightarrow> 'o \<times> 'a" and rel :: "'c \<Rightarrow> 'a \<Rightarrow> bool"
  assumes same_output: "rel c a \<Longrightarrow> fst (cstep e c) = fst (astep e a)"
    and stay_related: "rel c a \<Longrightarrow> rel (snd (cstep e c)) (snd (astep e a))"
begin

lemma same_outputs: "rel c a \<Longrightarrow> outputs cstep es c = outputs astep es a"
  by (induction es arbitrary: c a) (simp_all add: same_output stay_related)

lemma final_related: "rel c a \<Longrightarrow> rel (final_state cstep es c) (final_state astep es a)"
  by (induction es arbitrary: c a) (simp_all add: stay_related)

end

end
