(* ===== verification/Workers.thy ===== *)
theory Workers
  imports Worker Machine
begin

section \<open>Several workers on one queue\<close>

text \<open>
  The system of any number of workers, the API that queues jobs, and worker crashes, as a step
  relation.  A \<open>flight\<close> is a task in some worker: its transaction still to run, or rolled back
  with an exception and its \<open>fail_job\<close> transaction still to run.  Each step is one committed
  transaction of \<open>src/ingestion/worker.py\<close> or the loss of a flight: a crash, or a
  \<open>fail_job\<close> that itself raises, which the worker logs and drops.
\<close>

datatype flight = Processing task | Failing task exn

fun flight_task :: "flight \<Rightarrow> task" where
  "flight_task (Processing t) = t"
| "flight_task (Failing t e) = t"

record system =
  sys_db :: database
  sys_flights :: "flight list"

definition new_job :: "job \<Rightarrow> bool" where
  "new_job j \<longleftrightarrow> j_status j = JobQueued \<and> j_attempt_count j = 0 \<and> j_max_attempts j = 3 \<and> j_version j = 1"

inductive worker_step :: "system \<Rightarrow> system \<Rightarrow> bool" where
  claims: "claim_next_job timeout now tx_now locked w (sys_db s) = (Some j, db') \<Longrightarrow>
    worker_step s \<lparr>sys_db = db', sys_flights = sys_flights s @ [Processing (task_of j)]\<rparr>"
| idles: "claim_next_job timeout now tx_now locked w (sys_db s) = (None, db') \<Longrightarrow>
    worker_step s (s \<lparr>sys_db := db'\<rparr>)"
| commits: "sys_flights s = as @ Processing t # bs \<Longrightarrow>
    process_transaction env t (sys_db s) = Committed db' \<Longrightarrow>
    worker_step s \<lparr>sys_db = db', sys_flights = as @ bs\<rparr>"
| skips: "sys_flights s = as @ Processing t # bs \<Longrightarrow>
    process_transaction env t (sys_db s) = Skipped \<Longrightarrow>
    worker_step s (s \<lparr>sys_flights := as @ bs\<rparr>)"
| raises: "sys_flights s = as @ Processing t # bs \<Longrightarrow>
    process_transaction env t (sys_db s) = Raised e \<Longrightarrow>
    worker_step s (s \<lparr>sys_flights := as @ Failing t e # bs\<rparr>)"
| fails: "sys_flights s = as @ Failing t e # bs \<Longrightarrow>
    fail_transaction env t e (sys_db s) = Inr db' \<Longrightarrow>
    worker_step s \<lparr>sys_db = db', sys_flights = as @ bs\<rparr>"
| refuses: "sys_flights s = as @ Failing t e # bs \<Longrightarrow>
    fail_transaction env t e (sys_db s) = Inl e' \<Longrightarrow>
    worker_step s (s \<lparr>sys_flights := as @ bs\<rparr>)"
| crashes: "sys_flights s = as @ f # bs \<Longrightarrow> worker_step s (s \<lparr>sys_flights := as @ bs\<rparr>)"
| enqueues: "insert_job j (sys_db s) = Inr db' \<Longrightarrow> new_job j \<Longrightarrow> worker_step s (s \<lparr>sys_db := db'\<rparr>)"
| others: "jobs db' = jobs (sys_db s) \<Longrightarrow> chunks db' = chunks (sys_db s) \<Longrightarrow>
    worker_step s (s \<lparr>sys_db := db'\<rparr>)"

definition start :: "system \<Rightarrow> bool" where
  "start s \<longleftrightarrow> jobs (sys_db s) = [] \<and> sys_flights s = []"

abbreviation sys_jobs :: "system \<Rightarrow> job list" where
  "sys_jobs s \<equiv> jobs (sys_db s)"

abbreviation tasks :: "system \<Rightarrow> task list" where
  "tasks s \<equiv> map flight_task (sys_flights s)"

subsection \<open>How a step changes the jobs\<close>

text \<open>Rows keep their place and identity, versions never decrease, and new rows come last.\<close>

definition evolves :: "job list \<Rightarrow> job list \<Rightarrow> bool" where
  "evolves js js' \<longleftrightarrow> (\<exists>f new. js' = map f js @ new \<and>
     (\<forall>j \<in> set js. j_id (f j) = j_id j \<and> j_version j \<le> j_version (f j)))"

lemma evolves_map:
  "(\<And>j. j \<in> set js \<Longrightarrow> j_id (f j) = j_id j \<and> j_version j \<le> j_version (f j)) \<Longrightarrow> evolves js (map f js)"
  unfolding evolves_def by (intro exI [of _ f] exI [of _ "[]"]) simp

lemma evolves_refl [simp]: "evolves js js"
  using evolves_map [of js id] by simp

lemma evolves_trans: "evolves js ks \<Longrightarrow> evolves ks ls \<Longrightarrow> evolves js ls"
proof -
  assume "evolves js ks" "evolves ks ls"
  then obtain f new g new' where ks: "ks = map f js @ new"
    "\<forall>j \<in> set js. j_id (f j) = j_id j \<and> j_version j \<le> j_version (f j)"
    and ls: "ls = map g ks @ new'"
    "\<forall>j \<in> set ks. j_id (g j) = j_id j \<and> j_version j \<le> j_version (g j)"
    unfolding evolves_def by blast
  have "ls = map (g \<circ> f) js @ (map g new @ new')" by (simp add: ls ks)
  moreover have "\<forall>j \<in> set js. j_id ((g \<circ> f) j) = j_id j \<and> j_version j \<le> j_version ((g \<circ> f) j)"
    using ks ls by (force intro: order.trans)
  ultimately show ?thesis unfolding evolves_def by blast
qed

lemma evolves_later:
  assumes "evolves js js'" and "j \<in> set js"
  shows "\<exists>j' \<in> set js'. j_id j' = j_id j \<and> j_version j \<le> j_version j'"
  using assms by (auto simp: evolves_def)

text \<open>The reset of a stale claim, and a claim, row by row.\<close>

definition refresh :: "timestamp \<Rightarrow> job \<Rightarrow> job" where
  "refresh cutoff j = (if stale_claim cutoff j then requeue j else j)"

lemma refresh_simps [simp]:
  "j_id (refresh c j) = j_id j" "j_version (refresh c j) = j_version j"
  "j_attempt_count (refresh c j) = j_attempt_count j" "j_max_attempts (refresh c j) = j_max_attempts j"
  by (simp_all add: refresh_def)

lemma jobs_reset_refresh:
  "jobs (reset_stale_claims timeout now db) = map (refresh (now - minutes timeout)) (jobs db)"
  by (simp add: jobs_reset update_where_def refresh_def)

lemma claim_None_jobs:
  assumes "job_ids.keyed db" and "claim_next_job timeout now tx_now locked w db = (None, db')"
  shows "jobs db' = map (refresh (now - minutes timeout)) (jobs db)"
    and "chunks db' = chunks db"
proof -
  from assms have "db' = reset_stale_claims timeout now db"
    by (cases rule: claim_next_job_cases [OF assms(1), where timeout = timeout and now = now
          and tx_now = tx_now and locked = locked and w = w]) simp_all
  then show "jobs db' = map (refresh (now - minutes timeout)) (jobs db)" "chunks db' = chunks db"
    by (simp_all add: jobs_reset_refresh) (simp add: reset_stale_claims_def)
qed

lemma claim_Some_jobs:
  assumes "job_ids.keyed db" and "claim_next_job timeout now tx_now locked w db = (Some j, db')"
  shows "\<exists>row \<in> set (jobs db). let row' = refresh (now - minutes timeout) row in
    claimable row' \<and> j = claim w tx_now row' \<and>
    jobs db' = map (\<lambda>k. if j_id k = j_id row then j else refresh (now - minutes timeout) k) (jobs db)"
proof -
  from claim_takes_row [OF assms] obtain row' where
    row': "row' \<in> set (jobs (reset_stale_claims timeout now db))" "claimable row'"
    "j = claim w tx_now row'"
    and js: "jobs db' = map (\<lambda>k. if j_id k = j_id j then j else k) (jobs (reset_stale_claims timeout now db))"
    by blast
  from row'(1) obtain row where "row \<in> set (jobs db)" "row' = refresh (now - minutes timeout) row"
    by (auto simp: jobs_reset_refresh)
  with row' js show ?thesis
    by (intro bexI [of _ row]) (simp_all add: jobs_reset_refresh comp_def Let_def)
qed

subsection \<open>The invariant of the queue\<close>

text \<open>
  Job ids are unique; no row is committed as running or failed, and no row has more attempts than
  its maximum; every flight belongs to a job whose version has reached the flight's; no two
  flights carry the same version of a job; and a completed job has outrun all its flights.
\<close>

definition row_ok :: "job \<Rightarrow> bool" where
  "row_ok j \<longleftrightarrow> j_status j \<notin> {JobRunning, JobFailed} \<and> j_attempt_count j \<le> j_max_attempts j"

definition flight_ok :: "job list \<Rightarrow> task \<Rightarrow> bool" where
  "flight_ok js t \<longleftrightarrow> (\<exists>j \<in> set js. j_id j = t_job_id t \<and> t_version t \<le> j_version j \<and>
     (j_status j = JobCompleted \<longrightarrow> t_version t < j_version j))"

abbreviation task_key :: "task \<Rightarrow> uuid \<times> nat" where
  "task_key t \<equiv> (t_job_id t, t_version t)"

definition queue_inv :: "system \<Rightarrow> bool" where
  "queue_inv s \<longleftrightarrow> job_ids.keyed (sys_db s) \<and> (\<forall>j \<in> set (sys_jobs s). row_ok j) \<and>
     (\<forall>t \<in> set (tasks s). flight_ok (sys_jobs s) t) \<and> distinct (map task_key (tasks s))"

lemma queue_invD:
  assumes "queue_inv s"
  shows "job_ids.keyed (sys_db s)" "j \<in> set (sys_jobs s) \<Longrightarrow> row_ok j"
    "t \<in> set (tasks s) \<Longrightarrow> flight_ok (sys_jobs s) t" "distinct (map task_key (tasks s))"
  using assms by (auto simp: queue_inv_def)

lemma keyed_map:
  "job_ids.keyed db \<Longrightarrow> jobs db' = map f (jobs db) \<Longrightarrow> (\<And>j. j_id (f j) = j_id j) \<Longrightarrow> job_ids.keyed db'"
  by (simp add: job_ids.keyed_def comp_def)

text \<open>A map of the rows that keeps ids and versions, and completes nothing, keeps the flights.\<close>

lemma flight_ok_map:
  assumes "flight_ok js t" and "\<And>j. j \<in> set js \<Longrightarrow> j_id (f j) = j_id j \<and> j_version j \<le> j_version (f j) \<and>
      (j_status (f j) = JobCompleted \<longrightarrow> j_status j = JobCompleted \<or> j_version j < j_version (f j))"
  shows "flight_ok (map f js) t"
proof -
  from assms(1) obtain j where j: "j \<in> set js" "j_id j = t_job_id t" "t_version t \<le> j_version j"
    "j_status j = JobCompleted \<longrightarrow> t_version t < j_version j" by (auto simp: flight_ok_def)
  with assms(2) [OF j(1)] show ?thesis
    unfolding flight_ok_def set_map by (intro bexI [of _ "f j"]) auto
qed

lemma row_ok_refresh: "row_ok j \<Longrightarrow> row_ok (refresh c j)"
  by (auto simp: row_ok_def refresh_def)

lemma row_ok_claim: "claimable j \<Longrightarrow> row_ok (claim w n j)"
  by (auto simp: row_ok_def claimable_def)

lemma row_ok_failed: "row_ok j \<Longrightarrow> row_ok (failed_row e t j)"
  by (auto simp: row_ok_def failed_row_def)

lemma refresh_completed: "j_status (refresh c j) = JobCompleted \<longleftrightarrow> j_status j = JobCompleted"
  by (auto simp: refresh_def stale_claim_def)

lemma inv_claims:
  assumes inv: "queue_inv s"
    and cl: "claim_next_job timeout now tx_now locked w (sys_db s) = (Some j, db')"
  shows "queue_inv \<lparr>sys_db = db', sys_flights = sys_flights s @ [Processing (task_of j)]\<rparr>"
proof -
  note inv = queue_invD [OF inv]
  let ?c = "now - minutes timeout"
  from claim_Some_jobs [OF inv(1) cl] obtain row where row: "row \<in> set (sys_jobs s)"
    "claimable (refresh ?c row)" "j = claim w tx_now (refresh ?c row)"
    and js: "jobs db' = map (\<lambda>k. if j_id k = j_id row then j else refresh ?c k) (sys_jobs s)"
    unfolding Let_def by blast
  have same: "k = row" if "k \<in> set (sys_jobs s)" "j_id k = j_id row" for k
    using job_ids.unique [OF inv(1) that(1) row(1) that(2)] .
  have "job_ids.keyed db'" using inv(1) js by (rule keyed_map) (simp add: row(3))
  moreover have "\<forall>k \<in> set (jobs db'). row_ok k"
    using inv(2) row_ok_claim [OF row(2)] by (auto simp: js row(3) row_ok_refresh)
  moreover have "flight_ok (jobs db') t" if "t \<in> set (tasks s)" for t
    using inv(3) [OF that] unfolding js
    by (rule flight_ok_map) (auto simp: row(3) refresh_completed dest: same)
  moreover have "flight_ok (jobs db') (task_of j)"
  proof -
    have "j \<in> set (jobs db')" using row(1) by (auto simp: js)
    then show ?thesis
      unfolding flight_ok_def by (intro bexI [of _ j]) (simp_all add: task_of_def row(3))
  qed
  moreover have "task_key (task_of j) \<notin> task_key ` set (tasks s)"
  proof
    assume "task_key (task_of j) \<in> task_key ` set (tasks s)"
    then obtain t where "task_key (task_of j) = task_key t" "t \<in> set (tasks s)"
      by (rule imageE)
    then have t: "t \<in> set (tasks s)" "t_job_id t = j_id row" "t_version t = Suc (j_version row)"
      by (simp_all add: task_of_def row(3))
    with inv(3) [OF t(1)] show False by (auto simp: flight_ok_def dest: same)
  qed
  ultimately show ?thesis using inv(4) by (auto simp: queue_inv_def)
qed

lemma inv_commits:
  assumes inv: "queue_inv s" and fl: "sys_flights s = as @ Processing t # bs"
    and run: "process_transaction env t (sys_db s) = Committed db'"
  shows "queue_inv \<lparr>sys_db = db', sys_flights = as @ bs\<rparr>"
proof -
  note inv = queue_invD [OF inv]
  note js = committed_jobs [OF run]
  from process_transaction_committed [OF run] obtain j where j: "j \<in> set (sys_jobs s)"
    "j_id j = t_job_id t" "j_version j = t_version t" by blast
  have same: "k = j" if "k \<in> set (sys_jobs s)" "j_id k = t_job_id t" for k
    using job_ids.unique [OF inv(1) that(1) j(1)] that(2) j(2) by simp
  have "job_ids.keyed db'" using inv(1) js by (rule keyed_map) simp
  moreover have "\<forall>k \<in> set (jobs db'). row_ok k"
    using inv(2) by (auto simp: js row_ok_def)
  moreover have "flight_ok (jobs db') t'" if "t' \<in> set (tasks s)" for t'
    using inv(3) [OF that] unfolding js by (rule flight_ok_map) (auto simp: j dest: same)
  ultimately show ?thesis using inv(4) fl by (auto simp: queue_inv_def)
qed

lemma inv_fails:
  assumes inv: "queue_inv s" and fl: "sys_flights s = as @ Failing t e # bs"
    and run: "fail_transaction env t e (sys_db s) = Inr db'"
  shows "queue_inv \<lparr>sys_db = db', sys_flights = as @ bs\<rparr>"
proof -
  note inv = queue_invD [OF inv]
  note js = fail_transaction_rows(1) [OF run]
  have "job_ids.keyed db'"
    using inv(1) js by (rule keyed_map) (simp add: failed_row_def)
  moreover have "\<forall>k \<in> set (jobs db'). row_ok k"
    using inv(2) by (auto simp: js row_ok_failed)
  moreover have "flight_ok (jobs db') t'"
    if "t' \<in> set (tasks s)" for t'
    using inv(3) [OF that] unfolding js by (rule flight_ok_map) (auto simp: failed_row_def)
  ultimately show ?thesis using inv(4) fl by (auto simp: queue_inv_def)
qed

lemma inv_enqueues:
  assumes inv: "queue_inv s" and ins: "insert_job j (sys_db s) = Inr db'" and new: "new_job j"
  shows "queue_inv (s \<lparr>sys_db := db'\<rparr>)"
proof -
  note inv = queue_invD [OF inv]
  have js: "jobs db' = sys_jobs s @ [j]" using ins by (rule job_ids.ins_appends)
  have "row_ok j" using new by (simp add: new_job_def row_ok_def)
  then show ?thesis
    using inv job_ids.ins_keyed [OF inv(1) ins] by (auto simp: queue_inv_def js flight_ok_def)
qed

lemma queue_inv_step:
  assumes "worker_step s s'" and "queue_inv s"
  shows "queue_inv s'"
  using assms(1)
proof cases
  case (idles timeout now tx_now locked w db')
  note inv = queue_invD [OF assms(2)]
  note js = claim_None_jobs(1) [OF inv(1) idles(2)]
  have "flight_ok (jobs db') t" if "t \<in> set (tasks s)" for t
    using inv(3) [OF that] unfolding js by (rule flight_ok_map) (auto simp: refresh_completed)
  moreover have "job_ids.keyed db'" using inv(1) js by (rule keyed_map) simp
  ultimately show ?thesis
    using inv unfolding idles(1) by (auto simp: queue_inv_def js row_ok_refresh)
next
  case (others db')
  with assms(2) show ?thesis by (simp add: queue_inv_def job_ids.keyed_def)
next
  case (skips as t bs env)
  with assms(2) show ?thesis by (simp add: queue_inv_def)
next
  case (raises as t bs env e)
  with assms(2) show ?thesis by (simp add: queue_inv_def)
next
  case (refuses as t e bs env e')
  with assms(2) show ?thesis by (simp add: queue_inv_def)
next
  case (crashes as f bs)
  with assms(2) show ?thesis by (simp add: queue_inv_def)
qed (use assms(2) inv_claims inv_commits inv_fails inv_enqueues in \<open>metis\<close>)+

interpretation queue: transition_invariant start worker_step queue_inv
proof
  show "start s \<Longrightarrow> queue_inv s" for s
    by (simp add: start_def queue_inv_def job_ids.keyed_def)
qed (rule queue_inv_step)

lemma step_evolves:
  assumes "worker_step s s'" and "queue_inv s"
  shows "evolves (sys_jobs s) (sys_jobs s')"
  using assms(1)
proof cases
  case (claims timeout now tx_now locked w j db')
  from claim_Some_jobs [OF queue_invD(1) [OF assms(2)] claims(2)] obtain row where
    row: "row \<in> set (sys_jobs s)" "j = claim w tx_now (refresh (now - minutes timeout) row)"
    and js: "jobs db' = map (\<lambda>k. if j_id k = j_id row then j else refresh (now - minutes timeout) k) (sys_jobs s)"
    unfolding Let_def by blast
  have same: "k = row" if "k \<in> set (sys_jobs s)" "j_id k = j_id row" for k
    using job_ids.unique [OF queue_invD(1) [OF assms(2)] that(1) row(1) that(2)] .
  show ?thesis unfolding claims(1) by (simp add: js, intro evolves_map) (auto simp: row(2) dest: same)
next
  case (idles timeout now tx_now locked w db')
  from claim_None_jobs(1) [OF queue_invD(1) [OF assms(2)] idles(2)] show ?thesis
    unfolding idles(1) by (simp, intro evolves_map) simp
next
  case (commits as t bs env db')
  show ?thesis
    unfolding commits(1) by (simp add: committed_jobs [OF commits(3)], intro evolves_map) auto
next
  case (fails as t e bs env db')
  show ?thesis
    unfolding fails(1) by (simp add: fail_transaction_rows(1) [OF fails(3)], intro evolves_map) (auto simp: failed_row_def)
next
  case (enqueues j db')
  have "sys_jobs s' = map id (sys_jobs s) @ [j]"
    using job_ids.ins_appends [OF enqueues(2)] enqueues(1) by simp
  then show ?thesis unfolding evolves_def by (intro exI [of _ id] exI [of _ "[j]"]) simp
qed simp_all

lemma steps_evolve:
  assumes "worker_step\<^sup>*\<^sup>* s s'" and "queue_inv s"
  shows "evolves (sys_jobs s) (sys_jobs s')"
  using assms(1)
proof (induction rule: rtranclp_induct)
  case (step s1 s2)
  then show ?case
    using step_evolves [OF step.hyps(2) queue.inv_later [OF step.hyps(1) assms(2)]] evolves_trans by blast
qed simp

text \<open>The row of a job in a later state has at least the version it has now.\<close>

lemma later_version:
  assumes "worker_step\<^sup>*\<^sup>* s s'" and "queue_inv s" and "j \<in> set (sys_jobs s)"
    and "j' \<in> set (sys_jobs s')" and "j_id j' = j_id j"
  shows "j_version j \<le> j_version j'"
proof -
  from evolves_later [OF steps_evolve [OF assms(1,2)] assms(3)] obtain k where
    k: "k \<in> set (sys_jobs s')" "j_id k = j_id j" "j_version j \<le> j_version k" by blast
  have "k = j'"
    using job_ids.unique [OF queue_invD(1) [OF queue.inv_later [OF assms(1,2)]] k(1) assms(4)] k(2) assms(5)
    by simp
  with k(3) show ?thesis by simp
qed

subsection \<open>A run in which a failure arrives late\<close>

text \<open>
  Worker A claims job 8 and its transaction raises.  Before its \<open>fail_job\<close>, the claim goes
  stale, worker B claims the job and completes it.  Then A's \<open>fail_job\<close>, which does not look
  at the version, puts the completed job back into the queue; C claims it and completes it again.
\<close>

abbreviation run_env :: "uuid \<Rightarrow> worker_env" where
  "run_env base \<equiv>
     \<lparr>app_now = 60, db_now = 50, fresh_id = (\<lambda>n. base + n), download = (\<lambda>_. Inr ''Hi.''),
      pipeline = (\<lambda>_ _. Some (Inr [\<lparr>cd_content = ''Hi.'', cd_embedding = replicate embedding_dim 0,
                                      cd_chunk_index = 0, cd_page_number = None\<rparr>]))\<rparr>"

abbreviation failing_env :: worker_env where
  "failing_env \<equiv> (run_env 0) \<lparr>download := (\<lambda>_. Inl (App (ExternalServiceError ''MinIO'' ''down'')))\<rparr>"

abbreviation run_error :: exn where
  "run_error \<equiv> App (ExternalServiceError ''MinIO'' ''down'')"

abbreviation finished :: "job \<Rightarrow> job" where
  "finished j \<equiv> j \<lparr>j_status := JobCompleted, j_started_at := Some 60, j_version := j_version j + 1,
                  j_completed_at := Some 60\<rparr>"

abbreviation run_chunk :: "uuid \<Rightarrow> chunk_row" where
  "run_chunk cid \<equiv>
     \<lparr>c_id = cid, c_document_id = 108, c_user_id = 1, c_tenant_id = 2, c_content = ''Hi.'',
      c_page_number = None, c_chunk_index = 0, c_embedding = replicate embedding_dim 0,
      c_created_at = 50\<rparr>"

abbreviation ready_document :: document where
  "ready_document \<equiv> (sample_document 108) \<lparr>d_status := DocReady, d_chunk_count := 1, d_updated_at := 60\<rparr>"

definition row_a :: job where
  "row_a = claim ''A'' 0 (sample_job 8 0 0)"

definition row_b :: job where
  "row_b = claim ''B'' 660000000 (requeue row_a)"

definition row_late :: job where
  "row_late = failed_row run_error (task_of row_a) (finished row_b)"

definition row_c :: job where
  "row_c = claim ''C'' 670000000 row_late"

definition db_queued :: database where
  "db_queued = sample_db [sample_document 108] [sample_job 8 0 0]"

definition db_completed :: database where
  "db_completed = (sample_db [ready_document] [finished row_b]) \<lparr>chunks := [run_chunk 1000]\<rparr>"

lemmas run_rows = row_a_def row_b_def row_late_def row_c_def failed_row_def task_of_def

lemmas run_defs = run_rows claim_def requeue_def claim_next_job_def reset_stale_claims_def
  next_job_def order_by_asc_def claimable_def stale_claim_def minutes_def

lemma enqueue_sample:
  "worker_step \<lparr>sys_db = sample_db [sample_document 108] [], sys_flights = []\<rparr>
     \<lparr>sys_db = db_queued, sys_flights = []\<rparr>"
  using worker_step.enqueues [of "sample_job 8 0 0"
      "\<lparr>sys_db = sample_db [sample_document 108] [], sys_flights = []\<rparr>" db_queued]
  by (simp add: insert_job_def new_job_def db_queued_def fits_def)

lemma claim_a:
  "claim_next_job 10 0 0 {} ''A'' db_queued = (Some row_a, db_queued \<lparr>jobs := [row_a]\<rparr>)"
  by (simp add: run_defs db_queued_def)

lemma raise_a: "process_transaction failing_env (task_of row_a) (db_queued \<lparr>jobs := [row_a]\<rparr>) = Raised run_error"
  by (simp add: process_transaction_def mark_running_def run_rows db_queued_def claim_def)

lemma claim_b:
  "claim_next_job 10 660000000 660000000 {} ''B'' (db_queued \<lparr>jobs := [row_a]\<rparr>) =
     (Some row_b, db_queued \<lparr>jobs := [row_b]\<rparr>)"
  by (simp add: run_defs db_queued_def)

lemma commit_b:
  "process_transaction (run_env 1000) (task_of row_b) (db_queued \<lparr>jobs := [row_b]\<rparr>) = Committed db_completed"
  by (simp add: process_transaction_def mark_running_def run_rows db_queued_def claim_def requeue_def
      db_completed_def complete_job_def insert_chunk_def storable_text_def checked_insert_def)

lemma fail_a:
  "fail_transaction failing_env (task_of row_a) run_error db_completed = Inr (db_completed \<lparr>jobs := [row_late]\<rparr>)"
  by (simp add: fail_transaction_def fail_job_def storable_text_def db_completed_def run_rows claim_def requeue_def)

lemma claim_c:
  "claim_next_job 10 670000000 670000000 {} ''C'' (db_completed \<lparr>jobs := [row_late]\<rparr>) =
     (Some row_c, db_completed \<lparr>jobs := [row_c]\<rparr>)"
  by (simp add: run_defs db_completed_def)

lemma commit_c:
  "process_transaction (run_env 2000) (task_of row_c) (db_completed \<lparr>jobs := [row_c]\<rparr>) =
     Committed (db_completed \<lparr>jobs := [finished row_c], chunks := [run_chunk 1000, run_chunk 2000]\<rparr>)"
  by (simp add: process_transaction_def mark_running_def run_rows db_completed_def claim_def requeue_def
      complete_job_def insert_chunk_def storable_text_def checked_insert_def)

abbreviation sys :: "database \<Rightarrow> flight list \<Rightarrow> system" where
  "sys db fs \<equiv> \<lparr>sys_db = db, sys_flights = fs\<rparr>"

lemma run_until_b_claims:
  "worker_step\<^sup>*\<^sup>* (sys (sample_db [sample_document 108] []) [])
     (sys (db_queued \<lparr>jobs := [row_b]\<rparr>) [Failing (task_of row_a) run_error, Processing (task_of row_b)])"
proof -
  have "worker_step (sys db_queued []) (sys (db_queued \<lparr>jobs := [row_a]\<rparr>) [Processing (task_of row_a)])"
    using worker_step.claims [of 10 0 0 "{}" "''A''" "sys db_queued []", simplified, OF claim_a] .
  moreover have "worker_step (sys (db_queued \<lparr>jobs := [row_a]\<rparr>) [Processing (task_of row_a)])
      (sys (db_queued \<lparr>jobs := [row_a]\<rparr>) [Failing (task_of row_a) run_error])"
    using worker_step.raises [of "sys (db_queued \<lparr>jobs := [row_a]\<rparr>) [Processing (task_of row_a)]" "[]"
        "task_of row_a" "[]" failing_env run_error] raise_a by simp
  moreover have "worker_step (sys (db_queued \<lparr>jobs := [row_a]\<rparr>) [Failing (task_of row_a) run_error])
      (sys (db_queued \<lparr>jobs := [row_b]\<rparr>) [Failing (task_of row_a) run_error, Processing (task_of row_b)])"
    using worker_step.claims [of 10 660000000 660000000 "{}" "''B''"
        "sys (db_queued \<lparr>jobs := [row_a]\<rparr>) [Failing (task_of row_a) run_error]", simplified, OF claim_b]
    by simp
  ultimately show ?thesis
    using enqueue_sample by (meson converse_rtranclp_into_rtranclp rtranclp.rtrancl_refl)
qed

lemma b_commits:
  "worker_step (sys (db_queued \<lparr>jobs := [row_b]\<rparr>) [Failing (task_of row_a) run_error, Processing (task_of row_b)])
     (sys db_completed [Failing (task_of row_a) run_error])"
  using worker_step.commits [of "sys (db_queued \<lparr>jobs := [row_b]\<rparr>)
      [Failing (task_of row_a) run_error, Processing (task_of row_b)]" "[Failing (task_of row_a) run_error]"
      "task_of row_b" "[]", simplified, OF commit_b] .

lemma a_fails_c_completes:
  "worker_step\<^sup>*\<^sup>* (sys db_completed [Failing (task_of row_a) run_error])
     (sys (db_completed \<lparr>jobs := [finished row_c], chunks := [run_chunk 1000, run_chunk 2000]\<rparr>) [])"
proof -
  have "worker_step (sys db_completed [Failing (task_of row_a) run_error])
      (sys (db_completed \<lparr>jobs := [row_late]\<rparr>) [])"
    using worker_step.fails [of "sys db_completed [Failing (task_of row_a) run_error]" "[]"
        "task_of row_a" run_error "[]" failing_env] fail_a by simp
  moreover have "worker_step (sys (db_completed \<lparr>jobs := [row_late]\<rparr>) [])
      (sys (db_completed \<lparr>jobs := [row_c]\<rparr>) [Processing (task_of row_c)])"
    using worker_step.claims [of 10 670000000 670000000 "{}" "''C''"
        "sys (db_completed \<lparr>jobs := [row_late]\<rparr>) []", simplified, OF claim_c] by simp
  moreover have "worker_step (sys (db_completed \<lparr>jobs := [row_c]\<rparr>) [Processing (task_of row_c)])
      (sys (db_completed \<lparr>jobs := [finished row_c], chunks := [run_chunk 1000, run_chunk 2000]\<rparr>) [])"
    using worker_step.commits [of "sys (db_completed \<lparr>jobs := [row_c]\<rparr>) [Processing (task_of row_c)]" "[]"
        "task_of row_c" "[]" "run_env 2000"] commit_c by simp
  ultimately show ?thesis
    by (meson converse_rtranclp_into_rtranclp rtranclp.rtrancl_refl)
qed

subsection \<open>What the queue guarantees\<close>

text \<open>
  Claim C5 (invariant): whatever the interleaving of workers, crashes and uploads, from an empty
  queue no job ever has more attempts than its maximum, no job is ever seen by another
  transaction as running or failed, and no two workers ever hold the same version of a job.
\<close>

theorem queue_rows_valid:
  assumes "start s" and "worker_step\<^sup>*\<^sup>* s s'"
  shows "(\<forall>j \<in> set (sys_jobs s'). j_attempt_count j \<le> j_max_attempts j \<and>
      j_status j \<noteq> JobRunning \<and> j_status j \<noteq> JobFailed) \<and>
    distinct (map (\<lambda>t. (t_job_id t, t_version t)) (tasks s'))"
  using queue_invD(2,4) [OF queue.inv_reachable [OF assms]] by (auto simp: row_ok_def)

theorem queue_rows_valid_witness:
  "(let s' = sys (db_queued \<lparr>jobs := [row_b]\<rparr>)
        [Failing (task_of row_a) run_error, Processing (task_of row_b)]
    in (\<forall>j \<in> set (sys_jobs s'). j_attempt_count j \<le> j_max_attempts j \<and>
          j_status j \<noteq> JobRunning \<and> j_status j \<noteq> JobFailed) \<and>
       distinct (map (\<lambda>t. (t_job_id t, t_version t)) (tasks s')))"
  unfolding Let_def
  by (rule queue_rows_valid [OF _ run_until_b_claims]) (simp add: start_def)

text \<open>
  Claim C1 (safety): one winner per job.  Once the transaction of a task commits, every other
  task for the same job whose own transaction is still to run fails its version check for ever:
  whenever it runs later, it is skipped and changes nothing.  (A task that had already raised has
  no transaction to run any more but its report to \<open>fail_job\<close>, which checks no version.)
\<close>

theorem one_winner_per_job:
  assumes "start s0" and "worker_step\<^sup>*\<^sup>* s0 s" and "sys_flights s = as @ Processing t # bs"
    and "process_transaction env t (sys_db s) = Committed db'"
    and "Processing t' \<in> set (as @ bs)" and "t_job_id t' = t_job_id t"
    and "worker_step\<^sup>*\<^sup>* \<lparr>sys_db = db', sys_flights = as @ bs\<rparr> s'"
  shows "process_transaction env' t' (sys_db s') = Skipped"
proof -
  have inv: "queue_inv s" by (rule queue.inv_reachable [OF assms(1,2)])
  have inv': "queue_inv \<lparr>sys_db = db', sys_flights = as @ bs\<rparr>" by (rule inv_commits [OF inv assms(3,4)])
  from process_transaction_committed [OF assms(4)] obtain j where j: "j \<in> set (sys_jobs s)"
    "j_id j = t_job_id t" "j_version j = t_version t" by blast
  have notin: "task_key t \<notin> task_key ` flight_task ` set (as @ bs)"
    using queue_invD(4) [OF inv] by (auto simp: assms(3))
  have mem: "t' \<in> flight_task ` set (as @ bs)"
    using imageI [OF assms(5), of flight_task] by (simp only: flight_task.simps)
  have neq: "task_key t' \<noteq> task_key t"
  proof
    assume "task_key t' = task_key t"
    with imageI [OF mem, of task_key] notin show False by (simp only:)
  qed
  have "flight_ok (sys_jobs s) t'"
    using queue_invD(3) [OF inv, of t'] mem by (auto simp: assms(3))
  then obtain k0 where k0: "k0 \<in> set (sys_jobs s)" "j_id k0 = t_job_id t'" "t_version t' \<le> j_version k0"
    by (auto simp: flight_ok_def)
  then have "k0 = j"
    using job_ids.unique [OF queue_invD(1) [OF inv] k0(1) j(1)] j(2) assms(6) by simp
  with k0(3) j(3) assms(6) neq have less: "t_version t' < t_version t" by auto
  let ?k = "j \<lparr>j_status := JobCompleted, j_started_at := Some (app_now env),
               j_version := t_version t + 1, j_completed_at := Some (app_now env)\<rparr>"
  have k: "?k \<in> set (jobs db')" "j_id ?k = t_job_id t" "j_version ?k = Suc (t_version t)"
    unfolding committed_jobs [OF assms(4)] set_map using j by (auto intro!: rev_image_eqI [of j])
  have "t_version t < j_version k'" if "k' \<in> set (sys_jobs s')" "j_id k' = t_job_id t" for k'
    using later_version [OF assms(7) inv', of ?k k'] k that by simp
  with less assms(6) show ?thesis
    unfolding process_transaction_skipped by (metis less_asym)
qed

lemma run_with_two_claims:
  "worker_step\<^sup>*\<^sup>* (sys (sample_db [sample_document 108] []) [])
     (sys (db_queued \<lparr>jobs := [row_b]\<rparr>) [Processing (task_of row_a), Processing (task_of row_b)])"
proof -
  have "worker_step (sys db_queued []) (sys (db_queued \<lparr>jobs := [row_a]\<rparr>) [Processing (task_of row_a)])"
    using worker_step.claims [of 10 0 0 "{}" "''A''" "sys db_queued []", simplified, OF claim_a] .
  moreover have "worker_step (sys (db_queued \<lparr>jobs := [row_a]\<rparr>) [Processing (task_of row_a)])
      (sys (db_queued \<lparr>jobs := [row_b]\<rparr>) [Processing (task_of row_a), Processing (task_of row_b)])"
    using worker_step.claims [of 10 660000000 660000000 "{}" "''B''"
        "sys (db_queued \<lparr>jobs := [row_a]\<rparr>) [Processing (task_of row_a)]", simplified, OF claim_b]
    by simp
  ultimately show ?thesis
    using enqueue_sample by (meson converse_rtranclp_into_rtranclp rtranclp.rtrancl_refl)
qed

theorem one_winner_per_job_witness:
  "process_transaction (run_env 3000) (task_of row_a) (sys_db (sys db_completed [Processing (task_of row_a)])) =
     Skipped"
proof (rule one_winner_per_job [OF _ run_with_two_claims, where as = "[Processing (task_of row_a)]" and bs = "[]"
      and t = "task_of row_b" and env = "run_env 1000" and db' = db_completed])
  show "process_transaction (run_env 1000) (task_of row_b)
      (sys_db (sys (db_queued \<lparr>jobs := [row_b]\<rparr>) [Processing (task_of row_a), Processing (task_of row_b)])) =
    Committed db_completed"
    using commit_b by simp
qed (simp_all add: start_def task_of_def row_a_def row_b_def)

text \<open>
  Claim C27 (safety): a completed job is final, except for a late failure.  A step of the system
  leaves the row of a completed job as it is, unless the step is the \<open>fail_job\<close> transaction of
  a task for that very job, and that task then holds a version older than the row's.
\<close>

theorem completed_only_reopened_late:
  assumes "start s0" and "worker_step\<^sup>*\<^sup>* s0 s" and "worker_step s s'"
    and "j \<in> set (sys_jobs s)" and "j_status j = JobCompleted"
  shows "j \<in> set (sys_jobs s') \<or>
    (\<exists>t e env. Failing t e \<in> set (sys_flights s) \<and> t_job_id t = j_id j \<and>
       t_version t < j_version j \<and> fail_transaction env t e (sys_db s) = Inr (sys_db s'))"
proof -
  have inv: "queue_inv s" by (rule queue.inv_reachable [OF assms(1,2)])
  note keyed = queue_invD(1) [OF inv]
  have same: "k = j" if "k \<in> set (sys_jobs s)" "j_id k = j_id j" for k
    using job_ids.unique [OF keyed that(1) assms(4) that(2)] .
  have fresh: "refresh c j = j" for c using assms(5) by (simp add: refresh_def stale_claim_def)
  have older: "t_version t < j_version j" if "t \<in> set (tasks s)" "t_job_id t = j_id j" for t
    using queue_invD(3) [OF inv that(1)] that(2) assms(5) by (auto simp: flight_ok_def dest: same)
  have kept: "j \<in> f ` set (sys_jobs s)" if "f j = j" for f
    using assms(4) that by (intro rev_image_eqI [of j]) simp_all
  from assms(3) show ?thesis
  proof cases
    case (claims timeout now tx_now locked w r db')
    from claim_Some_jobs [OF keyed claims(2)] obtain row where
      row: "row \<in> set (sys_jobs s)" "claimable (refresh (now - minutes timeout) row)"
      and js: "jobs db' = map (\<lambda>k. if j_id k = j_id row then r else refresh (now - minutes timeout) k) (sys_jobs s)"
      unfolding Let_def by blast
    have "row \<noteq> j" using row(2) assms(5) fresh by (auto simp: claimable_def)
    then have "j_id j \<noteq> j_id row" using same [OF row(1)] by auto
    with fresh have "j \<in> set (jobs db')" unfolding js set_map by (intro kept) simp
    then show ?thesis by (simp add: claims(1))
  next
    case (idles timeout now tx_now locked w db')
    with fresh kept claim_None_jobs(1) [OF keyed idles(2)] show ?thesis by simp
  next
    case (commits as t bs env db')
    have "j_id j \<noteq> t_job_id t"
    proof
      assume "j_id j = t_job_id t"
      then have "t_version t < j_version j" by (intro older) (simp_all add: commits(2))
      with process_transaction_committed [OF commits(3)] \<open>j_id j = t_job_id t\<close> show False
        by (auto dest: same)
    qed
    then have "j \<in> set (jobs db')" unfolding committed_jobs [OF commits(3)] set_map by (intro kept) simp
    then show ?thesis by (simp add: commits(1))
  next
    case (fails as t e bs env db')
    show ?thesis
    proof (cases "t_job_id t = j_id j")
      case True
      then have "t_version t < j_version j" by (intro older) (simp_all add: fails(2))
      with True fails show ?thesis by auto
    next
      case False
      then have "j \<in> set (jobs db')" unfolding fail_transaction_rows(1) [OF fails(3)] set_map by (intro kept) simp
      then show ?thesis by (simp add: fails(1))
    qed
  next
    case (enqueues k db')
    with assms(4) job_ids.ins_appends [OF enqueues(2)] show ?thesis by simp
  qed (use assms(4) in simp_all)
qed

theorem completed_only_reopened_late_witness:
  "(let s = sys db_completed [Failing (task_of row_a) run_error]; s' = sys (db_completed \<lparr>jobs := [row_late]\<rparr>) []
    in finished row_b \<in> set (sys_jobs s') \<or>
       (\<exists>t e env. Failing t e \<in> set (sys_flights s) \<and> t_job_id t = j_id (finished row_b) \<and>
          t_version t < j_version (finished row_b) \<and> fail_transaction env t e (sys_db s) = Inr (sys_db s')))"
  unfolding Let_def
proof (rule completed_only_reopened_late)
  show "start (sys (sample_db [sample_document 108] []) [])" by (simp add: start_def)
  show "worker_step\<^sup>*\<^sup>* (sys (sample_db [sample_document 108] []) [])
      (sys db_completed [Failing (task_of row_a) run_error])"
    using run_until_b_claims b_commits by (rule rtranclp.rtrancl_into_rtrancl)
  show "worker_step (sys db_completed [Failing (task_of row_a) run_error])
      (sys (db_completed \<lparr>jobs := [row_late]\<rparr>) [])"
    using worker_step.fails [of "sys db_completed [Failing (task_of row_a) run_error]" "[]"
        "task_of row_a" run_error "[]" failing_env] fail_a by simp
qed (simp_all add: db_completed_def)

text \<open>
  The late failure really happens.  There is a run of the system in which a
  job is completed with its one chunk stored, its document says that it has one chunk, and later
  the same job is completed a second time: the document's only chunk is then stored twice.
\<close>

theorem late_failure_duplicates_chunks:
  "\<exists>s0 s1 s2. start s0 \<and> worker_step\<^sup>*\<^sup>* s0 s1 \<and> worker_step\<^sup>*\<^sup>* s1 s2 \<and>
     map (\<lambda>j. (j_document_id j, j_status j)) (sys_jobs s1) = [(108, JobCompleted)] \<and>
     map (\<lambda>c. (c_document_id c, c_chunk_index c, c_content c)) (chunks (sys_db s1)) = [(108, 0, ''Hi.'')] \<and>
     map (\<lambda>c. (c_document_id c, c_chunk_index c, c_content c)) (chunks (sys_db s2)) =
       [(108, 0, ''Hi.''), (108, 0, ''Hi.'')] \<and>
     map (\<lambda>d. (d_id d, d_chunk_count d)) (documents (sys_db s2)) = [(108, 1)]"
proof -
  have "worker_step\<^sup>*\<^sup>* (sys (sample_db [sample_document 108] []) [])
      (sys db_completed [Failing (task_of row_a) run_error])"
    using run_until_b_claims b_commits by (rule rtranclp.rtrancl_into_rtrancl)
  moreover note a_fails_c_completes
  moreover have "start (sys (sample_db [sample_document 108] []) [])" by (simp add: start_def)
  ultimately show ?thesis
    by (intro exI conjI) (assumption | simp add: db_completed_def row_b_def row_a_def)+
qed

subsection \<open>A job that crashes on its last attempt\<close>

text \<open>
  A queued job without attempts left and without a flight is never touched again: no claim takes
  it, no step fails it, and its document is left pending.
\<close>

definition stranded :: "job \<Rightarrow> system \<Rightarrow> bool" where
  "stranded j s \<longleftrightarrow> queue_inv s \<and> j \<in> set (sys_jobs s) \<and> j_status j = JobQueued \<and>
     j_attempt_count j = j_max_attempts j \<and> (\<forall>t \<in> set (tasks s). t_job_id t \<noteq> j_id j)"

lemma stranded_step:
  assumes "worker_step s s'" and stranded: "stranded j s"
  shows "stranded j s'"
proof -
  have inv: "queue_inv s" and j: "j \<in> set (sys_jobs s)" "j_status j = JobQueued"
      "j_attempt_count j = j_max_attempts j"
    and idle: "\<And>t. t \<in> set (tasks s) \<Longrightarrow> t_job_id t \<noteq> j_id j"
    using stranded by (auto simp: stranded_def)
  note keyed = queue_invD(1) [OF inv]
  have fresh: "refresh c j = j" for c using j(2) by (simp add: refresh_def stale_claim_def)
  have "j \<in> set (sys_jobs s') \<and> (\<forall>t \<in> set (tasks s'). t_job_id t \<noteq> j_id j)"
    using assms(1)
  proof cases
    case (claims timeout now tx_now locked w r db')
    from claim_Some_jobs [OF keyed claims(2)] obtain row where
      row: "row \<in> set (sys_jobs s)" "claimable (refresh (now - minutes timeout) row)"
        "r = claim w tx_now (refresh (now - minutes timeout) row)"
      and js: "jobs db' = map (\<lambda>k. if j_id k = j_id row then r else refresh (now - minutes timeout) k) (sys_jobs s)"
      unfolding Let_def by blast
    have "row \<noteq> j" using row(2) j fresh by (auto simp: claimable_def)
    then have neq: "j_id j \<noteq> j_id row" using job_ids.unique [OF keyed row(1) j(1)] by auto
    with j(1) fresh have "j \<in> set (jobs db')"
      unfolding js set_map by (intro rev_image_eqI [of j]) simp_all
    with neq idle show ?thesis by (auto simp: claims(1) task_of_def row(3))
  next
    case (idles timeout now tx_now locked w db')
    have "j \<in> set (jobs db')"
      unfolding claim_None_jobs(1) [OF keyed idles(2)] set_map
      using j(1) fresh by (intro rev_image_eqI [of j]) simp_all
    with idle show ?thesis by (simp add: idles(1))
  next
    case (commits as t bs env db')
    then have "j_id j \<noteq> t_job_id t" using idle by force
    with j(1) have "j \<in> set (jobs db')"
      unfolding committed_jobs [OF commits(3)] set_map by (intro rev_image_eqI [of j]) simp_all
    with idle show ?thesis by (auto simp: commits(1,2))
  next
    case (fails as t e bs env db')
    then have "t_job_id t \<noteq> j_id j" using idle by force
    with j(1) have "j \<in> set (jobs db')"
      unfolding fail_transaction_rows(1) [OF fails(3)] set_map by (intro rev_image_eqI [of j]) simp_all
    with idle show ?thesis by (auto simp: fails(1,2))
  next
    case (enqueues k db')
    with j(1) idle job_ids.ins_appends [OF enqueues(2)] show ?thesis by simp
  qed (use j(1) idle in auto)
  with queue_inv_step [OF assms(1) inv] j show ?thesis by (simp add: stranded_def)
qed

interpretation stranded: transition_invariant "stranded j" worker_step "stranded j" for j
  by unfold_locales (auto intro: stranded_step)

text \<open>
  Claim C38 (liveness): a job whose last attempt crashes stays in the queue for ever.  Once a
  queued job has used all its attempts and no worker holds it, its row is the same in every later
  state, still queued; it is never claimed, and never marked dead.
\<close>

theorem exhausted_job_stranded:
  assumes "start s0" and "worker_step\<^sup>*\<^sup>* s0 s" and "j \<in> set (sys_jobs s)"
    and "j_status j = JobQueued" and "j_attempt_count j = j_max_attempts j"
    and "j_id j \<notin> t_job_id ` set (tasks s)" and "worker_step\<^sup>*\<^sup>* s s'"
  shows "j \<in> set (sys_jobs s')"
proof -
  have "\<forall>t \<in> set (tasks s). t_job_id t \<noteq> j_id j" using assms(6) by (metis imageI)
  then have "stranded j s"
    unfolding stranded_def using assms(3,4,5) queue.inv_reachable [OF assms(1,2)] by blast
  with stranded.inv_later [OF assms(7)] show ?thesis by (simp add: stranded_def)
qed

definition row_2 :: job where
  "row_2 = claim ''A'' 660000000 (requeue row_a)"

definition row_3 :: job where
  "row_3 = claim ''A'' 1320000000 (requeue row_2)"

lemma claims_crashing:
  "claim_next_job 10 660000000 660000000 {} ''A'' (db_queued \<lparr>jobs := [row_a]\<rparr>) =
     (Some row_2, db_queued \<lparr>jobs := [row_2]\<rparr>)"
  "claim_next_job 10 1320000000 1320000000 {} ''A'' (db_queued \<lparr>jobs := [row_2]\<rparr>) =
     (Some row_3, db_queued \<lparr>jobs := [row_3]\<rparr>)"
  "claim_next_job 10 1980000000 1980000000 {} ''A'' (db_queued \<lparr>jobs := [row_3]\<rparr>) =
     (None, db_queued \<lparr>jobs := [requeue row_3]\<rparr>)"
  by (simp_all add: run_defs db_queued_def row_2_def row_3_def)

text \<open>A claim whose worker crashes at once.\<close>

lemma claim_and_crash:
  assumes "claim_next_job timeout now tx_now locked w db = (Some j, db')"
  shows "worker_step\<^sup>*\<^sup>* (sys db []) (sys db' [])"
proof -
  have "worker_step (sys db []) (sys db' [Processing (task_of j)])"
    using worker_step.claims [of timeout now tx_now locked w "sys db []"] assms by simp
  moreover have "worker_step (sys db' [Processing (task_of j)]) (sys db' [])"
    using worker_step.crashes [of "sys db' [Processing (task_of j)]" "[]" _ "[]"] by simp
  ultimately show ?thesis by (meson converse_rtranclp_into_rtranclp rtranclp.rtrancl_refl)
qed

lemma run_until_stranded:
  "worker_step\<^sup>*\<^sup>* (sys (sample_db [sample_document 108] []) []) (sys (db_queued \<lparr>jobs := [requeue row_3]\<rparr>) [])"
proof -
  have "worker_step (sys (db_queued \<lparr>jobs := [row_3]\<rparr>) []) (sys (db_queued \<lparr>jobs := [requeue row_3]\<rparr>) [])"
    using worker_step.idles [of 10 1980000000 1980000000 "{}" "''A''" "sys (db_queued \<lparr>jobs := [row_3]\<rparr>) []",
        simplified, OF claims_crashing(3)] by simp
  with claim_and_crash [OF claims_crashing(2)] claim_and_crash [OF claims_crashing(1)]
    claim_and_crash [OF claim_a]
  show ?thesis
    by (meson enqueue_sample converse_rtranclp_into_rtranclp rtranclp.rtrancl_into_rtrancl rtranclp_trans)
qed

theorem exhausted_job_stranded_witness:
  "requeue row_3 \<in> set (sys_jobs (sys (db_queued \<lparr>jobs := [requeue row_3]\<rparr>) []))"
  by (rule exhausted_job_stranded [OF _ run_until_stranded])
    (simp_all add: start_def row_3_def row_2_def row_a_def)

end
