(* ===== verification/Tenancy.thy ===== *)
theory Tenancy
  imports Models Machine
begin

section \<open>Organizations, members and invitations\<close>

text \<open>
  \<open>src/tenants/service.py\<close>.  An operation maps the database to its result and the database it
  leaves; the session commits it or rolls it back.  The ids of new rows and the clock readings
  are arguments.
\<close>

subsection \<open>Slugs\<close>

definition slug_char :: "char \<Rightarrow> bool" where
  "slug_char ch \<longleftrightarrow> (let n = of_char ch :: nat in (97 \<le> n \<and> n \<le> 122) \<or> (48 \<le> n \<and> n \<le> 57))"

text \<open>\<open>re.sub("[^a-z0-9]+", "-", s)\<close>: \<open>in_run\<close> says that the run's dash is already written.\<close>

fun slug_sub :: "bool \<Rightarrow> string \<Rightarrow> string" where
  "slug_sub in_run [] = []"
| "slug_sub in_run (ch # rest) =
     (if slug_char ch then ch # slug_sub False rest
      else if in_run then slug_sub True rest
      else CHR ''-'' # slug_sub True rest)"

definition strip_dashes :: "string \<Rightarrow> string" where
  "strip_dashes s = rev (dropWhile (\<lambda>ch. ch = CHR ''-'') (rev (dropWhile (\<lambda>ch. ch = CHR ''-'') s)))"

definition slugify :: "string \<Rightarrow> string" where
  "slugify v = (let slug = strip_dashes (slug_sub False (lower v))
                in if slug \<noteq> [] then slug else ''organization'')"

subsection \<open>Organizations and members\<close>

definition create_organization ::
  "string \<Rightarrow> uuid \<Rightarrow> string option \<Rightarrow> uuid \<Rightarrow> uuid \<Rightarrow> timestamp \<Rightarrow>
     database \<Rightarrow> (exn, organization) outcome \<times> database" where
  "create_organization name owner_id slug new_org_id new_membership_id tx_now db =
     (let org = \<lparr>o_id = new_org_id, o_name = name,
                 o_slug = (case slug of None \<Rightarrow> slugify name
                           | Some s \<Rightarrow> if s \<noteq> [] then s else slugify name),
                 o_created_at = tx_now\<rparr>
      in case insert_organization org db of
           Inl IntegrityError \<Rightarrow> (Inl (App (ConflictError ''Organization slug already exists.'')), db)
         | Inl e \<Rightarrow> (Inl e, db)
         | Inr db1 \<Rightarrow>
             (case insert_membership
                     \<lparr>m_id = new_membership_id, m_org_id = new_org_id, m_user_id = owner_id,
                      m_role = Admin, m_created_at = tx_now\<rparr> db1 of
                Inl IntegrityError \<Rightarrow> (Inl (App (ConflictError ''Organization slug already exists.'')), db1)
              | Inl e \<Rightarrow> (Inl e, db1)
              | Inr db2 \<Rightarrow> (Inr org, db2)))"

definition create_personal_organization ::
  "uuid \<Rightarrow> string \<Rightarrow> uuid \<Rightarrow> uuid \<Rightarrow> timestamp \<Rightarrow> database \<Rightarrow> (exn, organization) outcome \<times> database" where
  "create_personal_organization user_id email new_org_id new_membership_id tx_now db =
     (let base = hd (py_split1 ''@'' email)
      in create_organization (base @ [CHR 0x27] @ ''s Workspace'') user_id
           (Some (''user-'' @ uuid_str user_id)) new_org_id new_membership_id tx_now db)"

definition list_memberships :: "uuid \<Rightarrow> database \<Rightarrow> membership list" where
  "list_memberships user_id db =
     order_by_asc m_created_at (filter (\<lambda>m. m_user_id m = user_id) (memberships db))"

definition resolve_membership ::
  "uuid \<Rightarrow> uuid option \<Rightarrow> database \<Rightarrow> (exn, membership) outcome" where
  "resolve_membership user_id org_id db =
     (let rows = order_by_asc m_created_at
            (filter (\<lambda>m. m_user_id m = user_id \<and>
                (case org_id of None \<Rightarrow> True | Some t \<Rightarrow> m_org_id m = t)) (memberships db))
      in case scalars_first rows of
           Some m \<Rightarrow> Inr m
         | None \<Rightarrow>
             if org_id \<noteq> None
             then Inl (App (AuthorizationError ''You are not a member of this organization.''))
             else Inl (App (NotFoundError ''Organization membership'' (uuid_str user_id))))"

definition require_role :: "role \<Rightarrow> role set \<Rightarrow> (exn, unit) outcome" where
  "require_role r allowed =
     (if r \<notin> allowed then Inl (App (AuthorizationError ''Insufficient organization role.'')) else Inr ())"

text \<open>The members with their e-mail addresses; every membership refers to a user.\<close>

definition list_org_members :: "uuid \<Rightarrow> database \<Rightarrow> (membership \<times> string) list" where
  "list_org_members org_id db =
     [(m, u_email u). m \<leftarrow> order_by_asc m_created_at (filter (\<lambda>m. m_org_id m = org_id) (memberships db)),
                      u \<leftarrow> users db, u_id u = m_user_id m]"

definition remove_member ::
  "uuid \<Rightarrow> uuid \<Rightarrow> uuid \<Rightarrow> database \<Rightarrow> (exn, unit) outcome \<times> database" where
  "remove_member org_id user_id_to_remove current_user_id db =
     (if user_id_to_remove = current_user_id
      then (Inl (App (ConflictError ''You cannot remove yourself from the organization.'')), db)
      else case scalar_one_or_none (filter (\<lambda>m. (m_org_id m, m_user_id m) =
                  (org_id, user_id_to_remove)) (memberships db)) of
             Inl e \<Rightarrow> (Inl e, db)
           | Inr None \<Rightarrow> (Inl (App (NotFoundError ''Organization membership'' (uuid_str user_id_to_remove))), db)
           | Inr (Some m) \<Rightarrow> (Inr (), db \<lparr>memberships := filter (\<lambda>k. m_id k \<noteq> m_id m) (memberships db)\<rparr>))"

subsection \<open>Invitations\<close>

definition days :: "int \<Rightarrow> timestamp" where
  "days n = n * 24 * 60 * 60 * 10 ^ 6"

definition pending_for :: "uuid \<Rightarrow> string \<Rightarrow> invite \<Rightarrow> bool" where
  "pending_for org_id email i \<longleftrightarrow> i_org_id i = org_id \<and> i_email i = email \<and> i_status i = Pending"

text \<open>The membership check of \<open>create_invite\<close>: whether a user with this address is a member.\<close>

definition member_check :: "uuid \<Rightarrow> string \<Rightarrow> database \<Rightarrow> (exn, unit) outcome" where
  "member_check org_id email db =
     try_bind (scalar_one_or_none (filter (\<lambda>u. u_email u = email) (users db))) (\<lambda>found.
       case found of
         None \<Rightarrow> Inr ()
       | Some u \<Rightarrow>
           try_bind (scalar_one_or_none (filter (\<lambda>m. (m_org_id m, m_user_id m) = (org_id, u_id u))
               (memberships db))) (\<lambda>m.
             if m \<noteq> None
             then Inl (App (ConflictError ''User is already a member of this organization.''))
             else Inr ()))"

definition create_invite ::
  "string \<Rightarrow> uuid \<Rightarrow> timestamp \<Rightarrow> timestamp \<Rightarrow> uuid \<Rightarrow> string \<Rightarrow> role \<Rightarrow> uuid \<Rightarrow>
     database \<Rightarrow> (exn, invite) outcome \<times> database" where
  "create_invite token_hash new_invite_id now tx_now org_id email r inviter_id db =
     (case member_check org_id email db of
        Inl e \<Rightarrow> (Inl e, db)
      | Inr _ \<Rightarrow>
          (case scalar_one_or_none (filter (pending_for org_id email) (invites db)) of
             Inl e \<Rightarrow> (Inl e, db)
           | Inr (Some _) \<Rightarrow>
               (Inl (App (ConflictError ''A pending invitation already exists for this email.'')), db)
           | Inr None \<Rightarrow>
               (let invite = \<lparr>i_id = new_invite_id, i_org_id = org_id, i_email = email, i_role = r,
                              i_token_hash = token_hash, i_status = Pending,
                              i_expires_at = now + days 7, i_created_at = tx_now,
                              i_accepted_at = None, i_created_by = Some inviter_id\<rparr>
                in case insert_invite invite db of
                     Inl e \<Rightarrow> (Inl e, db)
                   | Inr db1 \<Rightarrow> (Inr invite, db1))))"

definition list_pending_invites :: "string \<Rightarrow> database \<Rightarrow> invite list" where
  "list_pending_invites email db =
     order_by_desc i_created_at (filter (\<lambda>i. i_email i = email \<and> i_status i = Pending) (invites db))"

text \<open>The flush of a changed invitation, which the database checks against its status constraint.\<close>

definition flush_invite :: "invite \<Rightarrow> database \<Rightarrow> (exn, database) outcome" where
  "flush_invite i db =
     (if invite_status_valid (i_status i)
      then Inr (db \<lparr>invites := update_where (\<lambda>k. i_id k = i_id i) (\<lambda>_. i) (invites db)\<rparr>)
      else Inl IntegrityError)"

definition accept_invite ::
  "uuid \<Rightarrow> timestamp \<Rightarrow> timestamp \<Rightarrow> uuid \<Rightarrow> uuid \<Rightarrow> string \<Rightarrow>
     database \<Rightarrow> (exn, membership) outcome \<times> database" where
  "accept_invite new_membership_id now tx_now invite_id user_id email db =
     (case scalar_one_or_none (filter (\<lambda>i. i_id i = invite_id \<and> i_email i = email) (invites db)) of
        Inl e \<Rightarrow> (Inl e, db)
      | Inr None \<Rightarrow> (Inl (App (NotFoundError ''Invitation'' (uuid_str invite_id))), db)
      | Inr (Some i) \<Rightarrow>
          if i_status i \<noteq> Pending
          then (Inl (App (ConflictError (''Invitation is already '' @ invite_status_str (i_status i) @ ''.''))), db)
          else if i_expires_at i < now
          then (case flush_invite (i \<lparr>i_status := Expired\<rparr>) db of
                  Inl e \<Rightarrow> (Inl e, db)
                | Inr db1 \<Rightarrow> (Inl (App (ConflictError ''Invitation has expired.'')), db1))
          else (let m = \<lparr>m_id = new_membership_id, m_org_id = i_org_id i, m_user_id = user_id,
                         m_role = i_role i, m_created_at = tx_now\<rparr>
                in case try_bind (insert_membership m db)
                          (flush_invite (i \<lparr>i_status := Accepted, i_accepted_at := Some now\<rparr>)) of
                     Inl e \<Rightarrow> (Inl e, db)
                   | Inr db1 \<Rightarrow> (Inr m, db1)))"

subsection \<open>The shape of a slug\<close>

fun single_dashes :: "string \<Rightarrow> bool" where
  "single_dashes [] = True"
| "single_dashes (ch # rest) \<longleftrightarrow> \<not> (ch = CHR ''-'' \<and> rest \<noteq> [] \<and> hd rest = CHR ''-'') \<and> single_dashes rest"

definition slug_ok :: "string \<Rightarrow> bool" where
  "slug_ok s \<longleftrightarrow> s \<noteq> [] \<and> hd s \<noteq> CHR ''-'' \<and> last s \<noteq> CHR ''-'' \<and>
     (\<forall>ch \<in> set s. slug_char ch \<or> ch = CHR ''-'') \<and> single_dashes s"

lemma slug_char_dash [simp]: "\<not> slug_char (CHR ''-'')"
  by (simp add: slug_char_def)

lemma slug_sub_chars: "ch \<in> set (slug_sub r s) \<Longrightarrow> slug_char ch \<or> ch = CHR ''-''"
  by (induction r s rule: slug_sub.induct) (auto split: if_splits)

lemma slug_sub_run: "slug_sub True s \<noteq> [] \<Longrightarrow> hd (slug_sub True s) \<noteq> CHR ''-''"
  by (induction s) auto

lemma single_dashes_sub: "single_dashes (slug_sub r s)"
  by (induction r s rule: slug_sub.induct) (auto dest: slug_sub_run)

lemma length_slug_sub: "length (slug_sub r s) \<le> length s"
  by (induction r s rule: slug_sub.induct) auto

lemma single_dashes_append: "single_dashes (s @ t) \<Longrightarrow> single_dashes s \<and> single_dashes t"
  by (induction s) (auto simp: hd_append split: if_splits)

lemma strip_dashes_part: "\<exists>as bs. s = as @ strip_dashes s @ bs"
proof -
  let ?t = "dropWhile (\<lambda>ch. ch = CHR ''-'') s" and ?d = "\<lambda>ch. ch = CHR ''-''"
  have "rev (takeWhile ?d (rev ?t) @ dropWhile ?d (rev ?t)) = ?t"
    by (simp only: takeWhile_dropWhile_id rev_rev_ident)
  then have t: "strip_dashes s @ rev (takeWhile ?d (rev ?t)) = ?t"
    by (simp only: rev_append strip_dashes_def)
  have "takeWhile ?d s @ strip_dashes s @ rev (takeWhile ?d (rev ?t)) = s"
    by (simp only: t takeWhile_dropWhile_id)
  then show ?thesis by metis
qed

lemma strip_dashes_ends:
  assumes "strip_dashes s \<noteq> []"
  shows "hd (strip_dashes s) \<noteq> CHR ''-''" "last (strip_dashes s) \<noteq> CHR ''-''"
proof -
  let ?d = "\<lambda>ch. ch = CHR ''-''"
  let ?u = "dropWhile ?d (rev (dropWhile ?d s))"
  have u: "?u \<noteq> []" using assms by (simp add: strip_dashes_def)
  then show "last (strip_dashes s) \<noteq> CHR ''-''"
    using hd_dropWhile [of ?d "rev (dropWhile ?d s)"] by (simp add: strip_dashes_def last_rev)
  have ne: "dropWhile ?d s \<noteq> []"
  proof
    assume e: "dropWhile ?d s = []"
    show False using u unfolding e by simp
  qed
  have first: "hd (dropWhile ?d s) \<noteq> CHR ''-''" by (rule hd_dropWhile [OF ne])
  have "rev (takeWhile ?d (rev (dropWhile ?d s)) @ ?u) = dropWhile ?d s"
    by (simp only: takeWhile_dropWhile_id rev_rev_ident)
  then have "hd (rev ?u @ rev (takeWhile ?d (rev (dropWhile ?d s)))) = hd (dropWhile ?d s)"
    by (simp only: rev_append)
  moreover have "rev ?u \<noteq> []" by (simp only: rev_is_Nil_conv u not_False_eq_True)
  ultimately have "hd (rev ?u) = hd (dropWhile ?d s)" using hd_append2 by metis
  with first show "hd (strip_dashes s) \<noteq> CHR ''-''"
    unfolding strip_dashes_def by (simp only: not_False_eq_True)
qed

lemma slug_ok_slugify: "slug_ok (slugify v)"
proof (cases "strip_dashes (slug_sub False (lower v)) = []")
  case True
  then show ?thesis by (simp add: slugify_def slug_ok_def slug_char_def)
next
  case False
  let ?s = "slug_sub False (lower v)"
  obtain as bs where "?s = as @ strip_dashes ?s @ bs" using strip_dashes_part by blast
  then have "single_dashes (as @ strip_dashes ?s @ bs)" "set (strip_dashes ?s) \<subseteq> set ?s"
    using single_dashes_sub [of False "lower v"] by (simp, metis Un_upper1 Un_upper2 order.trans set_append)
  then have "single_dashes (strip_dashes ?s)" "\<forall>ch \<in> set (strip_dashes ?s). slug_char ch \<or> ch = CHR ''-''"
    using single_dashes_append slug_sub_chars by blast+
  with False strip_dashes_ends show ?thesis by (simp add: slugify_def slug_ok_def Let_def)
qed

lemma slug_sub_fixed:
  "single_dashes s \<Longrightarrow> \<forall>ch \<in> set s. slug_char ch \<or> ch = CHR ''-'' \<Longrightarrow>
    slug_sub False s = s \<and> (s = [] \<or> hd s \<noteq> CHR ''-'' \<longrightarrow> slug_sub True s = s)"
  by (induction s) auto

lemma lower_slug: "\<forall>ch \<in> set s. slug_char ch \<or> ch = CHR ''-'' \<Longrightarrow> lower s = s"
  unfolding lower_def by (intro map_idI) (auto simp: slug_char_def lower_char_def Let_def)

lemma slugify_fixed:
  assumes "slug_ok s"
  shows "slugify s = s"
proof -
  have fixed: "t \<noteq> [] \<Longrightarrow> hd t \<noteq> CHR ''-'' \<Longrightarrow> dropWhile (\<lambda>ch. ch = CHR ''-'') t = t" for t
    by (cases t) auto
  have "dropWhile (\<lambda>ch. ch = CHR ''-'') s = s" and "dropWhile (\<lambda>ch. ch = CHR ''-'') (rev s) = rev s"
    using assms fixed [of s] fixed [of "rev s"] by (simp_all add: slug_ok_def hd_rev)
  then have "strip_dashes s = s" by (simp add: strip_dashes_def)
  moreover have "slug_sub False (lower s) = s"
    using assms slug_sub_fixed [of s] lower_slug [of s] by (simp add: slug_ok_def)
  ultimately show ?thesis using assms by (simp add: slugify_def slug_ok_def)
qed

text \<open>
  Slugs are normal forms.  The slug of any name is not empty, consists of
  lower-case letters, digits and single inner dashes, and is its own slug.
\<close>

theorem slugify_normal_form: "slug_ok (slugify v) \<and> slugify (slugify v) = slugify v"
  using slug_ok_slugify slugify_fixed by blast

end
