(* ===== verification/Uuids.thy ===== *)
theory Uuids
  imports PyText
begin

section \<open>Reading a UUID\<close>

text \<open>
  \<open>uuid.UUID(s)\<close> of the standard library, which the program calls on header values, token
  subjects and tool arguments, down to \<open>int(s, 16)\<close> and its blanks, sign, \<open>0x\<close> prefix and
  underscores; \<open>None\<close> stands for its \<open>ValueError\<close>.
\<close>

definition py_replace :: "string \<Rightarrow> string \<Rightarrow> string \<Rightarrow> string" where
  "py_replace old new s = py_join new (py_split old s)"

definition strip_by :: "(char \<Rightarrow> bool) \<Rightarrow> string \<Rightarrow> string" where
  "strip_by P s = rev (dropWhile P (rev (dropWhile P s)))"

definition int_space :: "char \<Rightarrow> bool" where
  "int_space c \<longleftrightarrow>
     (let n = of_char c :: nat in (9 \<le> n \<and> n \<le> 13) \<or> n = 32 \<or> n = 133 \<or> n = 160)"

definition hex_value :: "char \<Rightarrow> nat option" where
  "hex_value c =
     (let n = of_char c :: nat
      in if 48 \<le> n \<and> n \<le> 57 then Some (n - 48)
         else if 97 \<le> n \<and> n \<le> 102 then Some (n - 87)
         else if 65 \<le> n \<and> n \<le> 70 then Some (n - 55)
         else None)"

text \<open>Digits with single underscores between them; \<open>after_digit\<close> says that one may follow.\<close>

fun read_hex :: "bool \<Rightarrow> nat \<Rightarrow> string \<Rightarrow> nat option" where
  "read_hex after_digit acc [] = (if after_digit then Some acc else None)"
| "read_hex after_digit acc (c # cs) =
     (case hex_value c of
        Some d \<Rightarrow> read_hex True (16 * acc + d) cs
      | None \<Rightarrow> if c = CHR ''_'' \<and> after_digit then read_hex False acc cs else None)"

definition int_base16 :: "string \<Rightarrow> nat option" where
  "int_base16 s =
     (let s1 = strip_by int_space s;
          s2 = (if startswith s1 ''+'' then drop 1 s1 else s1);
          s3 = (if startswith s2 ''0x'' \<or> startswith s2 ''0X''
                then (if startswith (drop 2 s2) ''_'' then drop 3 s2 else drop 2 s2) else s2)
      in read_hex False 0 s3)"

definition parse_uuid :: "string \<Rightarrow> uuid option" where
  "parse_uuid s =
     (let h = py_replace ''-'' [] (strip_by (\<lambda>c. c = CHR ''{'' \<or> c = CHR ''}'')
                (py_replace ''uuid:'' [] (py_replace ''urn:'' [] s)))
      in if length h \<noteq> 32 then None else int_base16 h)"

subsection \<open>Reading what \<open>str\<close> has written\<close>

lemma find_split_absent: "c \<notin> set s \<Longrightarrow> find_split (c # cs) s = None"
  by (induction s) auto

lemma py_replace_absent: "c \<notin> set s \<Longrightarrow> py_replace (c # cs) new s = s"
  by (simp add: py_replace_def py_split.simps find_split_absent)

lemma find_split_char: "find_split [c] s = Some (a, b) \<Longrightarrow> c \<notin> set a"
  by (induction s arbitrary: a) (auto split: if_splits)

lemma find_split_char_None: "find_split [c] s = None \<Longrightarrow> c \<notin> set s"
  by (induction s) (auto split: if_splits)

lemma py_replace_char: "py_replace [c] [] s = filter (\<lambda>d. d \<noteq> c) s"
proof (induction s rule: length_induct)
  case (1 s)
  show ?case
  proof (cases "find_split [c] s")
    case None
    then have "c \<notin> set s" by (rule find_split_char_None)
    then have "filter (\<lambda>d. d \<noteq> c) s = s" by (intro filter_True) auto
    with None show ?thesis by (simp add: py_replace_def py_split.simps)
  next
    case (Some ab)
    obtain a b where ab: "ab = (a, b)" by force
    have s: "s = a @ [c] @ b" using find_split_Some Some ab by blast
    have "filter (\<lambda>d. d \<noteq> c) a = a"
      using find_split_char Some ab by (intro filter_True) auto
    moreover have "py_replace [c] [] b = filter (\<lambda>d. d \<noteq> c) b" using 1 s by auto
    moreover have "py_replace [c] [] s = a @ py_replace [c] [] b"
      unfolding py_replace_def using Some ab
      by (subst py_split.simps) (simp add: py_join_Cons py_split_not_Nil)
    ultimately show ?thesis using s by simp
  qed
qed

lemma strip_by_absent:
  assumes "\<And>c. c \<in> set s \<Longrightarrow> \<not> P c"
  shows "strip_by P s = s"
proof -
  have "dropWhile P t = t" if "\<And>c. c \<in> set t \<Longrightarrow> \<not> P c" for t
    using that by (cases t) auto
  from this [of s] this [of "rev s"] assms show ?thesis by (simp add: strip_by_def)
qed

lemma hex_value_digit: "d < 16 \<Longrightarrow> hex_value (hex_digit d) = Some d"
  by (simp add: hex_value_def hex_digit_def)

lemma read_hex_digits: "read_hex True acc (hex_digits k n @ t) = read_hex True (16 ^ k * acc + n mod 16 ^ k) t"
proof (induction k arbitrary: n t)
  case (Suc k)
  have "16 * (16 ^ k * acc + n div 16 mod 16 ^ k) + n mod 16 = 16 ^ Suc k * acc + n mod 16 ^ Suc k"
    by (simp add: mod_mult2_eq [of n 16] algebra_simps)
  then have "read_hex True (16 * (16 ^ k * acc + n div 16 mod 16 ^ k) + n mod 16) t =
      read_hex True (16 ^ Suc k * acc + n mod 16 ^ Suc k) t" by (rule arg_cong)
  with Suc [of "n div 16" "hex_digit (n mod 16) # t"] show ?case
    by (simp add: hex_value_digit del: power_Suc)
qed simp

lemma read_hex_digits_start:
  "0 < k \<Longrightarrow> read_hex False 0 (hex_digits k n) = read_hex True 0 (hex_digits k n)"
proof -
  assume "0 < k"
  then have "hex_digits k n \<noteq> []" by (metis length_hex_digits length_0_conv less_numeral_extra(3))
  then obtain c cs where h: "hex_digits k n = c # cs" by (cases "hex_digits k n") auto
  have "\<exists>d. hex_value c = Some d" if "c \<in> set (hex_digits m n)" for c m n
    using that by (induction m arbitrary: n) (auto simp: hex_value_digit)
  then obtain d where "hex_value c = Some d" using h by (metis list.set_intros(1))
  with h show ?thesis by simp
qed

lemma hex_digits_chars:
  "c \<in> set (hex_digits k n) \<Longrightarrow> \<exists>d < 16. c = hex_digit d"
  by (induction k arbitrary: n) (auto intro: exI [of _ "_ mod 16"])

lemma hex_digit_range: "d < 16 \<Longrightarrow> (of_char (hex_digit d) :: nat) \<in> {48..57} \<union> {97..102}"
  by (auto simp: hex_digit_def)

lemma int_base16_digits: "int_base16 (hex_digits 32 n) = Some (n mod 16 ^ 32)"
proof -
  let ?h = "hex_digits 32 n"
  have range: "(of_char c :: nat) \<in> {48..57} \<union> {97..102}" if "c \<in> set ?h" for c
    using hex_digits_chars [OF that] hex_digit_range by blast
  have 1: "strip_by int_space ?h = ?h"
    by (rule strip_by_absent) (use range in \<open>fastforce simp: int_space_def\<close>)
  have not_in: "c \<notin> set ?h" if "(of_char c :: nat) \<notin> {48..57} \<union> {97..102}" for c
    using range that by blast
  have 2: "\<not> startswith ?h ''+''"
    using not_in [of "CHR ''+''"] by (cases ?h) (auto simp: startswith_def)
  have start: "\<not> startswith ?h [CHR ''0'', x]" if "x \<notin> set ?h" for x
  proof
    assume "startswith ?h [CHR ''0'', x]"
    then have "x \<in> set (take 2 ?h)" by (simp add: startswith_def numeral_2_eq_2)
    with that show False by (meson in_set_takeD)
  qed
  have 3: "\<not> startswith ?h ''0x''" "\<not> startswith ?h ''0X''"
    using start not_in [of "CHR ''x''"] not_in [of "CHR ''X''"] by simp_all
  have "int_base16 ?h = read_hex False 0 ?h"
    by (simp only: int_base16_def Let_def 1 2 3 if_False simp_thms)
  also have "\<dots> = read_hex True 0 (hex_digits 32 n @ [])"
    using read_hex_digits_start [of 32 n] by simp
  finally show ?thesis by (simp only: read_hex_digits) simp
qed

lemma uuid_str_chars: "c \<in> set (uuid_str u) \<Longrightarrow> c = CHR ''-'' \<or> c \<in> set (hex_digits 32 u)"
  unfolding uuid_str_def Let_def by (auto dest!: in_set_takeD in_set_dropD)

lemma parse_uuid_str: "u < 2 ^ 128 \<Longrightarrow> parse_uuid (uuid_str u) = Some u"
proof -
  assume u: "u < 2 ^ 128"
  let ?h = "hex_digits 32 u"
  have hex: "c \<notin> set ?h" if "(of_char c :: nat) \<notin> {48..57} \<union> {97..102}" for c
    using hex_digits_chars hex_digit_range that by blast
  have absent: "c \<notin> set (uuid_str u)" if "c \<noteq> CHR ''-''" "(of_char c :: nat) \<notin> {48..57} \<union> {97..102}" for c
    using hex [OF that(2)] uuid_str_chars that(1) by blast
  have 1: "py_replace ''urn:'' [] (uuid_str u) = uuid_str u"
    using absent [of "CHR ''u''"] by (intro py_replace_absent) simp
  have 2: "py_replace ''uuid:'' [] (uuid_str u) = uuid_str u"
    using absent [of "CHR ''u''"] by (intro py_replace_absent) simp
  have 3: "strip_by (\<lambda>c. c = CHR ''{'' \<or> c = CHR ''}'') (uuid_str u) = uuid_str u"
    using absent [of "CHR ''{''"] absent [of "CHR ''}''"] by (intro strip_by_absent) auto
  have keep: "filter (\<lambda>d. d \<noteq> CHR ''-'') t = t" if "set t \<subseteq> set ?h" for t
    using that hex [of "CHR ''-''"] by (intro filter_True) auto
  have sub: "set (take i (drop j ?h)) \<subseteq> set ?h" "set (take i ?h) \<subseteq> set ?h" "set (drop j ?h) \<subseteq> set ?h" for i j
    by (auto dest!: in_set_takeD in_set_dropD)
  have cut: "take 8 h @ take 4 (drop 8 h) @ take 4 (drop 12 h) @ take 4 (drop 16 h) @ drop 20 h = h" for h :: string
    using append_take_drop_id [of 8 h] append_take_drop_id [of 4 "drop 8 h"]
      append_take_drop_id [of 4 "drop 12 h"] append_take_drop_id [of 4 "drop 16 h"]
    by (simp del: append_take_drop_id)
  have 4: "py_replace ''-'' [] (uuid_str u) = ?h"
    unfolding py_replace_char uuid_str_def Let_def filter_append
    using cut [of ?h] by (simp add: keep sub)
  show ?thesis
    unfolding parse_uuid_def 1 2 3 4 Let_def using int_base16_digits [of u] u by simp
qed

end
