(* ===== verification/Auth.thy ===== *)
theory Auth
  imports Tenancy Uuids
begin

section \<open>Authentication\<close>

text \<open>
  \<open>src/core/security.py\<close>, \<open>src/auth/service.py\<close> and the authentication of
  \<open>src/auth/dependencies.py\<close>.  The libraries are the fields of \<open>crypto\<close>: PyJWT, bcrypt,
  SHA-256 and the verification of Google's tokens (they take and return the texts that the code
  encodes as UTF-8).  Random tokens, new ids and clock readings come with the call.
\<close>

subsection \<open>Tokens and keys\<close>

record jwt_payload =
  p_sub :: "string option"
  p_email :: "string option"
  p_exp :: "timestamp option"
  p_iat :: "timestamp option"
  p_type :: "string option"

datatype jwt_error = ExpiredSignatureError | InvalidTokenError

record crypto =
  jwt_encode :: "jwt_payload \<Rightarrow> string \<Rightarrow> string \<Rightarrow> string"
  jwt_decode :: "timestamp \<Rightarrow> string \<Rightarrow> string \<Rightarrow> string \<Rightarrow> (jwt_error, jwt_payload) outcome"
  bcrypt_hashpw :: "string \<Rightarrow> string \<Rightarrow> string"
  bcrypt_checkpw :: "string \<Rightarrow> string \<Rightarrow> bool option"
  sha256_hex :: "string \<Rightarrow> string"
  verify_oauth2_token :: "string \<Rightarrow> (exn, string option) outcome"

record auth_settings =
  jwt_secret_key :: string
  jwt_algorithm :: string
  jwt_access_token_expire_minutes :: int
  jwt_refresh_token_expire_days :: int

text \<open>What a call draws: ids, the random text, the salt, the clock, the transaction's time.\<close>

record auth_env =
  env_user_id :: uuid
  env_org_id :: uuid
  env_membership_id :: uuid
  env_row_id :: uuid
  env_random :: string
  env_salt :: string
  env_now :: timestamp
  env_tx_now :: timestamp

record token_payload =
  tp_user_id :: string
  tp_email :: string
  tp_exp :: timestamp

definition minutes :: "int \<Rightarrow> timestamp" where
  "minutes n = n * 60 * 10 ^ 6"

definition api_key_prefix :: string where
  "api_key_prefix = ''sk-''"

definition hash_password :: "crypto \<Rightarrow> string \<Rightarrow> string \<Rightarrow> string" where
  "hash_password cr salt password = bcrypt_hashpw cr password salt"

definition verify_password :: "crypto \<Rightarrow> string \<Rightarrow> string \<Rightarrow> bool" where
  "verify_password cr password hashed =
     (case bcrypt_checkpw cr password hashed of Some b \<Rightarrow> b | None \<Rightarrow> False)"

definition create_access_token :: "crypto \<Rightarrow> auth_settings \<Rightarrow> timestamp \<Rightarrow> string \<Rightarrow> string \<Rightarrow> string" where
  "create_access_token cr st now user_id email =
     (let expire = now + minutes (jwt_access_token_expire_minutes st)
      in jwt_encode cr
           \<lparr>p_sub = Some user_id, p_email = Some email, p_exp = Some expire, p_iat = Some now,
            p_type = Some ''access''\<rparr> (jwt_secret_key st) (jwt_algorithm st))"

definition decode_access_token ::
  "crypto \<Rightarrow> auth_settings \<Rightarrow> timestamp \<Rightarrow> string \<Rightarrow> (exn, token_payload) outcome" where
  "decode_access_token cr st now token =
     (case jwt_decode cr now token (jwt_secret_key st) (jwt_algorithm st) of
        Inl ExpiredSignatureError \<Rightarrow> Inl (App (AuthenticationError ''Access token has expired.''))
      | Inl InvalidTokenError \<Rightarrow> Inl (App (AuthenticationError ''Invalid access token.''))
      | Inr payload \<Rightarrow>
          if p_type payload \<noteq> Some ''access''
          then Inl (App (AuthenticationError ''Invalid token type.''))
          else (case (p_sub payload, p_email payload, p_exp payload) of
                  (Some user_id, Some email, Some expires) \<Rightarrow>
                    if user_id = '''' \<or> email = ''''
                    then Inl (App (AuthenticationError ''Malformed token payload.''))
                    else Inr \<lparr>tp_user_id = user_id, tp_email = email, tp_exp = expires\<rparr>
                | _ \<Rightarrow> Inl (App (AuthenticationError ''Malformed token payload.''))))"

definition hash_refresh_token :: "crypto \<Rightarrow> string \<Rightarrow> string" where
  "hash_refresh_token cr raw_token = sha256_hex cr raw_token"

definition generate_refresh_token ::
  "crypto \<Rightarrow> auth_settings \<Rightarrow> auth_env \<Rightarrow> string \<times> string \<times> timestamp" where
  "generate_refresh_token cr st env =
     (let raw_token = env_random env
      in (raw_token, sha256_hex cr raw_token, env_now env + days (jwt_refresh_token_expire_days st)))"

definition generate_api_key :: "crypto \<Rightarrow> auth_env \<Rightarrow> string \<times> string \<times> string" where
  "generate_api_key cr env =
     (let full_key = api_key_prefix @ env_random env
      in (full_key, take 12 full_key, bcrypt_hashpw cr full_key (env_salt env)))"

definition verify_api_key :: "crypto \<Rightarrow> string \<Rightarrow> string \<Rightarrow> bool" where
  "verify_api_key cr raw_key stored_hash =
     (case bcrypt_checkpw cr raw_key stored_hash of Some b \<Rightarrow> b | None \<Rightarrow> False)"

subsection \<open>Login and refresh\<close>

definition issue_refresh_token ::
  "crypto \<Rightarrow> auth_settings \<Rightarrow> auth_env \<Rightarrow> user \<Rightarrow> database \<Rightarrow> (exn, string \<times> string) outcome \<times> database" where
  "issue_refresh_token cr st env user db =
     (let access_token = create_access_token cr st (env_now env) (uuid_str (u_id user)) (u_email user);
          (raw_refresh, refresh_hash, expires_at) = generate_refresh_token cr st env
      in case insert_refresh_token
                \<lparr>t_id = env_row_id env, t_user_id = u_id user, t_token_hash = refresh_hash,
                 t_expires_at = expires_at, t_created_at = env_tx_now env\<rparr> db of
           Inl e \<Rightarrow> (Inl e, db)
         | Inr db1 \<Rightarrow> (Inr (access_token, raw_refresh), db1))"

definition verified_email :: "crypto \<Rightarrow> string \<Rightarrow> (exn, string) outcome" where
  "verified_email cr credential =
     (case verify_oauth2_token cr credential of
        Inl (ValueError _) \<Rightarrow> Inl (App (AuthenticationError ''Invalid Google token.''))
      | Inl e \<Rightarrow> Inl e
      | Inr None \<Rightarrow> Inl (App (AuthenticationError ''Google token missing email.''))
      | Inr (Some email) \<Rightarrow>
          if email = '''' then Inl (App (AuthenticationError ''Google token missing email.''))
          else Inr email)"

text \<open>A new user, with a personal organization.\<close>

definition register_user :: "auth_env \<Rightarrow> string \<Rightarrow> database \<Rightarrow> (exn, user) outcome \<times> database" where
  "register_user env email db =
     (let user = \<lparr>u_id = env_user_id env, u_email = email, u_is_active = True,
                  u_created_at = env_tx_now env\<rparr>
      in case insert_user user db of
           Inl IntegrityError \<Rightarrow> (Inl (App (ConflictError
             (''User with email '' @ [CHR 0x27] @ email @ [CHR 0x27] @ '' already exists.''))), db)
         | Inl e \<Rightarrow> (Inl e, db)
         | Inr db1 \<Rightarrow>
             (case create_personal_organization (u_id user) (u_email user) (env_org_id env)
                     (env_membership_id env) (env_tx_now env) db1 of
                (Inl e, db2) \<Rightarrow> (Inl e, db2)
              | (Inr _, db2) \<Rightarrow> (Inr user, db2)))"

definition google_login ::
  "crypto \<Rightarrow> auth_settings \<Rightarrow> auth_env \<Rightarrow> string \<Rightarrow> database \<Rightarrow>
     (exn, string \<times> string) outcome \<times> database" where
  "google_login cr st env credential db =
     (case verified_email cr credential of
        Inl e \<Rightarrow> (Inl e, db)
      | Inr email \<Rightarrow>
          (case scalar_one_or_none (filter (\<lambda>u. u_email u = email) (users db)) of
             Inl e \<Rightarrow> (Inl e, db)
           | Inr found \<Rightarrow>
               (case (case found of None \<Rightarrow> register_user env email db | Some u \<Rightarrow> (Inr u, db)) of
                  (Inl e, db1) \<Rightarrow> (Inl e, db1)
                | (Inr user, db1) \<Rightarrow>
                    if \<not> u_is_active user
                    then (Inl (App (AuthenticationError ''Account is deactivated.'')), db1)
                    else issue_refresh_token cr st env user db1)))"

text \<open>The \<open>user\<close> relationship of a token or a key; every row refers to a user.\<close>

definition owner :: "uuid \<Rightarrow> database \<Rightarrow> (exn, user) outcome" where
  "owner user_id db =
     (case scalars_first (filter (\<lambda>u. u_id u = user_id) (users db)) of
        Some u \<Rightarrow> Inr u
      | None \<Rightarrow> Inl (OtherError ''AttributeError''))"

definition delete_token :: "refresh_token \<Rightarrow> database \<Rightarrow> database" where
  "delete_token t db = db \<lparr>refresh_tokens := filter (\<lambda>s. t_id s \<noteq> t_id t) (refresh_tokens db)\<rparr>"

text \<open>
  \<open>others\<close>: what other transactions commit between the look-up and the writes.  One flush writes
  both changes, the insert first.
\<close>

definition refresh_access_token ::
  "crypto \<Rightarrow> auth_settings \<Rightarrow> auth_env \<Rightarrow> (database \<Rightarrow> database) \<Rightarrow> string \<Rightarrow> database \<Rightarrow>
     (exn, string \<times> string) outcome \<times> database" where
  "refresh_access_token cr st env others raw_token db =
     (case scalar_one_or_none (filter (\<lambda>t. t_token_hash t = hash_refresh_token cr raw_token) (refresh_tokens db)) of
        Inl e \<Rightarrow> (Inl e, db)
      | Inr None \<Rightarrow> (Inl (App (AuthenticationError ''Invalid refresh token.'')), db)
      | Inr (Some stored) \<Rightarrow>
          if t_expires_at stored < env_now env
          then (Inl (App (AuthenticationError ''Refresh token has expired.'')), delete_token stored (others db))
          else (case owner (t_user_id stored) db of
                  Inl e \<Rightarrow> (Inl e, db)
                | Inr user \<Rightarrow>
                    if \<not> u_is_active user
                    then (Inl (App (AuthenticationError ''Account is deactivated.'')), db)
                    else (case issue_refresh_token cr st env user (others db) of
                            (Inl e, db1) \<Rightarrow> (Inl e, db1)
                          | (Inr tokens, db1) \<Rightarrow> (Inr tokens, delete_token stored db1))))"

subsection \<open>API keys\<close>

definition create_user_api_key ::
  "crypto \<Rightarrow> auth_env \<Rightarrow> uuid \<Rightarrow> string \<Rightarrow> database \<Rightarrow> (exn, string \<times> api_key) outcome \<times> database" where
  "create_user_api_key cr env user_id name db =
     (let (full_key, prefix, key_hash) = generate_api_key cr env;
          key = \<lparr>k_id = env_row_id env, k_user_id = user_id, k_key_prefix = prefix,
                 k_key_hash = key_hash, k_name = name, k_is_active = True, k_expires_at = None,
                 k_last_used_at = None, k_created_at = env_tx_now env\<rparr>
      in case insert_api_key key db of
           Inl e \<Rightarrow> (Inl e, db)
         | Inr db1 \<Rightarrow> (Inr (full_key, key), db1))"

definition list_user_api_keys :: "uuid \<Rightarrow> database \<Rightarrow> api_key list" where
  "list_user_api_keys user_id db =
     order_by_desc k_created_at (filter (\<lambda>k. k_user_id k = user_id) (api_keys db))"

definition revoke_user_api_key ::
  "uuid \<Rightarrow> uuid \<Rightarrow> database \<Rightarrow> (exn, unit) outcome \<times> database" where
  "revoke_user_api_key user_id key_id db =
     (case scalar_one_or_none (filter (\<lambda>k. k_id k = key_id \<and> k_user_id k = user_id) (api_keys db)) of
        Inl e \<Rightarrow> (Inl e, db)
      | Inr None \<Rightarrow> (Inl (App (NotFoundError ''API key'' (uuid_str key_id))), db)
      | Inr (Some key) \<Rightarrow>
          (Inr (), db \<lparr>api_keys := update_where (\<lambda>k. k_id k = k_id key)
                          (\<lambda>k. k \<lparr>k_is_active := False\<rparr>) (api_keys db)\<rparr>))"

fun try_keys :: "crypto \<Rightarrow> timestamp \<Rightarrow> string \<Rightarrow> api_key list \<Rightarrow> database \<Rightarrow> (exn, user) outcome \<times> database" where
  "try_keys cr now raw_key [] db = (Inl (App (AuthenticationError ''Invalid API key.'')), db)"
| "try_keys cr now raw_key (key # rest) db =
     (if verify_api_key cr raw_key (k_key_hash key)
      then (case owner (k_user_id key) db of
              Inl e \<Rightarrow> (Inl e, db)
            | Inr user \<Rightarrow>
                if \<not> u_is_active user
                then (Inl (App (AuthenticationError ''Account is deactivated.'')), db)
                else (Inr user, db \<lparr>api_keys := update_where (\<lambda>k. k_id k = k_id key)
                                       (\<lambda>k. k \<lparr>k_last_used_at := Some now\<rparr>) (api_keys db)\<rparr>))
      else try_keys cr now raw_key rest db)"

definition authenticate_api_key ::
  "crypto \<Rightarrow> timestamp \<Rightarrow> string \<Rightarrow> database \<Rightarrow> (exn, user) outcome \<times> database" where
  "authenticate_api_key cr now raw_key db =
     try_keys cr now raw_key
       (filter (\<lambda>k. k_key_prefix k = take 12 raw_key \<and> k_is_active k) (api_keys db)) db"

subsection \<open>The current user\<close>

definition authenticate_jwt ::
  "crypto \<Rightarrow> auth_settings \<Rightarrow> timestamp \<Rightarrow> string \<Rightarrow> database \<Rightarrow> (exn, user) outcome" where
  "authenticate_jwt cr st now token db =
     try_bind (decode_access_token cr st now token) (\<lambda>payload.
       case parse_uuid (tp_user_id payload) of
         None \<Rightarrow> Inl (ValueError ''badly formed hexadecimal UUID string'')
       | Some uid \<Rightarrow>
           try_bind (scalar_one_or_none (filter (\<lambda>u. u_id u = uid) (users db))) (\<lambda>found.
             case found of
               None \<Rightarrow> Inl (App (AuthenticationError ''User not found.''))
             | Some user \<Rightarrow>
                 if \<not> u_is_active user
                 then Inl (App (AuthenticationError ''Account is deactivated.''))
                 else Inr user))"

definition get_current_user ::
  "crypto \<Rightarrow> auth_settings \<Rightarrow> timestamp \<Rightarrow> string option \<Rightarrow> database \<Rightarrow> (exn, user) outcome \<times> database" where
  "get_current_user cr st now credentials db =
     (case credentials of
        None \<Rightarrow> (Inl (App (AuthenticationError ''Missing authorization header.'')), db)
      | Some token \<Rightarrow>
          if startswith token api_key_prefix then authenticate_api_key cr now token db
          else (authenticate_jwt cr st now token db, db))"

end
