(* ===== verification/RateLimit.thy ===== *)
theory RateLimit
  imports Prelude
begin

section \<open>The distributed rate limiter\<close>

text \<open>
  \<open>src/core/rate_limit.py\<close>: the Lua script that Redis runs atomically, and \<open>is_allowed\<close>
  with its fail-open policy.  The store maps a key to its counter and, when \<open>EXPIRE\<close> was called,
  the time at which the key is gone; clock readings are those of the Redis server.
\<close>

type_synonym redis = "string \<Rightarrow> (int \<times> timestamp option) option"

definition seconds :: "int \<Rightarrow> timestamp" where
  "seconds n = n * 10 ^ 6"

text \<open>
  The commands the script calls: \<open>INCR\<close> and \<open>EXPIRE\<close>.  Redis counts in 64 bits and refuses to go
  beyond; the counter of the model is unbounded.
\<close>

definition live :: "timestamp \<Rightarrow> (int \<times> timestamp option) option \<Rightarrow> (int \<times> timestamp option) option" where
  "live now entry =
     (case entry of
        Some (n, Some e) \<Rightarrow> if now < e then Some (n, Some e) else None
      | _ \<Rightarrow> entry)"

definition redis_incr :: "timestamp \<Rightarrow> string \<Rightarrow> redis \<Rightarrow> int \<times> redis" where
  "redis_incr now k r =
     (case live now (r k) of
        Some (n, e) \<Rightarrow> (n + 1, r(k \<mapsto> (n + 1, e)))
      | None \<Rightarrow> (1, r(k \<mapsto> (1, None))))"

definition redis_expire :: "timestamp \<Rightarrow> string \<Rightarrow> int \<Rightarrow> redis \<Rightarrow> redis" where
  "redis_expire now k secs r =
     (case live now (r k) of
        Some (n, _) \<Rightarrow> if secs \<le> 0 then r(k := None) else r(k \<mapsto> (n, Some (now + seconds secs)))
      | None \<Rightarrow> r)"

definition rate_limit_lua :: "timestamp \<Rightarrow> string \<Rightarrow> int \<Rightarrow> int \<Rightarrow> redis \<Rightarrow> int \<times> redis" where
  "rate_limit_lua now key max_requests window r =
     (let (current, r1) = redis_incr now key r;
          r2 = (if current = 1 then redis_expire now key window r1 else r1)
      in (if current > max_requests then 0 else 1, r2))"

text \<open>
  The state of Redis at a call: it answers, or the client raises \<open>RedisError\<close>; then the script
  may or may not have run, and \<open>is_allowed\<close> allows the request.
\<close>

datatype redis_outage = Answers | ErrorBeforeRun | ErrorAfterRun

definition is_allowed :: "redis_outage \<Rightarrow> timestamp \<Rightarrow> string \<Rightarrow> int \<Rightarrow> int \<Rightarrow> redis \<Rightarrow> bool \<times> redis" where
  "is_allowed outage now key max_requests window r =
     (case outage of
        ErrorBeforeRun \<Rightarrow> (True, r)
      | ErrorAfterRun \<Rightarrow> (True, snd (rate_limit_lua now key max_requests window r))
      | Answers \<Rightarrow> (let (result, r1) = rate_limit_lua now key max_requests window r in (result \<noteq> 0, r1)))"

subsection \<open>Fixed windows\<close>

text \<open>
  The reference: a window opens at the first request after the previous one closed and lasts
  \<open>w\<close>; the first \<open>max_requests\<close> requests of a window are allowed.
\<close>

function windows :: "timestamp \<Rightarrow> timestamp list \<Rightarrow> timestamp list list" where
  "windows w [] = []"
| "windows w (t # ts) =
     (t # takeWhile (\<lambda>s. s < t + w) ts) # windows w (dropWhile (\<lambda>s. s < t + w) ts)"
  by pat_completeness auto
termination
  by (relation "measure (\<lambda>(w, ts). length ts)") (auto simp: le_imp_less_Suc length_dropWhile_le)

definition first_allowed :: "int \<Rightarrow> int \<Rightarrow> timestamp list \<Rightarrow> bool list" where
  "first_allowed max_requests from win = map (\<lambda>i. from + int i < max_requests) [0..<length win]"

definition fixed_window :: "int \<Rightarrow> timestamp \<Rightarrow> timestamp list \<Rightarrow> bool list" where
  "fixed_window max_requests w ts = concat (map (first_allowed max_requests 0) (windows w ts))"

text \<open>The answers to a sequence of requests, each with its time and its key.\<close>

fun limit_trace :: "int \<Rightarrow> int \<Rightarrow> (timestamp \<times> string) list \<Rightarrow> redis \<Rightarrow> (string \<times> bool) list" where
  "limit_trace max_requests window [] r = []"
| "limit_trace max_requests window ((now, key) # rest) r =
     (let (allowed, r1) = is_allowed Answers now key max_requests window r
      in (key, allowed) # limit_trace max_requests window rest r1)"

lemma first_allowed_Nil [simp]: "first_allowed m n [] = []"
  by (simp add: first_allowed_def)

lemma first_allowed_Cons [simp]: "first_allowed m n (t # ts) = (n < m) # first_allowed m (n + 1) ts"
  by (simp add: first_allowed_def upt_conv_Cons map_Suc_upt [symmetric] comp_def algebra_simps del: upt_Suc)

lemma is_allowed_other: "k \<noteq> key \<Longrightarrow> snd (is_allowed c now key m w r) k = r k"
  by (simp add: is_allowed_def rate_limit_lua_def redis_incr_def redis_expire_def
      split: redis_outage.splits option.splits prod.splits)

lemma is_allowed_opens:
  "live now (r k) = None \<Longrightarrow> 0 < w \<Longrightarrow>
    is_allowed Answers now k m w r = (0 < m, r(k \<mapsto> (1, Some (now + seconds w))))"
  by (auto simp: is_allowed_def rate_limit_lua_def redis_incr_def redis_expire_def live_def)

lemma is_allowed_counts:
  "r k = Some (n, Some e) \<Longrightarrow> now < e \<Longrightarrow> 0 < n \<Longrightarrow>
    is_allowed Answers now k m w r = (n < m, r(k \<mapsto> (n + 1, Some e)))"
  by (auto simp: is_allowed_def rate_limit_lua_def redis_incr_def live_def)

abbreviation answers_for :: "string \<Rightarrow> (string \<times> bool) list \<Rightarrow> bool list" where
  "answers_for k as \<equiv> map snd (filter (\<lambda>a. fst a = k) as)"

abbreviation times_of :: "string \<Rightarrow> (timestamp \<times> string) list \<Rightarrow> timestamp list" where
  "times_of k tr \<equiv> map fst (filter (\<lambda>q. snd q = k) tr)"

lemma times_of_later: "sorted (map fst ((now, key) # tr)) \<Longrightarrow> t \<in> set (times_of k tr) \<Longrightarrow> now \<le> t"
  by auto

text \<open>From an open window, or from a closed one, the answers are those of the reference.\<close>

lemma limit_trace_from:
  assumes "0 < w" and "sorted (map fst tr)"
  shows "(\<forall>n e. r k = Some (n, Some e) \<longrightarrow> 0 < n \<longrightarrow>
      answers_for k (limit_trace m w tr r) =
        first_allowed m n (takeWhile (\<lambda>s. s < e) (times_of k tr)) @
        fixed_window m (seconds w) (dropWhile (\<lambda>s. s < e) (times_of k tr))) \<and>
    ((\<forall>t \<in> set (times_of k tr). live t (r k) = None) \<longrightarrow>
      answers_for k (limit_trace m w tr r) = fixed_window m (seconds w) (times_of k tr))"
  using assms(2)
proof (induction tr arbitrary: r)
  case Nil
  then show ?case by (simp add: fixed_window_def)
next
  case (Cons q tr)
  obtain now key where q: "q = (now, key)" by force
  have sorted: "sorted (map fst tr)" using Cons.prems by simp
  note IH = Cons.IH [OF sorted]
  have later: "now \<le> t" if "t \<in> set (times_of k tr)" for t
    using Cons.prems that unfolding q by (rule times_of_later)
  show ?case
  proof (cases "key = k")
    case False
    then have "snd (is_allowed Answers now key m w r) k = r k" by (intro is_allowed_other) simp
    with False q IH [of "snd (is_allowed Answers now key m w r)"] show ?thesis
      by (simp add: case_prod_beta)
  next
    case True
    have opens: "answers_for k (limit_trace m w (q # tr) r) = fixed_window m (seconds w) (times_of k (q # tr))"
      if "live now (r k) = None"
    proof -
      have "answers_for k (limit_trace m w tr (r(k \<mapsto> (1, Some (now + seconds w))))) =
          first_allowed m 1 (takeWhile (\<lambda>s. s < now + seconds w) (times_of k tr)) @
          fixed_window m (seconds w) (dropWhile (\<lambda>s. s < now + seconds w) (times_of k tr))"
        by (intro conjunct1 [OF IH, rule_format]) simp_all
      with that True q assms(1) show ?thesis
        by (simp add: is_allowed_opens fixed_window_def)
    qed
    show ?thesis
    proof (intro conjI allI impI)
      fix n e
      assume entry: "r k = Some (n, Some e)" and n: "0 < n"
      show "answers_for k (limit_trace m w (q # tr) r) =
        first_allowed m n (takeWhile (\<lambda>s. s < e) (times_of k (q # tr))) @
        fixed_window m (seconds w) (dropWhile (\<lambda>s. s < e) (times_of k (q # tr)))"
      proof (cases "now < e")
        case inside: True
        have "answers_for k (limit_trace m w tr (r(k \<mapsto> (n + 1, Some e)))) =
          first_allowed m (n + 1) (takeWhile (\<lambda>s. s < e) (times_of k tr)) @
          fixed_window m (seconds w) (dropWhile (\<lambda>s. s < e) (times_of k tr))"
          by (intro conjunct1 [OF IH, rule_format]) (use n in simp_all)
        with inside True q entry n show ?thesis by (simp add: is_allowed_counts)
      next
        case outside: False
        then have "live now (r k) = None" using entry by (simp add: live_def)
        from opens [OF this] outside True q show ?thesis by simp
      qed
    next
      assume "\<forall>t \<in> set (times_of k (q # tr)). live t (r k) = None"
      then show "answers_for k (limit_trace m w (q # tr) r) = fixed_window m (seconds w) (times_of k (q # tr))"
        using True q by (intro opens) simp
    qed
  qed
qed

text \<open>
  Claim C32 (equivalence): the script is a fixed-window limiter per key.  While Redis answers, the
  answers to a key's requests are those of the reference, whatever requests for other keys come in
  between: a window opens at the first request after the previous one closed, its first
  \<open>max_requests\<close> requests are allowed and the others refused.
\<close>

theorem rate_limit_fixed_window:
  assumes "0 < window" and "sorted (map fst tr)" and "r k = None"
  shows "map snd (filter (\<lambda>a. fst a = k) (limit_trace max_requests window tr r)) =
    fixed_window max_requests (seconds window) (map fst (filter (\<lambda>q. snd q = k) tr))"
  using limit_trace_from [OF assms(1,2), of r k max_requests] assms(3) by (simp add: live_def)

theorem rate_limit_fixed_window_witness:
  "map snd (filter (\<lambda>a. fst a = ''a'') (limit_trace 2 1 [(0, ''a''), (1, ''b''), (2, ''a''), (3, ''a''), (1000000, ''a'')] (\<lambda>_. None)))
     = [True, True, False, True]"
proof -
  have "fixed_window 2 (seconds 1) [0, 2, 3, 1000000] = [True, True, False, True]"
    by (simp add: fixed_window_def seconds_def)
  moreover have "map fst (filter (\<lambda>q. snd q = ''a'') [(0 :: int, ''a''), (1, ''b''), (2, ''a''), (3, ''a''), (1000000, ''a'')]) = [0, 2, 3, 1000000]"
    by simp
  moreover have "sorted (map fst [(0 :: int, ''a''), (1, ''b''), (2, ''a''), (3, ''a''), (1000000, ''a'')])" by simp
  ultimately show ?thesis
    using rate_limit_fixed_window [where window = 1 and r = "\<lambda>_. None" and k = "''a''" and max_requests = 2
      and tr = "[(0, ''a''), (1, ''b''), (2, ''a''), (3, ''a''), (1000000, ''a'')]"] by simp
qed

lemma is_allowed_fail_open: "outage \<noteq> Answers \<Longrightarrow> fst (is_allowed outage now k m w r)"
  by (cases outage) (simp_all add: is_allowed_def)

end
