(* ===== verification/Accounts.thy ===== *)
theory Accounts
  imports Auth RateLimit Machine
begin

section \<open>The requests on accounts and organizations\<close>

text \<open>
  The endpoints of \<open>src/auth/routes.py\<close> and \<open>src/tenants/routes.py\<close> behind the
  dependencies \<open>get_current_user\<close>, \<open>get_current_tenant\<close> (\<open>src/tenants/dependencies.py\<close>) and
  \<open>get_db_session\<close>, after the validation of the request body.  A request maps the database and
  the rate limiter's Redis to its reply and their new states; an exception rolls the database
  back, not Redis.
\<close>

subsection \<open>The current tenant\<close>

record tenant_context =
  tc_org_id :: uuid
  tc_role :: role

record limits =
  rate_limit_requests :: int
  rate_limit_window_seconds :: int

definition get_current_tenant ::
  "limits \<Rightarrow> redis_outage \<Rightarrow> timestamp \<Rightarrow> string option \<Rightarrow> user \<Rightarrow> database \<Rightarrow> redis \<Rightarrow>
     (exn, tenant_context) outcome \<times> redis" where
  "get_current_tenant lims outage now x_tenant_id user db r =
     (case (case x_tenant_id of
              None \<Rightarrow> Inr None
            | Some s \<Rightarrow> if s = '''' then Inr None
                else (case parse_uuid s of
                        None \<Rightarrow> Inl (App (ValidationError ''X-Tenant-ID must be a valid UUID.''))
                      | Some t \<Rightarrow> Inr (Some t))) of
        Inl e \<Rightarrow> (Inl e, r)
      | Inr requested_org_id \<Rightarrow>
          (case resolve_membership (u_id user) requested_org_id db of
             Inl e \<Rightarrow> (Inl e, r)
           | Inr m \<Rightarrow>
               (let (allowed, r1) = is_allowed outage now (''ratelimit:tenant:'' @ uuid_str (m_org_id m))
                      (rate_limit_requests lims) (rate_limit_window_seconds lims) r
                in if \<not> allowed then (Inl (App rate_limit_error), r1)
                   else (Inr \<lparr>tc_org_id = m_org_id m, tc_role = m_role m\<rparr>, r1))))"

subsection \<open>The endpoints\<close>

datatype account_request =
    GoogleLogin string
  | Refresh string
  | GetMe
  | CreateApiKey string
  | ListApiKeys
  | RevokeApiKey uuid
  | CreateOrganization string "string option"
  | ListOrganizations
  | ListMembers
  | RemoveMember uuid
  | CreateInvite string role
  | ListPendingInvites
  | AcceptInvite uuid

datatype reply =
    Tokens string string
  | Me user
  | NewKey string api_key
  | Keys "api_key list"
  | NoContent
  | NewOrganization organization
  | Memberships "membership list"
  | Members "(membership \<times> string) list"
  | Invited invite
  | Invites "invite list"
  | Joined membership

text \<open>What a request meets: libraries, settings, limits, random draws, Redis, its headers.\<close>

record context_of_request =
  cx_crypto :: crypto
  cx_settings :: auth_settings
  cx_limits :: limits
  cx_env :: auth_env
  cx_outage :: redis_outage
  cx_credentials :: "string option"
  cx_tenant_header :: "string option"

definition reply_with :: "('a \<Rightarrow> 'b) \<Rightarrow> ('e, 'a) outcome \<times> 'd \<Rightarrow> ('e, 'b) outcome \<times> 'd" where
  "reply_with f res = (case res of (Inl e, d) \<Rightarrow> (Inl e, d) | (Inr x, d) \<Rightarrow> (Inr (f x), d))"

definition as_user ::
  "context_of_request \<Rightarrow> (user \<Rightarrow> database \<Rightarrow> (exn, reply) outcome \<times> database) \<Rightarrow>
     database \<Rightarrow> (exn, reply) outcome \<times> database" where
  "as_user cx body db =
     (case get_current_user (cx_crypto cx) (cx_settings cx) (env_now (cx_env cx)) (cx_credentials cx) db of
        (Inl e, db1) \<Rightarrow> (Inl e, db1)
      | (Inr user, db1) \<Rightarrow> body user db1)"

definition as_member ::
  "context_of_request \<Rightarrow> (user \<Rightarrow> tenant_context \<Rightarrow> database \<Rightarrow> (exn, reply) outcome \<times> database) \<Rightarrow>
     database \<Rightarrow> redis \<Rightarrow> (exn, reply) outcome \<times> database \<times> redis" where
  "as_member cx body db r =
     (case get_current_user (cx_crypto cx) (cx_settings cx) (env_now (cx_env cx)) (cx_credentials cx) db of
        (Inl e, db1) \<Rightarrow> (Inl e, db1, r)
      | (Inr user, db1) \<Rightarrow>
          (case get_current_tenant (cx_limits cx) (cx_outage cx) (env_now (cx_env cx)) (cx_tenant_header cx) user db1 r of
             (Inl e, r1) \<Rightarrow> (Inl e, db1, r1)
           | (Inr tenant, r1) \<Rightarrow> (case body user tenant db1 of (x, db2) \<Rightarrow> (x, db2, r1))))"

definition remove_member_body :: "uuid \<Rightarrow> user \<Rightarrow> tenant_context \<Rightarrow> database \<Rightarrow> (exn, reply) outcome \<times> database" where
  "remove_member_body target user tenant db =
     (case require_role (tc_role tenant) {Admin} of
        Inl e \<Rightarrow> (Inl e, db)
      | Inr _ \<Rightarrow> reply_with (\<lambda>_. NoContent) (remove_member (tc_org_id tenant) target (u_id user) db))"

definition create_invite_body ::
  "context_of_request \<Rightarrow> string \<Rightarrow> role \<Rightarrow> user \<Rightarrow> tenant_context \<Rightarrow> database \<Rightarrow> (exn, reply) outcome \<times> database" where
  "create_invite_body cx email r user tenant db =
     (case require_role (tc_role tenant) {Admin} of
        Inl e \<Rightarrow> (Inl e, db)
      | Inr _ \<Rightarrow> reply_with Invited
          (create_invite (sha256_hex (cx_crypto cx) (env_random (cx_env cx))) (env_row_id (cx_env cx))
             (env_now (cx_env cx)) (env_tx_now (cx_env cx)) (tc_org_id tenant) email r (u_id user) db))"

definition user_body ::
  "context_of_request \<Rightarrow> account_request \<Rightarrow> user \<Rightarrow> database \<Rightarrow> (exn, reply) outcome \<times> database" where
  "user_body cx req user db =
     (let env = cx_env cx
      in case req of
           GetMe \<Rightarrow> (Inr (Me user), db)
         | CreateApiKey name \<Rightarrow>
             reply_with (\<lambda>(full_key, key). NewKey full_key key) (create_user_api_key (cx_crypto cx) env (u_id user) name db)
         | ListApiKeys \<Rightarrow> (Inr (Keys (list_user_api_keys (u_id user) db)), db)
         | RevokeApiKey key_id \<Rightarrow> reply_with (\<lambda>_. NoContent) (revoke_user_api_key (u_id user) key_id db)
         | CreateOrganization name slug \<Rightarrow>
             reply_with NewOrganization
               (create_organization name (u_id user) slug (env_org_id env) (env_membership_id env) (env_tx_now env) db)
         | ListOrganizations \<Rightarrow> (Inr (Memberships (list_memberships (u_id user) db)), db)
         | ListPendingInvites \<Rightarrow> (Inr (Invites (list_pending_invites (u_email user) db)), db)
         | AcceptInvite invite_id \<Rightarrow>
             reply_with Joined (accept_invite (env_membership_id env) (env_now env) (env_tx_now env) invite_id
               (u_id user) (u_email user) db)
         | _ \<Rightarrow> (Inl (OtherError ''not an endpoint of a user''), db))"

definition serve ::
  "context_of_request \<Rightarrow> account_request \<Rightarrow> database \<Rightarrow> redis \<Rightarrow> (exn, reply) outcome \<times> database \<times> redis" where
  "serve cx req db r =
     (case req of
        GoogleLogin credential \<Rightarrow>
          (case reply_with (\<lambda>(a, t). Tokens a t) (google_login (cx_crypto cx) (cx_settings cx) (cx_env cx) credential db) of
             (x, db1) \<Rightarrow> (x, db1, r))
      | Refresh raw_token \<Rightarrow>
          (case reply_with (\<lambda>(a, t). Tokens a t)
                  (refresh_access_token (cx_crypto cx) (cx_settings cx) (cx_env cx) id raw_token db) of
             (x, db1) \<Rightarrow> (x, db1, r))
      | ListMembers \<Rightarrow> as_member cx (\<lambda>user tenant db. (Inr (Members (list_org_members (tc_org_id tenant) db)), db)) db r
      | RemoveMember target \<Rightarrow> as_member cx (remove_member_body target) db r
      | CreateInvite email role \<Rightarrow> as_member cx (create_invite_body cx email role) db r
      | _ \<Rightarrow> (case as_user cx (user_body cx req) db of (x, db1) \<Rightarrow> (x, db1, r)))"

definition handle ::
  "context_of_request \<Rightarrow> account_request \<Rightarrow> database \<times> redis \<Rightarrow> (exn, reply) outcome \<times> database \<times> redis" where
  "handle cx req w =
     (case serve cx req (fst w) (snd w) of
        (Inl e, _, r1) \<Rightarrow> (Inl e, fst w, r1)
      | (Inr x, db1, r1) \<Rightarrow> (Inr x, db1, r1))"

text \<open>One request after another.\<close>

fun run_requests :: "(context_of_request \<times> account_request) list \<Rightarrow> database \<times> redis \<Rightarrow> database \<times> redis" where
  "run_requests [] w = w"
| "run_requests ((cx, req) # rest) w = run_requests rest (snd (handle cx req w))"

inductive account_step :: "database \<times> redis \<Rightarrow> database \<times> redis \<Rightarrow> bool" where
  request: "handle cx req w = (x, w') \<Longrightarrow> account_step w w'"

end
