(* ===== verification/AccountInvariant.thy ===== *)
theory AccountInvariant
  imports Accounts
begin

section \<open>The invariant of accounts and organizations\<close>

text \<open>
  What every sequence of requests keeps: the unique keys and references of the tables, an admin
  for every organization, at most one pending invitation per organization and address, and no
  pending invitation for a member.
\<close>

definition referenced :: "database \<Rightarrow> bool" where
  "referenced db \<longleftrightarrow>
     (\<forall>m \<in> set (memberships db). org_exists db (m_org_id m) \<and> user_exists db (m_user_id m)) \<and>
     (\<forall>i \<in> set (invites db). org_exists db (i_org_id i) \<and> invite_status_valid (i_status i)) \<and>
     (\<forall>t \<in> set (refresh_tokens db). user_exists db (t_user_id t)) \<and>
     (\<forall>k \<in> set (api_keys db). user_exists db (k_user_id k))"

definition administered :: "database \<Rightarrow> bool" where
  "administered db \<longleftrightarrow>
     (\<forall>g \<in> set (organizations db). \<exists>m \<in> set (memberships db). m_org_id m = o_id g \<and> m_role m = Admin)"

definition pending_unique :: "database \<Rightarrow> bool" where
  "pending_unique db \<longleftrightarrow>
     (\<forall>i \<in> set (invites db). \<forall>j \<in> set (invites db).
        i_status i = Pending \<longrightarrow> i_status j = Pending \<longrightarrow> i_org_id i = i_org_id j \<longrightarrow> i_email i = i_email j \<longrightarrow> i = j)"

definition pending_outside :: "database \<Rightarrow> bool" where
  "pending_outside db \<longleftrightarrow>
     (\<forall>i \<in> set (invites db). \<forall>u \<in> set (users db). i_status i = Pending \<longrightarrow> u_email u = i_email i \<longrightarrow>
        (i_org_id i, u_id u) \<notin> (\<lambda>m. (m_org_id m, m_user_id m)) ` set (memberships db))"

definition keys_wf :: "database \<Rightarrow> bool" where
  "keys_wf db \<longleftrightarrow> user_ids.keyed db \<and> user_emails.keyed db \<and> org_ids.keyed db \<and> org_slugs.keyed db \<and>
     member_ids.keyed db \<and> member_keys.keyed db \<and> invite_ids.keyed db \<and> token_hashes.keyed db \<and>
     api_key_ids.keyed db"

definition accounts_wf :: "database \<Rightarrow> bool" where
  "accounts_wf db \<longleftrightarrow> keys_wf db \<and> referenced db \<and> administered db \<and> pending_unique db \<and> pending_outside db"

lemmas keyed_defs = user_ids.keyed_def user_emails.keyed_def org_ids.keyed_def org_slugs.keyed_def
  member_ids.keyed_def member_keys.keyed_def invite_ids.keyed_def token_hashes.keyed_def api_key_ids.keyed_def

lemma accounts_wfD:
  assumes "accounts_wf db"
  shows "user_ids.keyed db" "user_emails.keyed db" "org_ids.keyed db" "org_slugs.keyed db"
    "member_ids.keyed db" "member_keys.keyed db" "invite_ids.keyed db" "token_hashes.keyed db"
    "api_key_ids.keyed db" "referenced db" "administered db" "pending_unique db" "pending_outside db"
  using assms by (simp_all add: accounts_wf_def keys_wf_def)

lemma referencedD:
  assumes "referenced db"
  shows "m \<in> set (memberships db) \<Longrightarrow> org_exists db (m_org_id m)"
    "m \<in> set (memberships db) \<Longrightarrow> user_exists db (m_user_id m)"
    "i \<in> set (invites db) \<Longrightarrow> org_exists db (i_org_id i)"
    "i \<in> set (invites db) \<Longrightarrow> invite_status_valid (i_status i)"
    "t \<in> set (refresh_tokens db) \<Longrightarrow> user_exists db (t_user_id t)"
    "k \<in> set (api_keys db) \<Longrightarrow> user_exists db (k_user_id k)"
  using assms unfolding referenced_def by blast+

lemma accounts_wf_empty: "accounts_wf \<lparr>users = [], api_keys = [], refresh_tokens = [], organizations = [],
  memberships = [], invites = [], documents = ds, chunks = cs, jobs = js\<rparr>"
  by (simp add: accounts_wf_def keys_wf_def keyed_defs referenced_def administered_def pending_unique_def
      pending_outside_def)

subsection \<open>The operations keep it\<close>

lemma wf_insert_user:
  assumes "accounts_wf db" and "insert_user u db = Inr db'"
  shows "accounts_wf db'"
proof -
  have db': "db' = db \<lparr>users := users db @ [u]\<rparr>"
    and new: "u_id u \<notin> u_id ` set (users db)" "u_email u \<notin> u_email ` set (users db)"
    using assms(2) by (simp_all add: insert_user_def)
  have "keys_wf db'"
    using assms(1) new unfolding db' by (simp add: accounts_wf_def keys_wf_def keyed_defs)
  moreover have "referenced db'" "administered db'" "pending_unique db'"
    using assms(1) unfolding db'
    by (simp_all add: accounts_wf_def referenced_def administered_def pending_unique_def)
  moreover have "pending_outside db'"
  proof -
    have "(i_org_id i, u_id u) \<notin> (\<lambda>m. (m_org_id m, m_user_id m)) ` set (memberships db)" for i :: invite
      using referencedD(2) [OF accounts_wfD(10) [OF assms(1)]] new(1) by auto
    then show ?thesis
      using accounts_wfD(13) [OF assms(1)] unfolding db' pending_outside_def by simp
  qed
  ultimately show ?thesis by (simp add: accounts_wf_def)
qed

lemma wf_new_organization:
  assumes wf: "accounts_wf db" and 1: "insert_organization g db = Inr db1"
    and 2: "insert_membership m db1 = Inr db'" and m: "m_org_id m = o_id g" "m_role m = Admin"
  shows "accounts_wf db'"
proof -
  have db1: "db1 = db \<lparr>organizations := organizations db @ [g]\<rparr>"
    and g: "o_id g \<notin> o_id ` set (organizations db)" "o_slug g \<notin> o_slug ` set (organizations db)"
    using 1 by (simp_all add: insert_organization_def)
  have db': "db' = db1 \<lparr>memberships := memberships db1 @ [m]\<rparr>"
    and new: "m_id m \<notin> m_id ` set (memberships db1)"
      "(m_org_id m, m_user_id m) \<notin> (\<lambda>m. (m_org_id m, m_user_id m)) ` set (memberships db1)"
      "org_exists db1 (m_org_id m)" "user_exists db1 (m_user_id m)"
    using 2 by (simp_all add: insert_membership_def)
  note parts = accounts_wfD [OF wf]
  have "keys_wf db'"
    using wf g new(1,2) unfolding db' db1 by (simp add: accounts_wf_def keys_wf_def keyed_defs)
  moreover have "referenced db'"
    using parts(10) new(3,4) unfolding db' db1 referenced_def by auto
  moreover have "administered db'"
    using parts(11) m unfolding db' db1 administered_def by auto
  moreover have "pending_unique db'"
    using parts(12) unfolding db' db1 pending_unique_def by simp
  moreover have "pending_outside db'"
  proof -
    have "i_org_id i \<noteq> m_org_id m" if "i \<in> set (invites db)" for i
      using referencedD(3) [OF parts(10) that] g(1) m(1) by metis
    then show ?thesis using parts(13) unfolding db' db1 pending_outside_def by auto
  qed
  ultimately show ?thesis by (simp add: accounts_wf_def)
qed

lemma create_organization_Inr:
  assumes "create_organization name uid slug g_id m_id' tx db = (Inr g, db')"
  obtains m db1 where "insert_organization g db = Inr db1" "insert_membership m db1 = Inr db'"
    "o_id g = g_id" "m_org_id m = o_id g" "m_user_id m = uid" "m_role m = Admin"
  using assms by (auto simp: create_organization_def Let_def split: sum.splits exn.splits)

lemma wf_create_organization:
  "accounts_wf db \<Longrightarrow> create_organization name uid slug g_id m_id' tx db = (Inr g, db') \<Longrightarrow> accounts_wf db'"
  by (erule create_organization_Inr) (rule wf_new_organization)

text \<open>Tokens and keys: the other tables are untouched.\<close>

lemma wf_other_tables:
  assumes "accounts_wf db" and "users db' = users db" "organizations db' = organizations db"
    "memberships db' = memberships db" "invites db' = invites db"
    and "token_hashes.keyed db'" "api_key_ids.keyed db'"
    and "\<forall>t \<in> set (refresh_tokens db'). user_exists db (t_user_id t)"
    and "\<forall>k \<in> set (api_keys db'). user_exists db (k_user_id k)"
  shows "accounts_wf db'"
  using assms
  unfolding accounts_wf_def keys_wf_def keyed_defs referenced_def administered_def pending_unique_def pending_outside_def
  by simp

lemma wf_insert_refresh_token:
  assumes "accounts_wf db" and "insert_refresh_token t db = Inr db'"
  shows "accounts_wf db'"
proof (rule wf_other_tables [OF assms(1)])
  show "token_hashes.keyed db'" using accounts_wfD(8) [OF assms(1)] assms(2) by (rule token_hashes.ins_keyed)
qed (use assms accounts_wfD(9,10) [OF assms(1)] in
    \<open>auto simp: insert_refresh_token_def referenced_def api_key_ids.keyed_def\<close>)

lemma wf_delete_token:
  assumes "accounts_wf db"
  shows "accounts_wf (delete_token t db)"
proof (rule wf_other_tables [OF assms])
  show "token_hashes.keyed (delete_token t db)"
    using accounts_wfD(8) [OF assms] by (rule token_hashes.delete_keyed) (simp add: delete_token_def)
  show "api_key_ids.keyed (delete_token t db)"
    using accounts_wfD(9) [OF assms] by (rule api_key_ids.same_keyed) (simp add: delete_token_def)
  show "\<forall>s \<in> set (refresh_tokens (delete_token t db)). user_exists db (t_user_id s)"
    using referencedD(5) [OF accounts_wfD(10) [OF assms]] by (simp add: delete_token_def)
  show "\<forall>k \<in> set (api_keys (delete_token t db)). user_exists db (k_user_id k)"
    using referencedD(6) [OF accounts_wfD(10) [OF assms]] by (simp add: delete_token_def)
qed (simp_all add: delete_token_def)

lemma issue_refresh_token_Inr:
  assumes "issue_refresh_token cr st env u db = (Inr x, db')"
  obtains t where "insert_refresh_token t db = Inr db'" "t_id t = env_row_id env" "t_user_id t = u_id u"
    "t_token_hash t = sha256_hex cr (env_random env)"
    "t_expires_at t = env_now env + days (jwt_refresh_token_expire_days st)"
    "x = (create_access_token cr st (env_now env) (uuid_str (u_id u)) (u_email u), env_random env)"
  using assms
  by (auto simp: issue_refresh_token_def generate_refresh_token_def Let_def split: sum.splits)

lemma wf_issue_refresh_token:
  assumes "accounts_wf db" and "issue_refresh_token cr st env u db = (Inr x, db')"
  shows "accounts_wf db'"
  using assms(2) by (rule issue_refresh_token_Inr) (rule wf_insert_refresh_token [OF assms(1)])

lemma wf_insert_api_key:
  assumes "accounts_wf db" and "insert_api_key k db = Inr db'"
  shows "accounts_wf db'"
proof (rule wf_other_tables [OF assms(1)])
  show "api_key_ids.keyed db'" using accounts_wfD(9) [OF assms(1)] assms(2) by (rule api_key_ids.ins_keyed)
qed (use assms accounts_wfD(8,10) [OF assms(1)] in
    \<open>auto simp: insert_api_key_def referenced_def token_hashes.keyed_def\<close>)

lemma wf_update_api_key:
  assumes "accounts_wf db" and "\<And>k. k_id (f k) = k_id k" "\<And>k. k_user_id (f k) = k_user_id k"
  shows "accounts_wf (db \<lparr>api_keys := update_where P f (api_keys db)\<rparr>)"
proof (rule wf_other_tables [OF assms(1)])
  show "api_key_ids.keyed (db \<lparr>api_keys := update_where P f (api_keys db)\<rparr>)"
    by (rule api_key_ids.update_keyed [OF accounts_wfD(9) [OF assms(1)] assms(2)]) simp
  show "\<forall>k \<in> set (api_keys (db \<lparr>api_keys := update_where P f (api_keys db)\<rparr>)). user_exists db (k_user_id k)"
    using accounts_wfD(10) [OF assms(1)] assms(3) by (auto simp: referenced_def set_update_where)
qed (use accounts_wfD(8,10) [OF assms(1)] in \<open>auto simp: referenced_def token_hashes.keyed_def\<close>)

subsection \<open>Login, refresh and keys\<close>

lemma register_user_Inr:
  assumes "register_user env email db = (Inr u, db')"
  obtains db1 g where "insert_user u db = Inr db1" "u_id u = env_user_id env" "u_email u = email" "u_is_active u"
    "create_personal_organization (u_id u) (u_email u) (env_org_id env) (env_membership_id env) (env_tx_now env) db1 =
      (Inr g, db')"
  using assms by (auto simp: register_user_def Let_def split: sum.splits exn.splits prod.splits)

lemma wf_create_personal_organization:
  "accounts_wf db \<Longrightarrow> create_personal_organization uid email g_id m_id' tx db = (Inr g, db') \<Longrightarrow> accounts_wf db'"
  unfolding create_personal_organization_def Let_def by (rule wf_create_organization)

lemma wf_register_user:
  assumes "accounts_wf db" and "register_user env email db = (Inr u, db')"
  shows "accounts_wf db'"
  using assms(2)
  by (rule register_user_Inr) (rule wf_create_personal_organization [OF wf_insert_user [OF assms(1)]])

text \<open>A login finds the user of the verified address, or registers one.\<close>

lemma google_login_Inr:
  assumes "google_login cr st env credential db = (Inr x, db')"
  obtains (known) email u where "verified_email cr credential = Inr email"
      "filter (\<lambda>u. u_email u = email) (users db) = [u]" "u_is_active u"
      "issue_refresh_token cr st env u db = (Inr x, db')"
  | (registered) email u db1 where "verified_email cr credential = Inr email"
      "filter (\<lambda>u. u_email u = email) (users db) = []" "register_user env email db = (Inr u, db1)"
      "u_is_active u" "issue_refresh_token cr st env u db1 = (Inr x, db')"
proof (cases "verified_email cr credential")
  case (Inl e)
  with assms show ?thesis by (simp add: google_login_def)
next
  case email: (Inr email)
  note run = assms [unfolded google_login_def email sum.case]
  show ?thesis
  proof (cases "filter (\<lambda>u. u_email u = email) (users db)" rule: scalar_one_or_none_cases)
    case 1
    then obtain u db1 where "register_user env email db = (Inr u, db1)" "u_is_active u"
      "issue_refresh_token cr st env u db1 = (Inr x, db')"
      using run by (auto split: prod.splits sum.splits if_splits)
    with email 1 show ?thesis by (intro registered)
  next
    case (2 u)
    with run have "u_is_active u" "issue_refresh_token cr st env u db = (Inr x, db')"
      by (auto split: if_splits)
    with email 2 show ?thesis by (intro known)
  next
    case 3
    with run show ?thesis by simp
  qed
qed

lemma wf_google_login:
  assumes "accounts_wf db" and "google_login cr st env credential db = (Inr x, db')"
  shows "accounts_wf db'"
  using assms(2)
proof (cases rule: google_login_Inr)
  case (known email u)
  then show ?thesis using wf_issue_refresh_token [OF assms(1)] by blast
next
  case (registered email u db1)
  then show ?thesis using wf_issue_refresh_token [OF wf_register_user [OF assms(1)]] by blast
qed

lemma refresh_access_token_Inr:
  assumes "refresh_access_token cr st env others raw db = (Inr x, db')"
  obtains t u db1 where "filter (\<lambda>t. t_token_hash t = hash_refresh_token cr raw) (refresh_tokens db) = [t]"
    "\<not> t_expires_at t < env_now env" "owner (t_user_id t) db = Inr u" "u_is_active u"
    "issue_refresh_token cr st env u (others db) = (Inr x, db1)" "db' = delete_token t db1"
proof (cases "filter (\<lambda>t. t_token_hash t = hash_refresh_token cr raw) (refresh_tokens db)"
    rule: scalar_one_or_none_cases)
  case (2 t)
  note run = assms [unfolded refresh_access_token_def 2(1) sum.case option.case]
  from run have fresh: "\<not> t_expires_at t < env_now env" by (auto split: if_splits)
  with run obtain u where u: "owner (t_user_id t) db = Inr u" by (auto split: sum.splits)
  with run fresh have active: "u_is_active u" by (auto split: if_splits)
  from run fresh u active obtain db1 where "issue_refresh_token cr st env u (others db) = (Inr x, db1)"
    "db' = delete_token t db1" by (auto split: prod.splits sum.splits)
  with 2(2) fresh u active show ?thesis by (intro that)
qed (use assms in \<open>simp_all add: refresh_access_token_def\<close>)

lemma wf_refresh_access_token:
  assumes "accounts_wf (others db)" and "refresh_access_token cr st env others raw db = (Inr x, db')"
  shows "accounts_wf db'"
  using assms(2) by (rule refresh_access_token_Inr) (use wf_issue_refresh_token [OF assms(1)] wf_delete_token in blast)

lemma wf_create_user_api_key:
  assumes "accounts_wf db" and "create_user_api_key cr env uid name db = (Inr x, db')"
  shows "accounts_wf db'"
proof -
  from assms(2) obtain k where "insert_api_key k db = Inr db'"
    by (auto simp: create_user_api_key_def Let_def split: sum.splits prod.splits)
  with assms(1) show ?thesis by (rule wf_insert_api_key)
qed

lemma wf_revoke_user_api_key:
  assumes "accounts_wf db" and "revoke_user_api_key uid kid db = (Inr x, db')"
  shows "accounts_wf db'"
proof -
  have "accounts_wf (db \<lparr>api_keys := update_where P (\<lambda>k. k \<lparr>k_is_active := False\<rparr>) (api_keys db)\<rparr>)" for P
    using assms(1) by (rule wf_update_api_key) simp_all
  with assms show ?thesis
    by (auto simp: revoke_user_api_key_def split: sum.splits option.splits)
qed

text \<open>Authentication by key: an active key with the same prefix verifies, and its use is noted.\<close>

lemma try_keys_Inr:
  "try_keys cr now raw ks db = (Inr u, db') \<Longrightarrow>
    \<exists>key \<in> set ks. verify_api_key cr raw (k_key_hash key) \<and> owner (k_user_id key) db = Inr u \<and> u_is_active u \<and>
      db' = db \<lparr>api_keys := update_where (\<lambda>k. k_id k = k_id key) (\<lambda>k. k \<lparr>k_last_used_at := Some now\<rparr>) (api_keys db)\<rparr>"
proof (induction ks)
  case (Cons key ks)
  show ?case
  proof (cases "verify_api_key cr raw (k_key_hash key)")
    case True
    with Cons.prems show ?thesis by (auto split: sum.splits if_splits)
  qed (use Cons in auto)
qed simp

lemma owner_Inr: "owner uid db = Inr u \<Longrightarrow> u \<in> set (users db) \<and> u_id u = uid"
  unfolding owner_def by (auto split: option.splits dest!: scalars_first_in)

text \<open>The user a request acts for is a row of the database, and looking it up changes no account.\<close>

lemma get_current_user_Inr:
  assumes "get_current_user cr st now cred db = (Inr u, db')"
  shows "u \<in> set (users db) \<and> u_is_active u \<and> users db' = users db \<and> organizations db' = organizations db \<and>
    memberships db' = memberships db \<and> invites db' = invites db \<and> refresh_tokens db' = refresh_tokens db \<and>
    documents db' = documents db \<and> chunks db' = chunks db \<and> jobs db' = jobs db"
proof (cases cred)
  case None
  with assms show ?thesis by (simp add: get_current_user_def)
next
  case (Some token)
  show ?thesis
  proof (cases "startswith token api_key_prefix")
    case True
    with assms Some have "authenticate_api_key cr now token db = (Inr u, db')"
      by (simp add: get_current_user_def)
    from try_keys_Inr [OF this [unfolded authenticate_api_key_def]] show ?thesis using owner_Inr by auto
  next
    case False
    with assms Some have jwt: "authenticate_jwt cr st now token db = Inr u" and "db = db'"
      by (auto simp: get_current_user_def)
    from jwt obtain uid found where "scalar_one_or_none (filter (\<lambda>u. u_id u = uid) (users db)) = Inr (Some found)"
      "u = found" "u_is_active found"
      unfolding authenticate_jwt_def
      by (auto dest!: try_bind_InrD split: option.splits if_splits)
    then have "u \<in> set (filter (\<lambda>u. u_id u = uid) (users db))" by (simp add: scalar_one_or_none_Some)
    with \<open>db = db'\<close> \<open>u = found\<close> \<open>u_is_active found\<close> show ?thesis by simp
  qed
qed

lemma wf_get_current_user:
  assumes "accounts_wf db" and "get_current_user cr st now cred db = (Inr u, db')"
  shows "accounts_wf db'"
proof (cases "\<exists>token. cred = Some token \<and> startswith token api_key_prefix")
  case True
  then obtain token where "authenticate_api_key cr now token db = (Inr u, db')"
    using assms(2) by (auto simp: get_current_user_def)
  from try_keys_Inr [OF this [unfolded authenticate_api_key_def]] show ?thesis
    using wf_update_api_key [OF assms(1), of "\<lambda>k. k \<lparr>k_last_used_at := Some now\<rparr>"] by auto
next
  case False
  with assms show ?thesis by (auto simp: get_current_user_def split: option.splits)
qed

subsection \<open>Members and invitations\<close>

lemma resolve_membership_Inr:
  assumes "resolve_membership uid org db = Inr m"
  shows "m \<in> set (memberships db) \<and> m_user_id m = uid \<and> (\<forall>t. org = Some t \<longrightarrow> m_org_id m = t)"
proof -
  from assms have "scalars_first (order_by_asc m_created_at (filter (\<lambda>m. m_user_id m = uid \<and>
      (case org of None \<Rightarrow> True | Some t \<Rightarrow> m_org_id m = t)) (memberships db))) = Some m"
    unfolding resolve_membership_def Let_def
    by (cases "scalars_first (order_by_asc m_created_at (filter (\<lambda>m. m_user_id m = uid \<and>
      (case org of None \<Rightarrow> True | Some t \<Rightarrow> m_org_id m = t)) (memberships db)))") (simp_all split: if_splits)
  from scalars_first_in [OF this] show ?thesis by auto
qed

lemma remove_member_Inr:
  assumes "remove_member t target current db = (Inr x, db')"
  obtains m where "m \<in> set (memberships db)" "m_org_id m = t" "m_user_id m = target" "target \<noteq> current"
    "db' = db \<lparr>memberships := filter (\<lambda>k. m_id k \<noteq> m_id m) (memberships db)\<rparr>"
proof (cases "filter (\<lambda>m. (m_org_id m, m_user_id m) = (t, target)) (memberships db)" rule: scalar_one_or_none_cases)
  case (2 m)
  then have "m \<in> set (filter (\<lambda>m. (m_org_id m, m_user_id m) = (t, target)) (memberships db))" by simp
  with assms 2(1) show ?thesis by (intro that [of m]) (auto simp: remove_member_def split: if_splits)
qed (use assms in \<open>auto simp: remove_member_def split: if_splits\<close>)

text \<open>The acting admin stays, so the organization keeps an admin.\<close>

lemma wf_remove_member:
  assumes wf: "accounts_wf db" and run: "remove_member t target current db = (Inr x, db')"
    and admin: "k \<in> set (memberships db)" "m_org_id k = t" "m_user_id k = current" "m_role k = Admin"
  shows "accounts_wf db'"
proof -
  from run obtain m where m: "m \<in> set (memberships db)" "m_org_id m = t" "m_user_id m = target"
    and other: "target \<noteq> current"
    and db': "db' = db \<lparr>memberships := filter (\<lambda>k. m_id k \<noteq> m_id m) (memberships db)\<rparr>"
    by (rule remove_member_Inr)
  note parts = accounts_wfD [OF wf]
  have kept: "a \<in> set (memberships db')" if "a \<in> set (memberships db)" "a \<noteq> m" for a
    using that member_ids.unique [OF parts(5) that(1) m(1)] by (auto simp: db')
  have "keys_wf db'"
    using wf unfolding accounts_wf_def keys_wf_def keyed_defs db' by (simp add: distinct_map_filter)
  moreover have "referenced db'" using parts(10) unfolding referenced_def db' by simp
  moreover have "administered db'"
    unfolding administered_def
  proof
    fix g assume "g \<in> set (organizations db')"
    then have "g \<in> set (organizations db)" by (simp add: db')
    with parts(11) obtain a where a: "a \<in> set (memberships db)" "m_org_id a = o_id g" "m_role a = Admin"
      unfolding administered_def by blast
    show "\<exists>a \<in> set (memberships db'). m_org_id a = o_id g \<and> m_role a = Admin"
    proof (cases "a = m")
      case True
      have "k \<noteq> m" using admin(3) m(3) other by auto
      then show ?thesis using kept admin a True m(2) by metis
    qed (use kept a in blast)
  qed
  moreover have "pending_unique db'" using parts(12) unfolding pending_unique_def db' by simp
  moreover have "pending_outside db'"
    using parts(13) unfolding pending_outside_def db' by auto
  ultimately show ?thesis by (simp add: accounts_wf_def)
qed

text \<open>An invitation is created only for an address without pending invitation and membership.\<close>

lemma create_invite_Inr:
  assumes "create_invite h iid now tx t email r inviter db = (Inr i, db')"
  shows "insert_invite i db = Inr db'" "i_org_id i = t" "i_email i = email" "i_status i = Pending"
    "i_role i = r" "i_expires_at i = now + days 7" "i_id i = iid"
    "filter (pending_for t email) (invites db) = []" "member_check t email db = Inr ()"
  using assms
  by (auto simp: create_invite_def Let_def scalar_one_or_none_None split: sum.splits option.splits)

lemma member_check_Inr:
  assumes "member_check t email db = Inr ()" and "u \<in> set (users db)" "u_email u = email" "user_emails.keyed db"
  shows "(t, u_id u) \<notin> (\<lambda>m. (m_org_id m, m_user_id m)) ` set (memberships db)"
proof -
  have "scalar_one_or_none (filter (\<lambda>v. u_email v = email) (users db)) = Inr (Some u)"
    using user_emails.lookup [OF assms(4,2)] assms(3) by simp
  with assms(1) have "scalar_one_or_none (filter (\<lambda>m. (m_org_id m, m_user_id m) = (t, u_id u)) (memberships db)) = Inr None"
    by (cases "scalar_one_or_none (filter (\<lambda>m. (m_org_id m, m_user_id m) = (t, u_id u)) (memberships db))")
       (auto simp: member_check_def split: if_splits)
  then show ?thesis by (auto simp: scalar_one_or_none_None filter_empty_conv)
qed

lemma wf_create_invite:
  assumes wf: "accounts_wf db" and run: "create_invite h iid now tx t email r inviter db = (Inr i, db')"
  shows "accounts_wf db'"
proof -
  note new = create_invite_Inr [OF run] and parts = accounts_wfD [OF wf]
  have db': "db' = db \<lparr>invites := invites db @ [i]\<rparr>" and ins: "i_id i \<notin> i_id ` set (invites db)"
    "org_exists db (i_org_id i)" "invite_status_valid (i_status i)"
    using new(1) by (simp_all add: insert_invite_def)
  have "keys_wf db'"
    using wf ins(1) unfolding accounts_wf_def keys_wf_def keyed_defs db' by simp
  moreover have "referenced db'" using parts(10) ins(2,3) unfolding referenced_def db' by auto
  moreover have "administered db'" using parts(11) unfolding administered_def db' by simp
  moreover have "pending_unique db'"
  proof -
    have "\<not> pending_for t email k" if "k \<in> set (invites db)" for k
      using new(8) that by (auto simp: filter_empty_conv)
    then have free: "\<not> (i_status k = Pending \<and> i_org_id k = i_org_id i \<and> i_email k = i_email i)"
      if "k \<in> set (invites db)" for k
      using that new(2,3) unfolding pending_for_def by blast
    show ?thesis
      unfolding pending_unique_def
    proof (intro ballI impI)
      fix a b
      assume "a \<in> set (invites db')" "b \<in> set (invites db')" and same: "i_status a = Pending" "i_status b = Pending"
        "i_org_id a = i_org_id b" "i_email a = i_email b"
      then have "(a = i \<or> a \<in> set (invites db)) \<and> (b = i \<or> b \<in> set (invites db))" by (auto simp: db')
      then show "a = b"
        using same free [of a] free [of b] parts(12) [unfolded pending_unique_def] by metis
    qed
  qed
  moreover have "pending_outside db'"
    using parts(13) member_check_Inr [OF new(9) _ _ parts(2)] new(2,3) unfolding pending_outside_def db' by simp
  ultimately show ?thesis by (simp add: accounts_wf_def)
qed

text \<open>Accepting turns the only pending invitation of the user into a membership.\<close>

lemma accept_invite_Inr:
  assumes "accept_invite mid now tx iid uid email db = (Inr m, db')"
  obtains i db1 where "i \<in> set (invites db)" "i_id i = iid" "i_email i = email" "i_status i = Pending" "\<not> i_expires_at i < now"
    "insert_membership m db = Inr db1" "m_org_id m = i_org_id i" "m_user_id m = uid" "m_role m = i_role i"
    "db' = db1 \<lparr>invites := update_where (\<lambda>k. i_id k = iid)
        (\<lambda>_. i \<lparr>i_status := Accepted, i_accepted_at := Some now\<rparr>) (invites db)\<rparr>"
proof (cases "filter (\<lambda>i. i_id i = iid \<and> i_email i = email) (invites db)" rule: scalar_one_or_none_cases)
  case (2 i)
  note run = assms [unfolded accept_invite_def 2(1) sum.case option.case Let_def]
  have "i \<in> set (filter (\<lambda>i. i_id i = iid \<and> i_email i = email) (invites db))" using 2(2) by simp
  then have i: "i \<in> set (invites db)" "i_id i = iid" "i_email i = email" by simp_all
  from run have pending: "i_status i = Pending" by (auto split: if_splits)
  from run pending have fresh: "\<not> i_expires_at i < now" by (auto split: if_splits sum.splits)
  let ?m = "\<lparr>m_id = mid, m_org_id = i_org_id i, m_user_id = uid, m_role = i_role i, m_created_at = tx\<rparr>"
  from run pending fresh have "m = ?m" and
    "try_bind (insert_membership ?m db) (flush_invite (i \<lparr>i_status := Accepted, i_accepted_at := Some now\<rparr>)) = Inr db'"
    by (auto split: sum.splits)
  then obtain db1 where db1: "insert_membership m db = Inr db1"
    and "flush_invite (i \<lparr>i_status := Accepted, i_accepted_at := Some now\<rparr>) db1 = Inr db'"
    by (auto dest: try_bind_InrD)
  then have "db' = db1 \<lparr>invites := update_where (\<lambda>k. i_id k = iid)
        (\<lambda>_. i \<lparr>i_status := Accepted, i_accepted_at := Some now\<rparr>) (invites db1)\<rparr>"
    by (simp add: flush_invite_def invite_status_valid_def i(2))
  moreover have "invites db1 = invites db" using db1 by (auto simp: insert_membership_def)
  ultimately show ?thesis using i pending fresh db1 \<open>m = ?m\<close> by (intro that [of i db1]) simp_all
qed (use assms in \<open>simp_all add: accept_invite_def\<close>)

lemma wf_accept_invite:
  assumes wf: "accounts_wf db" and run: "accept_invite mid now tx iid (u_id u) (u_email u) db = (Inr m, db')"
    and u: "u \<in> set (users db)"
  shows "accounts_wf db'"
  using run
proof (rule accept_invite_Inr)
  fix i :: invite and db1 :: database
  let ?i = "i \<lparr>i_status := Accepted, i_accepted_at := Some now\<rparr>"
  let ?upd = "update_where (\<lambda>k. i_id k = iid) (\<lambda>_. ?i) (invites db)"
  assume i: "i \<in> set (invites db)" "i_id i = iid" "i_email i = u_email u" "i_status i = Pending"
    and ins: "insert_membership m db = Inr db1" and m: "m_org_id m = i_org_id i" "m_user_id m = u_id u"
    and db': "db' = db1 \<lparr>invites := ?upd\<rparr>"
  note parts = accounts_wfD [OF wf]
  have db1: "db1 = db \<lparr>memberships := memberships db @ [m]\<rparr>" and new: "m_id m \<notin> m_id ` set (memberships db)"
    "(m_org_id m, m_user_id m) \<notin> (\<lambda>m. (m_org_id m, m_user_id m)) ` set (memberships db)"
    "org_exists db (m_org_id m)" "user_exists db (m_user_id m)"
    using ins by (simp_all add: insert_membership_def)
  have fields: "users db' = users db" "organizations db' = organizations db" "refresh_tokens db' = refresh_tokens db"
    "api_keys db' = api_keys db" "memberships db' = memberships db @ [m]" "invites db' = ?upd"
    by (simp_all add: db' db1)
  have upd: "k = ?i \<or> (k \<in> set (invites db) \<and> i_id k \<noteq> iid)" if "k \<in> set ?upd" for k
    using that by (auto simp: set_update_where)
  have rest: "i_org_id k \<noteq> i_org_id i \<or> i_email k \<noteq> i_email i" if "k \<in> set ?upd" "i_status k = Pending" for k
    using upd [OF that(1)] that(2) i parts(12) unfolding pending_unique_def by auto
  have "map i_id ?upd = map i_id (invites db)"
    by (rule map_update_where) (simp add: i(2))
  then have "keys_wf db'"
    using wf new(1,2) unfolding accounts_wf_def keys_wf_def keyed_defs fields by simp
  moreover have "org_exists db (i_org_id k) \<and> invite_status_valid (i_status k)" if "k \<in> set ?upd" for k
    using upd [OF that] referencedD(3,4) [OF parts(10)] i(1) by (auto simp: invite_status_valid_def)
  then have "referenced db'"
    using parts(10) new(3,4) unfolding referenced_def fields by simp
  moreover have "administered db'" using parts(11) unfolding administered_def fields by auto
  moreover have "pending_unique db'"
    unfolding pending_unique_def fields
  proof (intro ballI impI)
    fix a b
    assume "a \<in> set ?upd" "b \<in> set ?upd" and st: "i_status a = Pending" "i_status b = Pending"
      and "i_org_id a = i_org_id b" "i_email a = i_email b"
    moreover from this upd have "a \<in> set (invites db)" "b \<in> set (invites db)" by force+
    ultimately show "a = b" using parts(12) unfolding pending_unique_def by blast
  qed
  moreover have "pending_outside db'"
    unfolding pending_outside_def fields
  proof (intro ballI impI)
    fix k v
    assume k: "k \<in> set ?upd" "i_status k = Pending" and v: "v \<in> set (users db)" "u_email v = i_email k"
    from upd [OF k(1)] k(2) have "k \<in> set (invites db)" by force
    with k(2) v parts(13) have "(i_org_id k, u_id v) \<notin> (\<lambda>m. (m_org_id m, m_user_id m)) ` set (memberships db)"
      unfolding pending_outside_def by blast
    moreover have "(i_org_id k, u_id v) \<noteq> (m_org_id m, m_user_id m)"
    proof
      assume eq: "(i_org_id k, u_id v) = (m_org_id m, m_user_id m)"
      with m have "u_id v = u_id u" by simp
      then have "v = u" using user_ids.unique [OF parts(1) v(1) u] by blast
      with rest [OF k] v(2) i(3) eq m(1) show False by auto
    qed
    ultimately show "(i_org_id k, u_id v) \<notin> (\<lambda>m. (m_org_id m, m_user_id m)) ` set (memberships db @ [m])" by auto
  qed
  ultimately show ?thesis by (simp add: accounts_wf_def)
qed

subsection \<open>Every request keeps the invariant\<close>

lemma reply_with_Inr: "reply_with f res = (Inr y, d) \<longleftrightarrow> (\<exists>x. res = (Inr x, d) \<and> y = f x)"
  by (auto simp: reply_with_def split: prod.splits sum.splits)

lemma as_user_Inr:
  assumes "as_user cx body db = (Inr x, db')"
  obtains user db1 where
    "get_current_user (cx_crypto cx) (cx_settings cx) (env_now (cx_env cx)) (cx_credentials cx) db = (Inr user, db1)"
    "body user db1 = (Inr x, db')"
  using assms by (auto simp: as_user_def split: prod.splits sum.splits)

lemma get_current_tenant_Inr:
  assumes "get_current_tenant lims outage now header user db r = (Inr tenant, r')"
  obtains m where "m \<in> set (memberships db)" "m_user_id m = u_id user" "m_org_id m = tc_org_id tenant"
    "m_role m = tc_role tenant"
proof -
  from assms obtain org m where "resolve_membership (u_id user) org db = Inr m"
    "tenant = \<lparr>tc_org_id = m_org_id m, tc_role = m_role m\<rparr>"
    by (auto simp: get_current_tenant_def Let_def split: option.splits if_splits sum.splits prod.splits)
  with resolve_membership_Inr [of "u_id user" org db m] show ?thesis by (intro that [of m]) auto
qed

lemma as_member_Inr:
  assumes "as_member cx body db r = (Inr x, db', r')"
  obtains user db1 tenant m where
    "get_current_user (cx_crypto cx) (cx_settings cx) (env_now (cx_env cx)) (cx_credentials cx) db = (Inr user, db1)"
    "m \<in> set (memberships db1)" "m_user_id m = u_id user" "m_org_id m = tc_org_id tenant" "m_role m = tc_role tenant"
    "body user tenant db1 = (Inr x, db')"
proof -
  from assms obtain user db1 tenant where
    1: "get_current_user (cx_crypto cx) (cx_settings cx) (env_now (cx_env cx)) (cx_credentials cx) db = (Inr user, db1)"
    and 2: "get_current_tenant (cx_limits cx) (cx_outage cx) (env_now (cx_env cx)) (cx_tenant_header cx) user db1 r = (Inr tenant, r')"
    and 3: "body user tenant db1 = (Inr x, db')"
    by (auto simp: as_member_def split: prod.splits sum.splits)
  from 2 show ?thesis by (rule get_current_tenant_Inr) (rule that [OF 1 _ _ _ _ 3])
qed

lemma require_role_Inr: "require_role r allowed = Inr () \<longleftrightarrow> r \<in> allowed"
  by (simp add: require_role_def)

lemma wf_user_body:
  assumes wf: "accounts_wf db" and u: "u \<in> set (users db)" and run: "user_body cx req u db = (Inr x, db')"
  shows "accounts_wf db'"
proof (cases req)
  case (CreateApiKey name)
  with run show ?thesis by (auto simp: user_body_def Let_def reply_with_Inr intro: wf_create_user_api_key [OF wf])
next
  case (RevokeApiKey kid)
  with run show ?thesis by (auto simp: user_body_def Let_def reply_with_Inr intro: wf_revoke_user_api_key [OF wf])
next
  case (CreateOrganization name slug)
  with run show ?thesis by (auto simp: user_body_def Let_def reply_with_Inr intro: wf_create_organization [OF wf])
next
  case (AcceptInvite iid)
  with run u show ?thesis by (auto simp: user_body_def Let_def reply_with_Inr intro: wf_accept_invite [OF wf])
qed (use run wf in \<open>auto simp: user_body_def Let_def\<close>)

lemma wf_as_user:
  assumes wf: "accounts_wf db" and run: "as_user cx (user_body cx req) db = (Inr x, db')"
  shows "accounts_wf db'"
  using run
proof (rule as_user_Inr)
  fix user db1
  assume 1: "get_current_user (cx_crypto cx) (cx_settings cx) (env_now (cx_env cx)) (cx_credentials cx) db = (Inr user, db1)"
    and 2: "user_body cx req user db1 = (Inr x, db')"
  from get_current_user_Inr [OF 1] have "user \<in> set (users db1)" by simp
  then show ?thesis using wf_user_body [OF wf_get_current_user [OF wf 1] _ 2] by blast
qed

lemma wf_as_member:
  assumes wf: "accounts_wf db" and run: "as_member cx body db r = (Inr x, db', r')"
    and body: "\<And>user tenant m db1. accounts_wf db1 \<Longrightarrow> user \<in> set (users db1) \<Longrightarrow> m \<in> set (memberships db1) \<Longrightarrow>
      m_user_id m = u_id user \<Longrightarrow> m_org_id m = tc_org_id tenant \<Longrightarrow> m_role m = tc_role tenant \<Longrightarrow>
      body user tenant db1 = (Inr x, db') \<Longrightarrow> accounts_wf db'"
  shows "accounts_wf db'"
  using run
proof (rule as_member_Inr)
  fix user db1 tenant m
  assume 1: "get_current_user (cx_crypto cx) (cx_settings cx) (env_now (cx_env cx)) (cx_credentials cx) db = (Inr user, db1)"
    and rest: "m \<in> set (memberships db1)" "m_user_id m = u_id user" "m_org_id m = tc_org_id tenant"
      "m_role m = tc_role tenant" "body user tenant db1 = (Inr x, db')"
  from get_current_user_Inr [OF 1] have "user \<in> set (users db1)" by simp
  from body [OF wf_get_current_user [OF wf 1] this rest] show ?thesis .
qed

lemma wf_remove_member_body:
  assumes "accounts_wf db" and "m \<in> set (memberships db)" "m_user_id m = u_id user" "m_org_id m = tc_org_id tenant"
    and "m_role m = tc_role tenant" and run: "remove_member_body target user tenant db = (Inr x, db')"
  shows "accounts_wf db'"
proof -
  from run have "m_role m = Admin" and "\<exists>y. remove_member (tc_org_id tenant) target (u_id user) db = (Inr y, db')"
    using assms(5)
    by (auto simp: remove_member_body_def require_role_def reply_with_Inr split: sum.splits if_splits)
  then show ?thesis using wf_remove_member [OF assms(1) _ assms(2,4,3)] by blast
qed

lemma wf_create_invite_body:
  assumes "accounts_wf db" and run: "create_invite_body cx email r user tenant db = (Inr x, db')"
  shows "accounts_wf db'"
  using run
  by (auto simp: create_invite_body_def reply_with_Inr split: sum.splits intro: wf_create_invite [OF assms(1)])

lemma wf_serve:
  assumes wf: "accounts_wf db" and run: "serve cx req db r = (Inr x, db', r')"
  shows "accounts_wf db'"
proof (cases req)
  case (GoogleLogin c)
  with run have "\<exists>y. google_login (cx_crypto cx) (cx_settings cx) (cx_env cx) c db = (Inr y, db')"
    by (auto simp: serve_def reply_with_Inr split: prod.splits)
  then show ?thesis using wf_google_login [OF wf] by blast
next
  case (Refresh t)
  with run have "\<exists>y. refresh_access_token (cx_crypto cx) (cx_settings cx) (cx_env cx) id t db = (Inr y, db')"
    by (auto simp: serve_def reply_with_Inr split: prod.splits)
  then show ?thesis using wf_refresh_access_token [where others = id] wf by auto
next
  case ListMembers
  with run have "as_member cx (\<lambda>user tenant db. (Inr (Members (list_org_members (tc_org_id tenant) db)), db)) db r = (Inr x, db', r')"
    by (simp add: serve_def)
  then show ?thesis by (rule wf_as_member [OF wf]) simp
next
  case (RemoveMember t)
  with run have "as_member cx (remove_member_body t) db r = (Inr x, db', r')" by (simp add: serve_def)
  then show ?thesis by (rule wf_as_member [OF wf]) (rule wf_remove_member_body)
next
  case (CreateInvite email ro)
  with run have "as_member cx (create_invite_body cx email ro) db r = (Inr x, db', r')" by (simp add: serve_def)
  then show ?thesis by (rule wf_as_member [OF wf]) (rule wf_create_invite_body)
qed (use run wf_as_user [OF wf, of cx req] in \<open>auto simp: serve_def split: prod.splits\<close>)

lemma wf_handle: "accounts_wf (fst w) \<Longrightarrow> handle cx req w = (x, w') \<Longrightarrow> accounts_wf (fst w')"
  by (cases w') (auto simp: handle_def split: sum.splits prod.splits dest: wf_serve)

definition no_accounts :: "database \<times> redis \<Rightarrow> bool" where
  "no_accounts w \<longleftrightarrow> users (fst w) = [] \<and> api_keys (fst w) = [] \<and> refresh_tokens (fst w) = [] \<and>
     organizations (fst w) = [] \<and> memberships (fst w) = [] \<and> invites (fst w) = []"

interpretation accounts: transition_invariant no_accounts account_step "\<lambda>w. accounts_wf (fst w)"
proof
  show "no_accounts w \<Longrightarrow> accounts_wf (fst w)" for w
    by (simp add: no_accounts_def accounts_wf_def keys_wf_def keyed_defs referenced_def administered_def
        pending_unique_def pending_outside_def)
  show "account_step w w' \<Longrightarrow> accounts_wf (fst w) \<Longrightarrow> accounts_wf (fst w')" for w w'
    by (elim account_step.cases) (simp add: wf_handle)
qed

text \<open>
  Accounts and organizations stay well-formed.  After any sequence of
  requests, one at a time, from a database without accounts: addresses, slugs, token hashes and
  memberships are unique; members, tokens and keys refer to users, members and invitations to
  organizations; every organization has an admin; an address has at most one pending invitation
  to an organization, and none to one it is a member of.
\<close>

theorem accounts_stay_wf:
  assumes "no_accounts w" and "account_step\<^sup>*\<^sup>* w w'"
  shows "keys_wf (fst w') \<and> referenced (fst w') \<and> administered (fst w') \<and> pending_unique (fst w') \<and>
    pending_outside (fst w')"
  using accounts.inv_reachable [OF assms] by (simp add: accounts_wf_def)

subsection \<open>A sample world\<close>

text \<open>
  A toy instance of the libraries, for the witnesses: a token is the subject behind \<open>eyJ\<close>, a
  hash the text itself, and a Google credential the address it vouches for.
\<close>

abbreviation sample_crypto :: crypto where
  "sample_crypto \<equiv>
     \<lparr>jwt_encode = (\<lambda>p secret alg. ''eyJ'' @ (case p_sub p of None \<Rightarrow> '''' | Some s \<Rightarrow> s)),
      jwt_decode = (\<lambda>now token secret alg. Inr
        \<lparr>p_sub = Some (drop 3 token), p_email = Some ''a@x.y'', p_exp = Some 900000000, p_iat = Some 0,
         p_type = Some ''access''\<rparr>),
      bcrypt_hashpw = (\<lambda>pw salt. pw), bcrypt_checkpw = (\<lambda>pw h. Some (pw = h)),
      sha256_hex = id, verify_oauth2_token = (\<lambda>c. Inr (Some c))\<rparr>"

abbreviation sample_settings :: auth_settings where
  "sample_settings \<equiv> \<lparr>jwt_secret_key = ''key'', jwt_algorithm = ''HS256'',
     jwt_access_token_expire_minutes = 15, jwt_refresh_token_expire_days = 7\<rparr>"

abbreviation sample_env :: "nat \<Rightarrow> string \<Rightarrow> timestamp \<Rightarrow> auth_env" where
  "sample_env n random now \<equiv>
     \<lparr>env_user_id = n, env_org_id = n, env_membership_id = n, env_row_id = n, env_random = random,
      env_salt = '''', env_now = now, env_tx_now = now\<rparr>"

abbreviation sample_cx :: "auth_env \<Rightarrow> string option \<Rightarrow> context_of_request" where
  "sample_cx env credentials \<equiv>
     \<lparr>cx_crypto = sample_crypto, cx_settings = sample_settings,
      cx_limits = \<lparr>rate_limit_requests = 100, rate_limit_window_seconds = 60\<rparr>, cx_env = env,
      cx_outage = Answers, cx_credentials = credentials, cx_tenant_header = None\<rparr>"

abbreviation sample_accounts :: "user list \<Rightarrow> refresh_token list \<Rightarrow> organization list \<Rightarrow> membership list \<Rightarrow>
    invite list \<Rightarrow> api_key list \<Rightarrow> database" where
  "sample_accounts us ts gs ms is ks \<equiv>
     \<lparr>users = us, api_keys = ks, refresh_tokens = ts, organizations = gs, memberships = ms, invites = is,
      documents = [], chunks = [], jobs = []\<rparr>"

abbreviation sample_user :: "nat \<Rightarrow> string \<Rightarrow> user" where
  "sample_user n email \<equiv> \<lparr>u_id = n, u_email = email, u_is_active = True, u_created_at = 0\<rparr>"

lemma fits_user_slug: "fits 100 (''user-'' @ uuid_str n)"
  by (simp add: fits_def length_uuid_str uuid_str_nonzero)

lemma sample_login:
  "\<exists>w'. handle (sample_cx (sample_env 1 ''r1'' 0) None) (GoogleLogin ''a@x.y'') (sample_accounts [] [] [] [] [] [], \<lambda>_. None) =
     (Inr (Tokens (''eyJ'' @ uuid_str 1) ''r1''), w') \<and> users (fst w') = [sample_user 1 ''a@x.y'']"
proof -
  have "\<exists>db' g. create_personal_organization 1 ''a@x.y'' 1 1 0 (sample_accounts [sample_user 1 ''a@x.y''] [] [] [] [] []) =
      (Inr g, db') \<and> users db' = [sample_user 1 ''a@x.y''] \<and> refresh_tokens db' = []"
    using fits_user_slug [of 1]
    by (simp add: create_personal_organization_def Let_def py_split1_def create_organization_def
        insert_organization_def insert_membership_def checked_insert_def fits_def)
  then obtain db' g where org: "create_personal_organization 1 ''a@x.y'' 1 1 0 (sample_accounts [sample_user 1 ''a@x.y''] [] [] [] [] []) =
      (Inr g, db')" "users db' = [sample_user 1 ''a@x.y'']" "refresh_tokens db' = []" by blast
  have "register_user (sample_env 1 ''r1'' 0) ''a@x.y'' (sample_accounts [] [] [] [] [] []) = (Inr (sample_user 1 ''a@x.y''), db')"
    using org(1) by (simp add: register_user_def Let_def insert_user_def checked_insert_def fits_def)
  then show ?thesis
    using org(2,3)
    by (simp add: handle_def serve_def google_login_def verified_email_def reply_with_def issue_refresh_token_def
        create_access_token_def generate_refresh_token_def insert_refresh_token_def checked_insert_def fits_def Let_def)
qed

theorem accounts_stay_wf_witness:
  "\<exists>w'. account_step\<^sup>*\<^sup>* (sample_accounts [] [] [] [] [] [], \<lambda>_. None) w' \<and> users (fst w') = [sample_user 1 ''a@x.y''] \<and>
     keys_wf (fst w') \<and> referenced (fst w') \<and> administered (fst w') \<and> pending_unique (fst w') \<and> pending_outside (fst w')"
proof -
  obtain w' where run: "handle (sample_cx (sample_env 1 ''r1'' 0) None) (GoogleLogin ''a@x.y'')
      (sample_accounts [] [] [] [] [] [], \<lambda>_. None) = (Inr (Tokens (''eyJ'' @ uuid_str 1) ''r1''), w')"
    and us: "users (fst w') = [sample_user 1 ''a@x.y'']" using sample_login by blast
  have "account_step\<^sup>*\<^sup>* (sample_accounts [] [] [] [] [] [], \<lambda>_. None) w'"
    using account_step.request [OF run] by blast
  moreover have "no_accounts (sample_accounts [] [] [] [] [] [], \<lambda>_. None)" by (simp add: no_accounts_def)
  ultimately show ?thesis using accounts_stay_wf us by blast
qed

end
