(* ===== verification/AccountClaims.thy ===== *)
theory AccountClaims
  imports AccountInvariant
begin

section \<open>Invitations, members, tokens and keys\<close>

text \<open>
  What the requests on accounts guarantee, and where they fall short: invitations that succeed,
  invitations that expire, admins removing each other, one-time refresh tokens, API keys.
\<close>

lemma run_requests_wf: "accounts_wf (fst w) \<Longrightarrow> accounts_wf (fst (run_requests tr w))"
proof (induction tr arbitrary: w)
  case (Cons q tr)
  then show ?case using wf_handle by (cases q) (metis run_requests.simps(2) surjective_pairing)
qed simp

text \<open>What a request does to the tables comes from what its service does.\<close>

lemma handle_cases:
  assumes "handle cx req w = (x, w')"
  obtains (rolled_back) e where "x = Inl e" "fst w' = fst w"
  | (committed) y r' where "x = Inr y" "serve cx req (fst w) (snd w) = (Inr y, fst w', r')"
  using assms by (cases w') (auto simp: handle_def split: prod.splits sum.splits)

text \<open>The operation that a committed request has run, on the database with the key's use noted.\<close>

lemma serve_cases:
  assumes "serve cx req db r = (Inr y, db', r')"
  obtains (login) c x where "google_login (cx_crypto cx) (cx_settings cx) (cx_env cx) c db = (Inr x, db')"
  | (refresh) t x where "refresh_access_token (cx_crypto cx) (cx_settings cx) (cx_env cx) id t db = (Inr x, db')"
  | (members) user db1 where "get_current_user (cx_crypto cx) (cx_settings cx) (env_now (cx_env cx)) (cx_credentials cx) db =
      (Inr user, db1)" "db' = db1"
  | (removal) user db1 t target x where "get_current_user (cx_crypto cx) (cx_settings cx) (env_now (cx_env cx)) (cx_credentials cx) db =
      (Inr user, db1)" "remove_member t target (u_id user) db1 = (Inr x, db')"
  | (invitation) user db1 t email ro x where "get_current_user (cx_crypto cx) (cx_settings cx) (env_now (cx_env cx)) (cx_credentials cx) db =
      (Inr user, db1)" "create_invite (sha256_hex (cx_crypto cx) (env_random (cx_env cx))) (env_row_id (cx_env cx))
             (env_now (cx_env cx)) (env_tx_now (cx_env cx)) t email ro (u_id user) db1 = (Inr x, db')"
  | (user_op) user db1 where "get_current_user (cx_crypto cx) (cx_settings cx) (env_now (cx_env cx)) (cx_credentials cx) db =
      (Inr user, db1)" "user_body cx req user db1 = (Inr y, db')"
proof (cases req)
  case (GoogleLogin c)
  with assms show ?thesis by (auto simp: serve_def reply_with_Inr split: prod.splits intro: login)
next
  case (Refresh t)
  with assms show ?thesis by (auto simp: serve_def reply_with_Inr split: prod.splits intro: refresh)
next
  case ListMembers
  with assms have "as_member cx (\<lambda>user tenant db. (Inr (Members (list_org_members (tc_org_id tenant) db)), db)) db r = (Inr y, db', r')"
    by (simp add: serve_def)
  then show ?thesis by (rule as_member_Inr) (simp add: members)
next
  case (RemoveMember t)
  with assms have "as_member cx (remove_member_body t) db r = (Inr y, db', r')" by (simp add: serve_def)
  then show ?thesis
    by (rule as_member_Inr) (auto simp: remove_member_body_def reply_with_Inr split: sum.splits intro: removal)
next
  case (CreateInvite email ro)
  with assms have "as_member cx (create_invite_body cx email ro) db r = (Inr y, db', r')" by (simp add: serve_def)
  then show ?thesis
    by (rule as_member_Inr) (auto simp: create_invite_body_def reply_with_Inr split: sum.splits intro: invitation)
qed (use assms in \<open>auto simp: serve_def split: prod.splits elim!: as_user_Inr intro: user_op\<close>)

lemma user_body_cases:
  assumes "user_body cx req u db = (Inr y, db')"
  obtains (read) "db' = db"
  | (new_key) name x where "create_user_api_key (cx_crypto cx) (cx_env cx) (u_id u) name db = (Inr x, db')"
  | (revoked) kid x where "revoke_user_api_key (u_id u) kid db = (Inr x, db')"
  | (new_org) name slug x where "create_organization name (u_id u) slug (env_org_id (cx_env cx))
      (env_membership_id (cx_env cx)) (env_tx_now (cx_env cx)) db = (Inr x, db')"
  | (accepted) iid x where "accept_invite (env_membership_id (cx_env cx)) (env_now (cx_env cx)) (env_tx_now (cx_env cx)) iid
               (u_id u) (u_email u) db = (Inr x, db')"
proof (cases req)
  case (CreateApiKey name)
  with assms show ?thesis by (auto simp: user_body_def Let_def reply_with_Inr intro: new_key)
next
  case (RevokeApiKey kid)
  with assms show ?thesis by (auto simp: user_body_def Let_def reply_with_Inr intro: revoked)
next
  case (CreateOrganization name slug)
  with assms show ?thesis by (auto simp: user_body_def Let_def reply_with_Inr intro: new_org)
next
  case (AcceptInvite iid)
  with assms show ?thesis by (auto simp: user_body_def Let_def reply_with_Inr intro: accepted)
qed (use assms in \<open>auto simp: user_body_def Let_def intro: read\<close>)

subsection \<open>The tables a request can change\<close>

abbreviation fresh_hash :: "context_of_request \<Rightarrow> string" where
  "fresh_hash cx \<equiv> sha256_hex (cx_crypto cx) (env_random (cx_env cx))"

lemma create_organization_tables:
  "create_organization name uid slug gid mid tx db = (Inr g, db') \<Longrightarrow>
    invites db' = invites db \<and> refresh_tokens db' = refresh_tokens db"
  by (erule create_organization_Inr) (auto simp: insert_organization_def insert_membership_def)

lemma register_user_tables:
  "register_user env email db = (Inr u, db') \<Longrightarrow> invites db' = invites db \<and> refresh_tokens db' = refresh_tokens db"
  by (erule register_user_Inr)
     (auto simp: insert_user_def create_personal_organization_def Let_def dest: create_organization_tables)

lemma issue_refresh_token_tables:
  assumes "issue_refresh_token cr st env u db = (Inr x, db')"
  shows "invites db' = invites db" "users db' = users db" "memberships db' = memberships db"
    "\<exists>t. refresh_tokens db' = refresh_tokens db @ [t] \<and> t_token_hash t = sha256_hex cr (env_random env) \<and>
      t_user_id t = u_id u \<and> t_expires_at t = env_now env + days (jwt_refresh_token_expire_days st) \<and>
      sha256_hex cr (env_random env) \<notin> t_token_hash ` set (refresh_tokens db)"
  using assms by (auto elim!: issue_refresh_token_Inr simp: insert_refresh_token_def)

lemma google_login_tables:
  assumes "google_login cr st env c db = (Inr x, db')"
  shows "invites db' = invites db \<and> t_token_hash ` set (refresh_tokens db') =
    insert (sha256_hex cr (env_random env)) (t_token_hash ` set (refresh_tokens db))"
  using assms
proof (cases rule: google_login_Inr)
  case (known email u)
  from issue_refresh_token_tables(1,4) [OF known(4)] show ?thesis by auto
next
  case (registered email u db1)
  from issue_refresh_token_tables(1,4) [OF registered(5)] register_user_tables [OF registered(3)]
  show ?thesis by auto
qed

lemma remove_member_tables:
  "remove_member t target u db = (Inr x, db') \<Longrightarrow> invites db' = invites db \<and> refresh_tokens db' = refresh_tokens db"
  by (erule remove_member_Inr) simp

lemma create_invite_tables:
  "create_invite h iid now tx t email ro u db = (Inr i, db') \<Longrightarrow>
    invites db' = invites db @ [i] \<and> refresh_tokens db' = refresh_tokens db"
  by (drule create_invite_Inr(1)) (auto simp: insert_invite_def)

lemma accept_invite_tables:
  "accept_invite mid now tx iid uid email db = (Inr m, db') \<Longrightarrow> refresh_tokens db' = refresh_tokens db"
  by (erule accept_invite_Inr) (auto simp: insert_membership_def)

lemma user_body_tables:
  assumes "user_body cx req u db = (Inr y, db')"
  shows "refresh_tokens db' = refresh_tokens db"
  using assms
proof (cases rule: user_body_cases)
  case new_key
  then show ?thesis
    by (auto simp: create_user_api_key_def insert_api_key_def Let_def split: sum.splits prod.splits)
next
  case revoked
  then show ?thesis by (auto simp: revoke_user_api_key_def split: sum.splits option.splits)
qed (simp_all add: create_organization_tables accept_invite_tables)

text \<open>No request brings a token hash back other than the one it draws.\<close>

lemma refresh_token_gone:
  assumes "refresh_access_token cr st env id raw db = (Inr x, db')"
  shows "t_token_hash ` set (refresh_tokens db') \<subseteq>
      insert (sha256_hex cr (env_random env)) (t_token_hash ` set (refresh_tokens db))"
    and "hash_refresh_token cr raw \<notin> t_token_hash ` set (refresh_tokens db')"
proof -
  from assms obtain t u db1 where
    t: "filter (\<lambda>t. t_token_hash t = hash_refresh_token cr raw) (refresh_tokens db) = [t]"
    and issued: "issue_refresh_token cr st env u db = (Inr x, db1)" and db': "db' = delete_token t db1"
    by (rule refresh_access_token_Inr) simp
  obtain n where n: "refresh_tokens db1 = refresh_tokens db @ [n]" "t_token_hash n = sha256_hex cr (env_random env)"
    "sha256_hex cr (env_random env) \<notin> t_token_hash ` set (refresh_tokens db)"
    using issue_refresh_token_tables(4) [OF issued] by blast
  show "t_token_hash ` set (refresh_tokens db') \<subseteq>
      insert (sha256_hex cr (env_random env)) (t_token_hash ` set (refresh_tokens db))"
    by (auto simp: db' delete_token_def n)
  have found: "t \<in> set (refresh_tokens db)" "t_token_hash t = hash_refresh_token cr raw"
    using t by (auto simp: filter_eq_Cons_iff)
  have only: "s = t" if "s \<in> set (refresh_tokens db)" "t_token_hash s = hash_refresh_token cr raw" for s
  proof -
    have "s \<in> set (filter (\<lambda>t. t_token_hash t = hash_refresh_token cr raw) (refresh_tokens db))" using that by simp
    then show ?thesis unfolding t by simp
  qed
  have "sha256_hex cr (env_random env) \<noteq> hash_refresh_token cr raw" using n(3) found by (metis imageI)
  then show "hash_refresh_token cr raw \<notin> t_token_hash ` set (refresh_tokens db')"
    using only by (auto simp: db' delete_token_def n)
qed

lemma serve_token_hashes:
  assumes "serve cx req db r = (Inr y, db', r')"
  shows "t_token_hash ` set (refresh_tokens db') \<subseteq> insert (fresh_hash cx) (t_token_hash ` set (refresh_tokens db))"
  using assms
proof (cases rule: serve_cases)
  case (login c x)
  then show ?thesis using google_login_tables by blast
next
  case (refresh t x)
  then show ?thesis using refresh_token_gone(1) by blast
next
  case (members user db1)
  with get_current_user_Inr [OF members(1)] show ?thesis by auto
next
  case (removal user db1 t target x)
  with get_current_user_Inr [OF removal(1)] remove_member_tables show ?thesis by fastforce
next
  case (invitation user db1 t email ro x)
  with get_current_user_Inr [OF invitation(1)] create_invite_tables show ?thesis by fastforce
next
  case (user_op user db1)
  with get_current_user_Inr [OF user_op(1)] user_body_tables show ?thesis by fastforce
qed

lemma handle_token_hashes:
  assumes "handle cx req w = (x, w')"
  shows "t_token_hash ` set (refresh_tokens (fst w')) \<subseteq>
    insert (fresh_hash cx) (t_token_hash ` set (refresh_tokens (fst w)))"
  using assms by (cases rule: handle_cases) (auto dest: serve_token_hashes)

lemma run_requests_token_hashes:
  "h \<notin> t_token_hash ` set (refresh_tokens (fst w)) \<Longrightarrow> \<forall>q \<in> set tr. fresh_hash (fst q) \<noteq> h \<Longrightarrow>
    h \<notin> t_token_hash ` set (refresh_tokens (fst (run_requests tr w)))"
proof (induction tr arbitrary: w)
  case (Cons q tr)
  obtain cx req where q: "q = (cx, req)" by force
  obtain x w1 where run: "handle cx req w = (x, w1)" by (cases "handle cx req w")
  have "h \<notin> t_token_hash ` set (refresh_tokens (fst w1))"
    using handle_token_hashes [OF run] Cons.prems q by auto
  with Cons q run show ?case by simp
qed simp

subsection \<open>Refresh tokens\<close>

text \<open>
  Claim C15 (safety): a refresh token is redeemed once.  Once a request has exchanged a refresh
  token, the token is refused after any further sequence of requests, one at a time, none of
  which draws a token with the same hash.
\<close>

theorem refresh_token_single_use:
  assumes "handle cx (Refresh raw) w = (Inr y, w1)"
    and "\<forall>q \<in> set tr. sha256_hex (cx_crypto (fst q)) (env_random (cx_env (fst q))) \<noteq> hash_refresh_token (cx_crypto cx) raw"
    and "cx_crypto cx' = cx_crypto cx"
  shows "fst (handle cx' (Refresh raw) (run_requests tr w1)) =
    Inl (App (AuthenticationError ''Invalid refresh token.''))"
proof -
  let ?h = "hash_refresh_token (cx_crypto cx) raw" and ?db = "fst (run_requests tr w1)"
  from assms(1) obtain x where
    "refresh_access_token (cx_crypto cx) (cx_settings cx) (cx_env cx) id raw (fst w) = (Inr x, fst w1)"
    by (cases w1) (auto simp: handle_def serve_def reply_with_def split: prod.splits sum.splits)
  then have "?h \<notin> t_token_hash ` set (refresh_tokens (fst w1))" by (rule refresh_token_gone(2))
  with assms(2) have "?h \<notin> t_token_hash ` set (refresh_tokens ?db)" by (intro run_requests_token_hashes)
  then have "filter (\<lambda>t. t_token_hash t = ?h) (refresh_tokens ?db) = []"
    by (auto simp: filter_empty_conv image_iff)
  then show ?thesis
    using assms(3) by (simp add: handle_def serve_def refresh_access_token_def reply_with_def split: prod.splits)
qed

abbreviation sample_token :: "nat \<Rightarrow> string \<Rightarrow> refresh_token" where
  "sample_token n h \<equiv>
     \<lparr>t_id = n, t_user_id = 3, t_token_hash = h, t_expires_at = days 7, t_created_at = 0\<rparr>"

lemma sample_refresh:
  "refresh_access_token sample_crypto sample_settings (sample_env 6 ''r2'' 0) id ''r1''
      (sample_accounts [sample_user 3 ''a@x.y''] [sample_token 5 ''r1''] [] [] [] []) =
    (Inr (''eyJ'' @ uuid_str 3, ''r2''), sample_accounts [sample_user 3 ''a@x.y''] [sample_token 6 ''r2''] [] [] [] [])"
  by (simp add: refresh_access_token_def hash_refresh_token_def owner_def days_def issue_refresh_token_def
      create_access_token_def generate_refresh_token_def insert_refresh_token_def checked_insert_def fits_def
      delete_token_def Let_def)

lemma sample_refreshed:
  "handle (sample_cx (sample_env 6 ''r2'' 0) None) (Refresh ''r1'')
      (sample_accounts [sample_user 3 ''a@x.y''] [sample_token 5 ''r1''] [] [] [] [], \<lambda>_. None) =
    (Inr (Tokens (''eyJ'' @ uuid_str 3) ''r2''),
     sample_accounts [sample_user 3 ''a@x.y''] [sample_token 6 ''r2''] [] [] [] [], \<lambda>_. None)"
  by (simp add: handle_def serve_def sample_refresh [simplified] reply_with_def)

theorem refresh_token_single_use_witness:
  "fst (handle (sample_cx (sample_env 9 ''r4'' 0) None) (Refresh ''r1'')
     (run_requests [(sample_cx (sample_env 7 ''r3'' 0) None, Refresh ''r2'')]
       (snd (handle (sample_cx (sample_env 6 ''r2'' 0) None) (Refresh ''r1'')
         (sample_accounts [sample_user 3 ''a@x.y''] [sample_token 5 ''r1''] [] [] [] [], \<lambda>_. None))))) =
    Inl (App (AuthenticationError ''Invalid refresh token.''))"
  unfolding sample_refreshed snd_conv
  by (rule refresh_token_single_use [OF sample_refreshed]) (simp_all add: hash_refresh_token_def)

text \<open>
  Two concurrent uses of one refresh token both succeed.  The row is read
  without a lock, so when a second request has read it before the first one commits, the second
  also issues tokens, and both new refresh tokens are valid afterwards.
\<close>

theorem refresh_token_race_replays:
  assumes "refresh_access_token cr st env id raw db = (Inr x, db1)"
    and "\<forall>t \<in> set (refresh_tokens db). t_token_hash t = hash_refresh_token cr raw \<longrightarrow> env_now env' \<le> t_expires_at t"
    and "sha256_hex cr (env_random env') \<notin> t_token_hash ` set (refresh_tokens db1)"
    and "env_row_id env' \<notin> t_id ` set (refresh_tokens db1)" and "env_row_id env \<noteq> env_row_id env'"
    and "fits 64 (sha256_hex cr (env_random env'))" and "user_ids.keyed db"
    and "\<forall>t \<in> set (refresh_tokens db). user_exists db (t_user_id t) \<and> t_id t \<noteq> env_row_id env'"
  shows "\<exists>access db2. refresh_access_token cr st env' (\<lambda>_. db1) raw db = (Inr (access, env_random env'), db2) \<and>
    {sha256_hex cr (env_random env), sha256_hex cr (env_random env')} \<subseteq> t_token_hash ` set (refresh_tokens db2)"
proof -
  from assms(1) obtain t u d where
    t: "filter (\<lambda>t. t_token_hash t = hash_refresh_token cr raw) (refresh_tokens db) = [t]"
    and u: "owner (t_user_id t) db = Inr u" "u_is_active u"
    and issued: "issue_refresh_token cr st env u db = (Inr x, d)" and db1: "db1 = delete_token t d"
    by (rule refresh_access_token_Inr) simp
  obtain n where n: "insert_refresh_token n db = Inr d" "t_id n = env_row_id env"
      "t_token_hash n = sha256_hex cr (env_random env)"
    using issued by (rule issue_refresh_token_Inr)
  have found: "t \<in> set (refresh_tokens db)" "t_token_hash t = hash_refresh_token cr raw"
    using t by (auto simp: filter_eq_Cons_iff)
  have fresh: "\<not> t_expires_at t < env_now env'" using assms(2) found by auto
  have d: "refresh_tokens d = refresh_tokens db @ [n]" "users d = users db" "t_id n \<notin> t_id ` set (refresh_tokens db)"
    using n(1) by (auto simp: insert_refresh_token_def)
  let ?n = "\<lparr>t_id = env_row_id env', t_user_id = u_id u, t_token_hash = sha256_hex cr (env_random env'),
      t_expires_at = env_now env' + days (jwt_refresh_token_expire_days st), t_created_at = env_tx_now env'\<rparr>"
  have "u \<in> set (users db1)" using owner_Inr [OF u(1)] d(2) by (simp add: db1 delete_token_def)
  then have ins: "insert_refresh_token ?n db1 = Inr (db1 \<lparr>refresh_tokens := refresh_tokens db1 @ [?n]\<rparr>)"
    using assms(3,4,6) by (auto simp: insert_refresh_token_def checked_insert_def)
  let ?db2 = "delete_token t (db1 \<lparr>refresh_tokens := refresh_tokens db1 @ [?n]\<rparr>)"
  have "refresh_access_token cr st env' (\<lambda>_. db1) raw db =
      (Inr (create_access_token cr st (env_now env') (uuid_str (u_id u)) (u_email u), env_random env'), ?db2)"
    using t u fresh ins
    by (simp add: refresh_access_token_def issue_refresh_token_def generate_refresh_token_def Let_def)
  moreover have "n \<in> set (refresh_tokens ?db2)"
    using d found(1) by (auto simp: db1 delete_token_def)
  moreover have "?n \<in> set (refresh_tokens ?db2)"
    using assms(8) found(1) by (auto simp: delete_token_def)
  ultimately show ?thesis using n(3) by (metis (no_types, lifting) empty_subsetI image_eqI insert_subset refresh_token.select_convs(3))
qed

theorem refresh_token_race_replays_witness:
  "(let db = sample_accounts [sample_user 3 ''a@x.y''] [sample_token 5 ''r1''] [] [] [] [];
        db1 = sample_accounts [sample_user 3 ''a@x.y''] [sample_token 6 ''r2''] [] [] [] []
    in \<exists>access db2. refresh_access_token sample_crypto sample_settings (sample_env 7 ''r3'' 0) (\<lambda>_. db1) ''r1'' db =
         (Inr (access, ''r3''), db2) \<and> {''r2'', ''r3''} \<subseteq> t_token_hash ` set (refresh_tokens db2))"
proof -
  show ?thesis
    using refresh_token_race_replays [OF sample_refresh, of "sample_env 7 ''r3'' 0"]
    by (simp add: hash_refresh_token_def fits_def days_def user_ids.keyed_def)
qed

end
