(* ===== verification/Invitations.thy ===== *)
theory Invitations
  imports AccountClaims
begin

section \<open>The life of an invitation, and of an organization's admins\<close>

text \<open>
  Pending invitations can be accepted once; an invitation that expires stays pending for ever and
  blocks its address; two admins can remove each other.
\<close>

subsection \<open>Accepting\<close>

lemma accept_lookup:
  assumes "invite_ids.keyed db" and "i \<in> set (invites db)"
  shows "scalar_one_or_none (filter (\<lambda>k. i_id k = i_id i \<and> i_email k = i_email i) (invites db)) = Inr (Some i)"
  using invite_ids.lookup_Some [OF assms(1), of "i_id i" "\<lambda>k. i_email k = i_email i" i] assms(2) by simp

lemma resolve_member:
  assumes "member_keys.keyed db" and "m \<in> set (memberships db)"
  shows "resolve_membership (m_user_id m) (Some (m_org_id m)) db = Inr m"
proof -
  have "filter (\<lambda>k. m_user_id k = m_user_id m \<and> m_org_id k = m_org_id m) (memberships db) =
      filter (\<lambda>k. (m_org_id k, m_user_id k) = (m_org_id m, m_user_id m)) (memberships db)"
    by (rule filter_cong) auto
  also have "\<dots> = [m]"
    using member_keys.lookup [OF assms] by (simp add: scalar_one_or_none_Some)
  finally show ?thesis by (simp add: resolve_membership_def order_by_asc_def)
qed

text \<open>
  Claim C35 (functional): a pending invitation can be accepted, once.  In a well-formed database
  the user of the invited address joins the organization with the invited role until the
  invitation expires: acceptance succeeds, the organization then resolves as the user's tenant
  with that role, and a second acceptance is a conflict that changes nothing.
\<close>

theorem accept_invite_joins:
  assumes "accounts_wf db" and "u \<in> set (users db)" and "i \<in> set (invites db)"
    and "i_email i = u_email u" and "i_status i = Pending" and "now \<le> i_expires_at i"
    and "mid \<notin> m_id ` set (memberships db)"
  shows "\<exists>m db'. accept_invite mid now tx (i_id i) (u_id u) (u_email u) db = (Inr m, db') \<and> m_role m = i_role i \<and>
    resolve_membership (u_id u) (Some (i_org_id i)) db' = Inr m \<and>
    accept_invite mid' now' tx' (i_id i) (u_id u) (u_email u) db' =
      (Inl (App (ConflictError ''Invitation is already accepted.'')), db')"
proof -
  note parts = accounts_wfD [OF assms(1)]
  let ?m = "\<lparr>m_id = mid, m_org_id = i_org_id i, m_user_id = u_id u, m_role = i_role i, m_created_at = tx\<rparr>"
  let ?i = "i \<lparr>i_status := Accepted, i_accepted_at := Some now\<rparr>"
  let ?db1 = "db \<lparr>memberships := memberships db @ [?m]\<rparr>"
  let ?db' = "?db1 \<lparr>invites := update_where (\<lambda>k. i_id k = i_id i) (\<lambda>_. ?i) (invites db)\<rparr>"
  have "(i_org_id i, u_id u) \<notin> (\<lambda>m. (m_org_id m, m_user_id m)) ` set (memberships db)"
    using parts(13) assms(2-5) unfolding pending_outside_def by auto
  then have ins: "insert_membership ?m db = Inr ?db1"
    using referencedD(3) [OF parts(10) assms(3)] assms(2,7) by (simp add: insert_membership_def)
  then have run: "accept_invite mid now tx (i_id i) (u_id u) (u_email u) db = (Inr ?m, ?db')"
    using accept_lookup [OF parts(7) assms(3)] assms(4-6)
    by (simp add: accept_invite_def flush_invite_def invite_status_valid_def Let_def)
  note wf' = accounts_wfD [OF wf_accept_invite [OF assms(1) run assms(2)]]
  have "resolve_membership (u_id u) (Some (i_org_id i)) ?db' = Inr ?m"
    using resolve_member [OF wf'(6), of ?m] by simp
  moreover have "?i \<in> set (invites ?db')"
    using assms(3) by (auto simp: set_update_where intro: rev_image_eqI)
  from accept_lookup [OF wf'(7) this]
  have "accept_invite mid' now' tx' (i_id i) (u_id u) (u_email u) ?db' =
      (Inl (App (ConflictError ''Invitation is already accepted.'')), ?db')"
    using assms(4) by (simp add: accept_invite_def)
  ultimately show ?thesis using run by force
qed

abbreviation sample_org :: organization where
  "sample_org \<equiv> \<lparr>o_id = 20, o_name = ''Lab'', o_slug = ''lab'', o_created_at = 0\<rparr>"

abbreviation sample_member :: "nat \<Rightarrow> nat \<Rightarrow> role \<Rightarrow> membership" where
  "sample_member n uid r \<equiv> \<lparr>m_id = n, m_org_id = 20, m_user_id = uid, m_role = r, m_created_at = 0\<rparr>"

abbreviation sample_invite :: invite where
  "sample_invite \<equiv> \<lparr>i_id = 30, i_org_id = 20, i_email = ''b@x.y'', i_role = Editor, i_token_hash = ''h'',
     i_status = Pending, i_expires_at = 7, i_created_at = 0, i_accepted_at = None, i_created_by = Some 3\<rparr>"

text \<open>An organization with an admin and a pending invitation for another user.\<close>

abbreviation sample_inviting :: database where
  "sample_inviting \<equiv> sample_accounts [sample_user 3 ''a@x.y'', sample_user 4 ''b@x.y''] [] [sample_org]
     [sample_member 40 3 Admin] [sample_invite] []"

lemma sample_inviting_wf: "accounts_wf sample_inviting"
  by (simp add: accounts_wf_def keys_wf_def keyed_defs referenced_def administered_def pending_unique_def
      pending_outside_def invite_status_valid_def)

theorem accept_invite_joins_witness:
  "\<exists>m db'. accept_invite 41 5 5 30 4 ''b@x.y'' sample_inviting = (Inr m, db') \<and> m_role m = Editor \<and>
     resolve_membership 4 (Some 20) db' = Inr m \<and>
     accept_invite 42 6 6 30 4 ''b@x.y'' db' = (Inl (App (ConflictError ''Invitation is already accepted.'')), db')"
  using accept_invite_joins [OF sample_inviting_wf, where u = "sample_user 4 ''b@x.y''" and i = sample_invite
      and mid = 41 and now = 5 and tx = 5 and mid' = 42 and now' = 6 and tx' = 6]
  by simp

subsection \<open>Expiring\<close>

text \<open>No request changes an expired pending invitation.\<close>

lemma serve_keeps_expired:
  assumes "accounts_wf db" and "serve cx req db r = (Inr y, db', r')"
    and i: "i \<in> set (invites db)" "i_expires_at i < env_now (cx_env cx)"
  shows "i \<in> set (invites db')"
  using assms(2)
proof (cases rule: serve_cases)
  case (login c x)
  then show ?thesis using google_login_tables i(1) by auto
next
  case (refresh t x)
  then obtain t' u d where "issue_refresh_token (cx_crypto cx) (cx_settings cx) (cx_env cx) u db = (Inr x, d)"
    "db' = delete_token t' d" by (auto elim: refresh_access_token_Inr)
  with issue_refresh_token_tables(1) i(1) show ?thesis by (auto simp: delete_token_def)
next
  case (members user db1)
  with get_current_user_Inr [OF members(1)] i(1) show ?thesis by simp
next
  case (removal user db1 t target x)
  with get_current_user_Inr [OF removal(1)] remove_member_tables i(1) show ?thesis by metis
next
  case (invitation user db1 t email ro x)
  with get_current_user_Inr [OF invitation(1)] create_invite_tables [OF invitation(2)] i(1) show ?thesis by simp
next
  case (user_op user db1)
  note db1 = get_current_user_Inr [OF user_op(1)]
  from user_op(2) show ?thesis
  proof (cases rule: user_body_cases)
    case read
    with db1 i(1) show ?thesis by simp
  next
    case new_key
    then have "invites db' = invites db1"
      by (auto simp: create_user_api_key_def insert_api_key_def Let_def split: sum.splits prod.splits)
    with db1 i(1) show ?thesis by simp
  next
    case revoked
    then have "invites db' = invites db1" by (auto simp: revoke_user_api_key_def split: sum.splits option.splits)
    with db1 i(1) show ?thesis by simp
  next
    case new_org
    with create_organization_tables db1 i(1) show ?thesis by metis
  next
    case (accepted iid x)
    then obtain k d where k: "k \<in> set (invites db1)" "i_id k = iid" "\<not> i_expires_at k < env_now (cx_env cx)"
      and db': "invites db' = update_where (\<lambda>k. i_id k = iid)
        (\<lambda>_. k \<lparr>i_status := Accepted, i_accepted_at := Some (env_now (cx_env cx))\<rparr>) (invites db1)"
      by (elim accept_invite_Inr) auto
    have "i_id i \<noteq> iid"
      using invite_ids.unique [OF accounts_wfD(7) [OF assms(1)], of i k] k i db1 by auto
    with i(1) db1 show ?thesis unfolding db' set_update_where by (auto intro: rev_image_eqI)
  qed
qed

lemma run_requests_keep_expired:
  "accounts_wf (fst w) \<Longrightarrow> i \<in> set (invites (fst w)) \<Longrightarrow> \<forall>q \<in> set tr. i_expires_at i < env_now (cx_env (fst q)) \<Longrightarrow>
    i \<in> set (invites (fst (run_requests tr w)))"
proof (induction tr arbitrary: w)
  case (Cons q tr)
  obtain cx req where q: "q = (cx, req)" by force
  obtain x w1 where run: "handle cx req w = (x, w1)" by (cases "handle cx req w")
  have "i \<in> set (invites (fst w1))"
    using run
  proof (cases rule: handle_cases)
    case (committed y r')
    with serve_keeps_expired [OF Cons.prems(1)] Cons.prems q show ?thesis by auto
  qed (use Cons.prems in simp)
  with Cons q run wf_handle [OF _ run] show ?case by simp
qed simp

text \<open>
  An expired invitation never ends.  The write of the status \<open>expired\<close>
  violates the table's \<open>CHECK\<close> constraint, so acceptance is answered with status 500 and
  changes nothing; the invitation stays pending after every further sequence of requests, and as
  long no new invitation to the organization can be created for the address.
\<close>

theorem expired_invite_blocks:
  assumes "accounts_wf (fst w)" and "i \<in> set (invites (fst w))" and "i_status i = Pending"
    and "\<forall>q \<in> set tr. i_expires_at i < env_now (cx_env (fst q))" and "i_expires_at i < now"
  shows "i \<in> set (invites (fst (run_requests tr w))) \<and>
    accept_invite mid now tx (i_id i) uid (i_email i) (fst (run_requests tr w)) =
      (Inl IntegrityError, fst (run_requests tr w)) \<and> resp_status (handle_exn IntegrityError) = 500 \<and>
    create_invite h iid now tx (i_org_id i) (i_email i) r inviter (fst (run_requests tr w)) =
      (Inl (App (ConflictError ''A pending invitation already exists for this email.'')), fst (run_requests tr w))"
proof -
  let ?db = "fst (run_requests tr w)"
  have i: "i \<in> set (invites ?db)" by (rule run_requests_keep_expired [OF assms(1,2,4)])
  note parts = accounts_wfD [OF run_requests_wf [OF assms(1), of tr]]
  have accept: "accept_invite mid now tx (i_id i) uid (i_email i) ?db = (Inl IntegrityError, ?db)"
    using accept_lookup [OF parts(7) i] assms(3,5)
    by (simp add: accept_invite_def flush_invite_def invite_status_valid_def)
  have "member_check (i_org_id i) (i_email i) ?db = Inr ()"
  proof (cases "filter (\<lambda>u. u_email u = i_email i) (users ?db)" rule: scalar_one_or_none_cases)
    case (2 u)
    then have u: "u \<in> set (users ?db)" "u_email u = i_email i" by (auto simp: filter_eq_Cons_iff)
    have "(i_org_id i, u_id u) \<notin> (\<lambda>m. (m_org_id m, m_user_id m)) ` set (memberships ?db)"
      using parts(13) i u assms(3) unfolding pending_outside_def by blast
    then have "filter (\<lambda>m. (m_org_id m, m_user_id m) = (i_org_id i, u_id u)) (memberships ?db) = []"
      by (intro filter_False) (auto simp: image_iff)
    with 2 show ?thesis by (simp add: member_check_def)
  next
    case 3
    with user_emails.lookup_key_never_raises [OF parts(2), of "i_email i"] show ?thesis by simp
  qed (simp add: member_check_def)
  moreover have "filter (pending_for (i_org_id i) (i_email i)) (invites ?db) = [i]"
  proof -
    have "filter (pending_for (i_org_id i) (i_email i)) (invites ?db) = filter (\<lambda>k. i_id k = i_id i) (invites ?db)"
    proof (rule filter_cong [OF refl])
      fix k assume k: "k \<in> set (invites ?db)"
      show "pending_for (i_org_id i) (i_email i) k = (i_id k = i_id i)"
        using invite_ids.unique [OF parts(7) k i] parts(12) [unfolded pending_unique_def, rule_format, OF k i]
          assms(3) by (auto simp: pending_for_def)
    qed
    then show ?thesis using invite_ids.lookup [OF parts(7) i] by (simp add: scalar_one_or_none_Some)
  qed
  ultimately show ?thesis using i accept by (simp add: create_invite_def)
qed

theorem expired_invite_blocks_witness:
  "(let w = run_requests [(sample_cx (sample_env 50 ''r'' 8) None, GoogleLogin ''c@x.y'')] (sample_inviting, \<lambda>_. None)
    in sample_invite \<in> set (invites (fst w)) \<and>
       accept_invite 60 9 9 30 4 ''b@x.y'' (fst w) = (Inl IntegrityError, fst w) \<and>
       create_invite ''h2'' 31 9 9 20 ''b@x.y'' Viewer 3 (fst w) =
         (Inl (App (ConflictError ''A pending invitation already exists for this email.'')), fst w))"
  unfolding Let_def
  using expired_invite_blocks [where w = "(sample_inviting, \<lambda>_. None)" and i = sample_invite and now = 9
      and tr = "[(sample_cx (sample_env 50 ''r'' 8) None, GoogleLogin ''c@x.y'')]" and mid = 60 and tx = 9
      and uid = 4 and h = "''h2''" and iid = 31 and r = Viewer and inviter = 3] sample_inviting_wf
  by (simp del: run_requests.simps)

subsection \<open>Admins\<close>

text \<open>
  Two admins can remove each other.  When both have passed the role check
  before either removal commits, both removals succeed, and an organization whose only admins
  they were is left without admin, although one request after the other never does that.
\<close>

theorem admins_remove_each_other:
  assumes "accounts_wf db" and "{a, b} \<subseteq> set (memberships db)" and "m_org_id a = t" "m_org_id b = t"
    and "m_user_id a \<noteq> m_user_id b" and "m_role a = Admin" "m_role b = Admin"
    and "\<forall>k \<in> set (memberships db). m_org_id k = t \<and> m_role k = Admin \<longrightarrow> k = a \<or> k = b"
  shows "(\<forall>k \<in> {a, b}. \<exists>m. resolve_membership (m_user_id k) (Some t) db = Inr m \<and> require_role (m_role m) {Admin} = Inr ()) \<and>
    (\<exists>db1 db2. remove_member t (m_user_id b) (m_user_id a) db = (Inr (), db1) \<and>
       remove_member t (m_user_id a) (m_user_id b) db1 = (Inr (), db2) \<and>
       (\<forall>k \<in> set (memberships db2). m_org_id k = t \<longrightarrow> m_role k \<noteq> Admin))"
proof -
  note parts = accounts_wfD [OF assms(1)]
  have ab: "a \<in> set (memberships db)" "b \<in> set (memberships db)" using assms(2) by auto
  have allowed: "\<exists>m. resolve_membership (m_user_id k) (Some t) db = Inr m \<and> require_role (m_role m) {Admin} = Inr ()"
    if "k \<in> {a, b}" for k
  proof -
    have k: "k \<in> set (memberships db)" "m_org_id k = t" "m_role k = Admin" using that assms by auto
    from resolve_member [OF parts(6) k(1)] k(2,3) show ?thesis by (simp add: require_role_def)
  qed
  let ?db1 = "db \<lparr>memberships := filter (\<lambda>k. m_id k \<noteq> m_id b) (memberships db)\<rparr>"
  let ?db2 = "?db1 \<lparr>memberships := filter (\<lambda>k. m_id k \<noteq> m_id a) (memberships ?db1)\<rparr>"
  have ids: "m_id a \<noteq> m_id b" using member_ids.unique [OF parts(5) ab] assms(5) by auto
  have keyed1: "member_keys.keyed ?db1" by (rule member_keys.delete_keyed [OF parts(6)]) simp
  have 1: "remove_member t (m_user_id b) (m_user_id a) db = (Inr (), ?db1)"
    using member_keys.lookup [OF parts(6) ab(2)] assms(4,5) by (simp add: remove_member_def)
  have "a \<in> set (memberships ?db1)" using ab(1) ids by simp
  then have 2: "remove_member t (m_user_id a) (m_user_id b) ?db1 = (Inr (), ?db2)"
    using member_keys.lookup [OF keyed1, of a] assms(3,5) by (simp add: remove_member_def)
  have gone: "m_role k \<noteq> Admin" if "k \<in> set (memberships ?db2)" "m_org_id k = t" for k
    using that assms(8) by auto
  show ?thesis
  proof (rule conjI)
    show "\<forall>k \<in> {a, b}. \<exists>m. resolve_membership (m_user_id k) (Some t) db = Inr m \<and> require_role (m_role m) {Admin} = Inr ()"
      using allowed by blast
    show "\<exists>db1 db2. remove_member t (m_user_id b) (m_user_id a) db = (Inr (), db1) \<and>
       remove_member t (m_user_id a) (m_user_id b) db1 = (Inr (), db2) \<and>
       (\<forall>k \<in> set (memberships db2). m_org_id k = t \<longrightarrow> m_role k \<noteq> Admin)"
      using 1 2 gone by blast
  qed
qed

theorem admins_remove_each_other_witness:
  "\<exists>db1 db2. remove_member 20 4 3 (sample_inviting \<lparr>invites := [], memberships := [sample_member 40 3 Admin, sample_member 41 4 Admin]\<rparr>) =
       (Inr (), db1) \<and>
     remove_member 20 3 4 db1 = (Inr (), db2) \<and> filter (\<lambda>k. m_org_id k = 20 \<and> m_role k = Admin) (memberships db2) = []"
proof -
  let ?db = "sample_inviting \<lparr>invites := [], memberships := [sample_member 40 3 Admin, sample_member 41 4 Admin]\<rparr>"
  have "accounts_wf ?db"
    by (simp add: accounts_wf_def keys_wf_def keyed_defs referenced_def administered_def pending_unique_def pending_outside_def)
  from admins_remove_each_other [OF this, of "sample_member 40 3 Admin" "sample_member 41 4 Admin" 20]
  show ?thesis by (auto simp: filter_empty_conv)
qed

end
