(* ===== verification/Decimal.thy ===== *)
theory Decimal
  imports Uuids
begin

section \<open>Decimal numerals\<close>

text \<open>
  \<open>str(n)\<close> of an integer and \<open>int(s)\<close> of a string, of the standard library; \<open>None\<close> stands for
  the \<open>ValueError\<close> of \<open>int\<close>.
\<close>

fun nat_str :: "nat \<Rightarrow> string" where
  "nat_str n = (if n < 10 then [hex_digit n] else nat_str (n div 10) @ [hex_digit (n mod 10)])"

declare nat_str.simps [simp del]

definition int_str :: "int \<Rightarrow> string" where
  "int_str k = (if k < 0 then CHR ''-'' # nat_str (nat (- k)) else nat_str (nat k))"

definition dec_value :: "char \<Rightarrow> nat option" where
  "dec_value c = (let n = of_char c :: nat in if 48 \<le> n \<and> n \<le> 57 then Some (n - 48) else None)"

fun read_dec :: "bool \<Rightarrow> nat \<Rightarrow> string \<Rightarrow> nat option" where
  "read_dec after_digit acc [] = (if after_digit then Some acc else None)"
| "read_dec after_digit acc (c # cs) =
     (case dec_value c of
        Some d \<Rightarrow> read_dec True (10 * acc + d) cs
      | None \<Rightarrow> if c = CHR ''_'' \<and> after_digit then read_dec False acc cs else None)"

definition parse_int :: "string \<Rightarrow> int option" where
  "parse_int s =
     (case strip_by int_space s of
        c # cs \<Rightarrow>
          if c = CHR ''-'' then map_option (\<lambda>n. - int n) (read_dec False 0 cs)
          else if c = CHR ''+'' then map_option int (read_dec False 0 cs)
          else map_option int (read_dec False 0 (c # cs))
      | [] \<Rightarrow> None)"

lemma dec_value_digit: "d < 10 \<Longrightarrow> dec_value (hex_digit d) = Some d"
  by (simp add: dec_value_def hex_digit_def)

lemma nat_str_nonempty: "nat_str n \<noteq> []"
  by (subst nat_str.simps) simp

lemma nat_str_digits: "c \<in> set (nat_str n) \<Longrightarrow> \<exists>d < 10. c = hex_digit d"
proof (induction n rule: nat_str.induct)
  case (1 n)
  show ?case
  proof (cases "n < 10")
    case True
    with "1.prems" show ?thesis by (subst (asm) nat_str.simps) auto
  next
    case False
    with "1.prems" have "c \<in> set (nat_str (n div 10)) \<or> c = hex_digit (n mod 10)"
      by (subst (asm) nat_str.simps) auto
    with "1.IH" [OF False] show ?thesis by (auto intro: exI [of _ "n mod 10"])
  qed
qed

lemma nat_str_range: "c \<in> set (nat_str n) \<Longrightarrow> (of_char c :: nat) \<in> {48..57}"
  using nat_str_digits [of c n] by (auto simp: hex_digit_def)

lemma read_nat_str: "read_dec k 0 (nat_str n @ t) = read_dec True n t"
proof (induction n arbitrary: k t rule: nat_str.induct)
  case (1 n)
  show ?case
  proof (cases "n < 10")
    case True
    then show ?thesis by (subst nat_str.simps) (simp add: dec_value_digit)
  next
    case False
    have "10 * (n div 10) + n mod 10 = n" by simp
    with "1.IH" [OF False, of k "hex_digit (n mod 10) # t"] False show ?thesis
      by (subst nat_str.simps) (simp add: dec_value_digit)
  qed
qed

lemma read_nat_str_end: "read_dec False 0 (nat_str n) = Some n"
  using read_nat_str [of False n "[]"] by simp

lemma parse_int_str: "parse_int (int_str k) = Some k"
proof -
  have solid: "strip_by int_space s = s" if "\<And>c. c \<in> set s \<Longrightarrow> (of_char c :: nat) \<in> {45} \<union> {48..57}" for s
    by (rule strip_by_absent) (use that in \<open>fastforce simp: int_space_def\<close>)
  show ?thesis
  proof (cases "k < 0")
    case True
    have "strip_by int_space (CHR ''-'' # nat_str (nat (- k))) = CHR ''-'' # nat_str (nat (- k))"
      by (rule solid) (auto dest: nat_str_range)
    with True show ?thesis by (simp add: parse_int_def int_str_def read_nat_str_end)
  next
    case False
    obtain c cs where cs: "nat_str (nat k) = c # cs" using nat_str_nonempty by (cases "nat_str (nat k)") auto
    have "(of_char c :: nat) \<in> {48..57}" by (rule nat_str_range [of _ "nat k"]) (simp add: cs)
    then have "c \<noteq> CHR ''-''" "c \<noteq> CHR ''+''" by auto
    moreover have "strip_by int_space (nat_str (nat k)) = nat_str (nat k)"
      by (rule solid) (auto dest: nat_str_range)
    ultimately show ?thesis
      using False read_nat_str_end [of "nat k"] by (simp add: parse_int_def int_str_def cs)
  qed
qed

end
