(* ===== verification/Cursor.thy ===== *)
theory Cursor
  imports Binary64 Decimal Exceptions
begin

section \<open>Pagination cursors\<close>

text \<open>
  \<open>src/core/pagination.py\<close>, down to the base64 and JSON of the standard library.  A cursor is the
  URL-safe base64 of the JSON text of a dictionary with one entry.  \<open>non_ascii\<close> stands for the
  decoding of JSON bytes that are not plain ASCII (UTF-8, 16 or 32); a \<open>\u\<close> escape above 255 has
  no place in the model's strings and is read as an error.
\<close>

subsection \<open>Base64\<close>

definition b64_char :: "nat \<Rightarrow> char" where
  "b64_char v =
     (if v < 26 then char_of (65 + v) else if v < 52 then char_of (71 + v)
      else if v < 62 then char_of (v - 4) else if v = 62 then CHR ''-'' else CHR ''_'')"

text \<open>\<open>urlsafe_b64decode\<close> also accepts the characters of the plain alphabet.\<close>

definition b64_value :: "char \<Rightarrow> nat option" where
  "b64_value c =
     (let n = of_char c :: nat
      in if 65 \<le> n \<and> n \<le> 90 then Some (n - 65) else if 97 \<le> n \<and> n \<le> 122 then Some (n - 71)
         else if 48 \<le> n \<and> n \<le> 57 then Some (n + 4) else if c = CHR ''-'' \<or> c = CHR ''+'' then Some 62
         else if c = CHR ''_'' \<or> c = CHR ''/'' then Some 63 else None)"

abbreviation byte :: "char \<Rightarrow> nat" where
  "byte c \<equiv> of_char c"

fun b64_encode :: "string \<Rightarrow> string" where
  "b64_encode [] = []"
| "b64_encode [a] = [b64_char (byte a div 4), b64_char (byte a mod 4 * 16), CHR ''='', CHR ''='']"
| "b64_encode [a, b] =
     [b64_char (byte a div 4), b64_char (byte a mod 4 * 16 + byte b div 16),
      b64_char (byte b mod 16 * 4), CHR ''='']"
| "b64_encode (a # b # c # rest) =
     b64_char (byte a div 4) # b64_char (byte a mod 4 * 16 + byte b div 16) #
     b64_char (byte b mod 16 * 4 + byte c div 64) # b64_char (byte c mod 64) # b64_encode rest"

text \<open>
  \<open>binascii.a2b_base64\<close>: the position in the group of four, the bits left over, and the padding
  seen; characters outside the alphabet are skipped, and complete padding ends the text.
\<close>

fun b64_decode_from :: "nat \<Rightarrow> nat \<Rightarrow> nat \<Rightarrow> string \<Rightarrow> string option" where
  "b64_decode_from quad left pads [] = (if quad = 0 then Some [] else None)"
| "b64_decode_from quad left pads (c # cs) =
     (if c = CHR ''='' then
        (if 2 \<le> quad \<and> 4 \<le> quad + pads + 1 then Some []
         else b64_decode_from quad left (if 2 \<le> quad then pads + 1 else pads) cs)
      else (case b64_value c of
              None \<Rightarrow> b64_decode_from quad left pads cs
            | Some v \<Rightarrow>
                if quad = 0 then b64_decode_from 1 v 0 cs
                else if quad = 1
                then map_option ((#) (char_of (left * 4 + v div 16))) (b64_decode_from 2 (v mod 16) 0 cs)
                else if quad = 2
                then map_option ((#) (char_of (left * 16 + v div 4))) (b64_decode_from 3 (v mod 4) 0 cs)
                else map_option ((#) (char_of (left * 64 + v))) (b64_decode_from 0 0 0 cs)))"

definition b64_decode :: "string \<Rightarrow> string option" where
  "b64_decode s = b64_decode_from 0 0 0 s"

lemma b64_value_char: "v < 64 \<Longrightarrow> b64_value (b64_char v) = Some v"
  by (auto simp: b64_value_def b64_char_def Let_def)

lemma b64_char_no_pad: "v < 64 \<Longrightarrow> b64_char v \<noteq> CHR ''=''"
  using b64_value_char [of v] by (auto simp: b64_value_def)

lemma byte_lt: "byte c < 256"
  using of_char_of [of "byte c"] by (metis mod_less_divisor of_char_mod_256 zero_less_numeral)

lemma bytes_parts:
  "byte a div 4 < 64" "byte a mod 4 * 16 < 64" "byte a mod 4 * 16 + byte b div 16 < 64"
  "byte b mod 16 * 4 < 64" "byte b mod 16 * 4 + byte c div 64 < 64" "byte c mod 64 < 64"
  using byte_lt [of a] byte_lt [of b] byte_lt [of c] by linarith+

lemma bytes_joined:
  "byte b div 16 div 16 = 0" "byte b div 16 mod 16 = byte b div 16"
  "byte c div 64 div 4 = 0" "byte c div 64 mod 4 = byte c div 64"
  using byte_lt [of b] byte_lt [of c] by (simp_all add: div_mult2_eq [symmetric] div_less_dividend less_mult_imp_div_less)

lemma b64_decode_encode: "b64_decode (b64_encode s) = Some s"
proof -
  have "b64_decode_from 0 0 0 (b64_encode s) = Some s"
    by (induction s rule: b64_encode.induct)
      (simp_all add: b64_value_char b64_char_no_pad bytes_parts bytes_joined)
  then show ?thesis by (simp add: b64_decode_def)
qed

subsection \<open>JSON\<close>

datatype json =
    JNull
  | JBool bool
  | JInt int
  | JFloat rat
  | JNonFinite
  | JStr string
  | JArr "json list"
  | JObj "(string \<times> json) list"

abbreviation quote :: char where "quote \<equiv> CHR 0x22"
abbreviation backslash :: char where "backslash \<equiv> CHR 0x5C"

text \<open>\<open>json.dumps\<close> escapes everything but the printable ASCII characters.\<close>

definition json_escape :: "char \<Rightarrow> string" where
  "json_escape c =
     (if c = quote \<or> c = backslash then [backslash, c]
      else if c = CHR 0x0A then [backslash, CHR ''n''] else if c = CHR 0x0D then [backslash, CHR ''r'']
      else if c = CHR 0x09 then [backslash, CHR ''t''] else if c = CHR 0x0C then [backslash, CHR ''f'']
      else if c = CHR 0x08 then [backslash, CHR ''b'']
      else if 32 \<le> byte c \<and> byte c \<le> 126 then [c]
      else [backslash, CHR ''u'', CHR ''0'', CHR ''0'', hex_digit (byte c div 16), hex_digit (byte c mod 16)])"

definition json_quote :: "string \<Rightarrow> string" where
  "json_quote s = quote # concat (map json_escape s) @ [quote]"

definition json_space :: "char \<Rightarrow> bool" where
  "json_space c \<longleftrightarrow> c = CHR '' '' \<or> c = CHR 0x09 \<or> c = CHR 0x0A \<or> c = CHR 0x0D"

abbreviation json_skip :: "string \<Rightarrow> string" where
  "json_skip s \<equiv> dropWhile json_space s"

fun hex4 :: "string \<Rightarrow> nat option" where
  "hex4 [a, b, c, d] =
     (case (hex_value a, hex_value b, hex_value c, hex_value d) of
        (Some w, Some x, Some y, Some z) \<Rightarrow> Some (((w * 16 + x) * 16 + y) * 16 + z)
      | _ \<Rightarrow> None)"
| "hex4 _ = None"

definition json_unescape :: "char \<Rightarrow> char option" where
  "json_unescape e =
     (if e = quote \<or> e = backslash \<or> e = CHR ''/'' then Some e
      else if e = CHR ''n'' then Some (CHR 0x0A) else if e = CHR ''r'' then Some (CHR 0x0D)
      else if e = CHR ''t'' then Some (CHR 0x09) else if e = CHR ''f'' then Some (CHR 0x0C)
      else if e = CHR ''b'' then Some (CHR 0x08) else None)"

text \<open>The rest of a string, after its opening quote: the value and what follows the closing quote.\<close>

function json_string :: "string \<Rightarrow> (string \<times> string) option" where
  "json_string [] = None"
| "json_string (c # cs) =
     (if c = quote then Some ([], cs)
      else if c = backslash then
        (case cs of
           [] \<Rightarrow> None
         | e # rest \<Rightarrow>
             if e = CHR ''u'' then
               (case hex4 (take 4 rest) of
                  None \<Rightarrow> None
                | Some n \<Rightarrow> if n < 256 then map_option (\<lambda>(s, t). (char_of n # s, t)) (json_string (drop 4 rest)) else None)
             else (case json_unescape e of
                     None \<Rightarrow> None
                   | Some d \<Rightarrow> map_option (\<lambda>(s, t). (d # s, t)) (json_string rest)))
      else if byte c < 32 then None
      else map_option (\<lambda>(s, t). (c # s, t)) (json_string cs))"
  by pat_completeness auto
termination
  by (relation "measure length") auto

definition is_digit :: "char \<Rightarrow> bool" where
  "is_digit c \<longleftrightarrow> dec_value c \<noteq> None"

definition digits_value :: "string \<Rightarrow> nat" where
  "digits_value ds = foldl (\<lambda>acc c. 10 * acc + the (dec_value c)) 0 ds"

text \<open>\<open>-?(0|[1-9][0-9]*)(\.[0-9]+)?([eE][-+]?[0-9]+)?\<close>\<close>

definition json_unsigned :: "int \<Rightarrow> string \<Rightarrow> (json \<times> string) option" where
  "json_unsigned sign s1 =
     (let ip = (if startswith s1 ''0'' then ''0'' else takeWhile is_digit s1)
      in if ip = [] then None
         else
           let s2 = drop (length ip) s1;
               fp = (if startswith s2 ''.'' then takeWhile is_digit (drop 1 s2) else []);
               s3 = (if fp = [] then s2 else drop (1 + length fp) s2);
               marked = startswith s3 ''e'' \<or> startswith s3 ''E'';
               s4 = (if marked then drop 1 s3 else []);
               eneg = startswith s4 ''-'';
               s5 = (if eneg \<or> startswith s4 ''+'' then drop 1 s4 else s4);
               ep = (if marked then takeWhile is_digit s5 else []);
               rest = (if ep = [] then s3 else drop (length ep) s5)
           in if fp = [] \<and> ep = [] then Some (JInt (sign * int (digits_value ip)), rest)
              else Some (JFloat (b64 (of_int sign * of_nat (digits_value (ip @ fp)) *
                     10 powi ((if eneg then -1 else 1) * int (digits_value ep) - int (length fp)))), rest))"

definition json_number :: "string \<Rightarrow> (json \<times> string) option" where
  "json_number s = (if startswith s ''-'' then json_unsigned (-1) (drop 1 s) else json_unsigned 1 s)"

text \<open>The scanner; the fuel bounds the nesting, and the length of the text is enough.\<close>

fun json_value :: "nat \<Rightarrow> string \<Rightarrow> (json \<times> string) option"
  and json_items :: "nat \<Rightarrow> string \<Rightarrow> (json list \<times> string) option"
  and json_members :: "nat \<Rightarrow> string \<Rightarrow> ((string \<times> json) list \<times> string) option" where
  "json_value 0 s = None"
| "json_value (Suc n) s =
     (if startswith s [quote] then map_option (\<lambda>(v, t). (JStr v, t)) (json_string (drop 1 s))
      else if startswith s ''{'' then
        (let t = json_skip (drop 1 s)
         in if startswith t ''}'' then Some (JObj [], drop 1 t)
            else map_option (\<lambda>(ms, u). (JObj ms, u)) (json_members n t))
      else if startswith s ''['' then
        (let t = json_skip (drop 1 s)
         in if startswith t '']'' then Some (JArr [], drop 1 t)
            else map_option (\<lambda>(vs, u). (JArr vs, u)) (json_items n t))
      else if startswith s ''null'' then Some (JNull, drop 4 s)
      else if startswith s ''true'' then Some (JBool True, drop 4 s)
      else if startswith s ''false'' then Some (JBool False, drop 5 s)
      else if startswith s ''NaN'' then Some (JNonFinite, drop 3 s)
      else if startswith s ''Infinity'' then Some (JNonFinite, drop 8 s)
      else if startswith s ''-Infinity'' then Some (JNonFinite, drop 9 s)
      else json_number s)"
| "json_items 0 s = None"
| "json_items (Suc n) s =
     (case json_value n s of
        None \<Rightarrow> None
      | Some (v, t) \<Rightarrow>
          (let u = json_skip t
           in if startswith u '']'' then Some ([v], drop 1 u)
              else if startswith u '','' then map_option (\<lambda>(vs, w). (v # vs, w)) (json_items n (json_skip (drop 1 u)))
              else None))"
| "json_members 0 s = None"
| "json_members (Suc n) s =
     (if \<not> startswith s [quote] then None
      else (case json_string (drop 1 s) of
         None \<Rightarrow> None
       | Some (k, t) \<Rightarrow>
           (let u = json_skip t
            in if \<not> startswith u '':'' then None
               else (case json_value n (json_skip (drop 1 u)) of
                  None \<Rightarrow> None
                | Some (v, w) \<Rightarrow>
                    (let x = json_skip w
                     in if startswith x ''}'' then Some ([(k, v)], drop 1 x)
                        else if startswith x '','' then
                          map_option (\<lambda>(ms, y). ((k, v) # ms, y)) (json_members n (json_skip (drop 1 x)))
                        else None)))))"

definition json_loads :: "string \<Rightarrow> json option" where
  "json_loads s =
     (case json_value (Suc (length s)) (json_skip s) of
        Some (v, t) \<Rightarrow> if json_skip t = [] then Some v else None
      | None \<Rightarrow> None)"

subsection \<open>Cursors\<close>

datatype cursor_value = CursorInt int | CursorStr string

fun cursor_json :: "cursor_value \<Rightarrow> json" where
  "cursor_json (CursorInt n) = JInt n"
| "cursor_json (CursorStr s) = JStr s"

fun json_dump :: "cursor_value \<Rightarrow> string" where
  "json_dump (CursorInt n) = int_str n"
| "json_dump (CursorStr s) = json_quote s"

definition encode_cursor :: "string \<Rightarrow> cursor_value \<Rightarrow> string" where
  "encode_cursor key v = b64_encode (''{'' @ json_quote key @ '': '' @ json_dump v @ ''}'')"

definition decode_cursor :: "(string \<Rightarrow> string option) \<Rightarrow> string \<Rightarrow> (exn, (string \<times> json) list) outcome" where
  "decode_cursor non_ascii cursor =
     (case b64_decode cursor of
        None \<Rightarrow> Inl (ValueError ''Invalid pagination cursor'')
      | Some bytes \<Rightarrow>
          (case (if \<forall>c \<in> set bytes. 0 < byte c \<and> byte c < 128 then Some bytes else non_ascii bytes) of
             None \<Rightarrow> Inl (ValueError ''Invalid pagination cursor'')
           | Some txt \<Rightarrow>
               (case json_loads txt of
                  None \<Rightarrow> Inl (ValueError ''Invalid pagination cursor'')
                | Some (JObj ms) \<Rightarrow> Inr ms
                | Some _ \<Rightarrow> Inl (ValueError ''Pagination cursor must encode a JSON object.''))))"

subsection \<open>Reading what was written\<close>

lemma json_string_char: "json_string (json_escape c @ t) = map_option (\<lambda>(s, u). (c # s, u)) (json_string t)"
proof -
  have hex: "hex4 [CHR ''0'', CHR ''0'', hex_digit (byte c div 16), hex_digit (byte c mod 16)] = Some (byte c)"
  proof -
    have "hex_value (CHR ''0'') = Some 0" by (simp add: hex_value_def)
    moreover have "byte c div 16 < 16" using byte_lt [of c] by linarith
    ultimately show ?thesis by (simp add: hex_value_digit)
  qed
  show ?thesis
  proof (cases "json_escape c = [backslash, CHR ''u'', CHR ''0'', CHR ''0'', hex_digit (byte c div 16), hex_digit (byte c mod 16)]")
    case True
    then show ?thesis using hex byte_lt [of c] by simp
  next
    case False
    then show ?thesis by (auto simp: json_escape_def json_unescape_def split: if_splits)
  qed
qed

lemma json_string_escaped: "json_string (concat (map json_escape s) @ quote # t) = Some (s, t)"
  by (induction s) (simp_all add: json_string_char del: json_string.simps(2), simp)

lemma is_digit_hex: "d < 10 \<Longrightarrow> is_digit (hex_digit d)"
  by (simp add: is_digit_def dec_value_digit)

lemma nat_str_is_digit: "c \<in> set (nat_str n) \<Longrightarrow> is_digit c"
  using nat_str_digits [of c n] by (auto simp: is_digit_hex)

lemma digits_value_snoc: "digits_value (ds @ [c]) = 10 * digits_value ds + the (dec_value c)"
  by (simp add: digits_value_def)

lemma digits_value_nat_str: "digits_value (nat_str n) = n"
proof (induction n rule: nat_str.induct)
  case (1 n)
  show ?case
  proof (cases "n < 10")
    case True
    then have "nat_str n = [hex_digit n]" by (subst nat_str.simps) simp
    with True show ?thesis by (simp add: digits_value_def dec_value_digit)
  next
    case False
    then have "nat_str n = nat_str (n div 10) @ [hex_digit (n mod 10)]" by (subst nat_str.simps) simp
    with "1.IH" [OF False] show ?thesis by (simp add: digits_value_snoc dec_value_digit)
  qed
qed

lemma nat_str_zero: "hd (nat_str n) = CHR ''0'' \<Longrightarrow> nat_str n = ''0''"
proof (induction n rule: nat_str.induct)
  case (1 n)
  show ?case
  proof (cases "n < 10")
    case True
    then have "nat_str n = [hex_digit n]" by (subst nat_str.simps) simp
    with "1.prems" show ?thesis by simp
  next
    case False
    then have eq: "nat_str n = nat_str (n div 10) @ [hex_digit (n mod 10)]" by (subst nat_str.simps) simp
    then have "nat_str (n div 10) = ''0''" using "1.IH" [OF False] "1.prems" nat_str_nonempty by simp
    moreover have "digits_value (nat_str (n div 10)) = n div 10" by (rule digits_value_nat_str)
    ultimately have "n div 10 = 0" by (simp add: digits_value_def dec_value_def)
    with False show ?thesis by simp
  qed
qed

lemma startswith_Cons: "startswith (c # s) (d # p) \<longleftrightarrow> c = d \<and> startswith s p" "startswith s []"
    "\<not> startswith [] (d # p)"
  by (auto simp: startswith_def)

lemma json_number_int:
  assumes "t = [] \<or> (\<not> is_digit (hd t) \<and> hd t \<notin> {CHR ''.'', CHR ''e'', CHR ''E''})"
  shows "json_number (int_str n @ t) = Some (JInt n, t)"
proof -
  have stop: "\<not> startswith t ''.''" "\<not> startswith t ''e''" "\<not> startswith t ''E''"
    using assms by (cases t; auto simp: startswith_Cons)+
  have part: "(if startswith (nat_str m @ t) ''0'' then ''0'' else takeWhile is_digit (nat_str m @ t)) = nat_str m" for m
  proof (cases "hd (nat_str m) = CHR ''0''")
    case True
    then show ?thesis by (simp add: nat_str_zero startswith_Cons)
  next
    case False
    then have "\<not> startswith (nat_str m @ t) ''0''"
      using nat_str_nonempty [of m] by (cases "nat_str m") (auto simp: startswith_Cons)
    moreover have "takeWhile is_digit t = []" using assms by (cases t) auto
    ultimately show ?thesis using nat_str_is_digit by (simp add: takeWhile_append2)
  qed
  have minus: "\<not> startswith (nat_str m @ t) ''-''" for m
    using nat_str_nonempty [of m] nat_str_range [of "CHR ''-''" m]
    by (cases "nat_str m") (auto simp: startswith_Cons)
  have unsigned: "json_unsigned sign (nat_str m @ t) = Some (JInt (sign * int m), t)" for sign m
    unfolding json_unsigned_def part Let_def append_eq_conv_conj [THEN iffD1, OF refl, THEN conjunct2]
    using stop nat_str_nonempty [of m] by (simp add: digits_value_nat_str)
  show ?thesis
  proof (cases "n < 0")
    case True
    then show ?thesis by (simp add: json_number_def int_str_def unsigned startswith_Cons)
  next
    case False
    then show ?thesis by (simp add: json_number_def int_str_def unsigned minus)
  qed
qed

lemma json_skip_solid: "t = [] \<or> \<not> json_space (hd t) \<Longrightarrow> json_skip t = t"
  by (cases t) auto

lemma int_str_head: "hd (int_str n @ t) \<in> {CHR ''-''} \<union> {c. 48 \<le> byte c \<and> byte c \<le> 57}"
proof -
  have "hd (nat_str m @ u) \<in> {c. 48 \<le> byte c \<and> byte c \<le> 57}" for m u
    using nat_str_nonempty [of m] nat_str_range [of "hd (nat_str m)" m] by (cases "nat_str m") auto
  then show ?thesis by (simp add: int_str_def)
qed

lemma int_str_nonempty: "int_str n \<noteq> []"
  by (simp add: int_str_def nat_str_nonempty)

lemma startswith_hd: "startswith s (c # p) \<Longrightarrow> hd s = c"
  by (cases s) (auto simp: startswith_Cons)

lemma json_value_dump: "json_value (Suc n) (json_dump v @ ''}'') = Some (cursor_json v, ''}'')"
proof (cases v)
  case (CursorStr s)
  then show ?thesis using json_string_escaped [of s "''}''"] by (simp add: json_quote_def startswith_Cons)
next
  case (CursorInt i)
  have h: "hd (int_str i @ ''}'') \<in> {CHR ''-''} \<union> {c. 48 \<le> byte c \<and> byte c \<le> 57}" by (rule int_str_head)
  have "\<not> startswith (int_str i @ ''}'') (c # p)" if "c \<noteq> CHR ''-''" "\<not> (48 \<le> byte c \<and> byte c \<le> 57)" for c p
    using h that startswith_hd [of "int_str i @ ''}''" c p] by auto
  moreover have "\<not> startswith (int_str i @ ''}'') ''-Infinity''"
  proof
    assume inf: "startswith (int_str i @ ''}'') ''-Infinity''"
    have "CHR ''I'' \<in> set (int_str i @ ''}'')" using inf unfolding startswith_def
      by (metis in_set_takeD list.set_intros(1) list.set_intros(2))
    then show False using nat_str_range [of "CHR ''I''"] by (auto simp: int_str_def split: if_splits)
  qed
  moreover have "json_number (int_str i @ ''}'') = Some (JInt i, ''}'')"
    by (rule json_number_int) (simp add: is_digit_def dec_value_def)
  ultimately show ?thesis using CursorInt by simp
qed

lemma json_dump_head: "json_skip (CHR '' '' # json_dump v @ t) = json_dump v @ t"
proof -
  have "hd (json_dump v @ t) \<in> {quote, CHR ''-''} \<union> {c. 48 \<le> byte c \<and> byte c \<le> 57}"
    using int_str_head by (cases v) (auto simp: json_quote_def)
  then have "\<not> json_space (hd (json_dump v @ t))" by (auto simp: json_space_def)
  then show ?thesis by (simp add: json_space_def [of "CHR '' ''"] json_skip_solid)
qed

lemma json_loads_entry:
  "json_loads (''{'' @ json_quote key @ '': '' @ json_dump v @ ''}'') = Some (JObj [(key, cursor_json v)])"
proof -
  let ?t = "''{'' @ json_quote key @ '': '' @ json_dump v @ ''}''"
  have key: "json_string (concat (map json_escape key) @ quote # '': '' @ json_dump v @ ''}'') =
      Some (key, '': '' @ json_dump v @ ''}'')"
    by (rule json_string_escaped)
  have members: "json_members (Suc (Suc m)) (json_quote key @ '': '' @ json_dump v @ ''}'') =
      Some ([(key, cursor_json v)], [])" for m
    using key json_value_dump [of m v] json_dump_head [of v "''}''"]
    by (simp add: json_quote_def startswith_Cons json_space_def)
  have "json_skip (json_quote key @ '': '' @ json_dump v @ ''}'') = json_quote key @ '': '' @ json_dump v @ ''}''"
    by (simp add: json_quote_def json_space_def)
  moreover have "\<not> startswith (json_quote key @ '': '' @ json_dump v @ ''}'') ''}''"
    by (simp add: json_quote_def startswith_Cons)
  moreover have "\<exists>m. length ?t = Suc (Suc m)" by (rule exI [of _ "length ?t - 2"]) (simp add: json_quote_def)
  ultimately show ?thesis
    using members by (auto simp: json_loads_def startswith_Cons json_space_def)
qed

lemma json_dump_ascii: "c \<in> set (json_quote s) \<union> set (int_str n) \<Longrightarrow> 0 < byte c \<and> byte c < 128"
proof -
  have digit: "0 < byte (hex_digit d) \<and> byte (hex_digit d) < 128" if "d < 16" for d
    using that by (simp add: hex_digit_def)
  have esc: "0 < byte x \<and> byte x < 128" if "x \<in> set (json_escape e)" for x e
  proof -
    have "byte e div 16 < 16" "byte e mod 16 < 16" using byte_lt [of e] by linarith+
    then show ?thesis using that digit by (auto simp: json_escape_def split: if_splits)
  qed
  have num: "0 < byte x \<and> byte x < 128" if "x \<in> set (int_str n)" for x
    using that nat_str_range [of x] by (fastforce simp: int_str_def split: if_splits)
  assume "c \<in> set (json_quote s) \<union> set (int_str n)"
  then show ?thesis using esc num by (auto simp: json_quote_def)
qed

text \<open>
  Claim C18 (roundtrip): a cursor is read back.  Decoding what \<open>encode_cursor\<close> produced yields the
  one entry that was encoded, for every key and every integer or string: the base64 groups and
  their padding, the JSON escapes and the numerals are inverted exactly.
\<close>

theorem decode_encode_cursor: "decode_cursor non_ascii (encode_cursor key v) = Inr [(key, cursor_json v)]"
proof -
  let ?t = "''{'' @ json_quote key @ '': '' @ json_dump v @ ''}''"
  have "0 < byte c \<and> byte c < 128" if "c \<in> set ?t" for c
    using that json_dump_ascii [of c key 0] json_dump_ascii [of c "case v of CursorStr s \<Rightarrow> s | _ \<Rightarrow> []" "case v of CursorInt n \<Rightarrow> n | _ \<Rightarrow> 0"]
    by (cases v) auto
  then have ascii: "\<forall>c \<in> set ?t. 0 < byte c \<and> byte c < 128" by blast
  show ?thesis
    unfolding decode_cursor_def encode_cursor_def b64_decode_encode option.case
    by (simp only: if_P [OF ascii] option.case json_loads_entry json.case)
qed

end
