(* ===== verification/Listing.thy ===== *)
theory Listing
  imports Cursor Models
begin

section \<open>Cursor-paginated listings\<close>

text \<open>
  \<open>list_documents\<close> and \<open>list_chunks\<close> of \<open>src/documents/service.py\<close> and \<open>list_jobs\<close> of
  \<open>src/ingestion/service.py\<close>.  The database driver is a parameter where a cursor's text meets a
  timestamp column: \<open>bind_timestamp\<close> is what it makes of the value; \<open>isoformat\<close> is Python's.
\<close>

record driver =
  non_ascii :: "string \<Rightarrow> string option"
  bind_timestamp :: "json \<Rightarrow> (exn, timestamp) outcome"
  isoformat :: "timestamp \<Rightarrow> string"

subsection \<open>Queries and pages\<close>

text \<open>\<open>LIMIT n\<close>: a negative number is an error of the database.\<close>

definition sql_limit :: "int \<Rightarrow> 'r list \<Rightarrow> (exn, 'r list) outcome" where
  "sql_limit n rows = (if n < 0 then Inl (OtherError ''DBAPIError'') else Inr (take (nat n) rows))"

text \<open>\<open>xs[:n]\<close>\<close>

definition slice_to :: "int \<Rightarrow> 'a list \<Rightarrow> 'a list" where
  "slice_to n xs = take (nat (if n < 0 then int (length xs) + n else n)) xs"

definition dict_item :: "(string \<times> json) list \<Rightarrow> string \<Rightarrow> (exn, json) outcome" where
  "dict_item ms key = (case map_of (rev ms) key of None \<Rightarrow> Inl (OtherError ''KeyError'') | Some v \<Rightarrow> Inr v)"

text \<open>\<open>int(v)\<close> of a JSON value, and its use for an \<open>INTEGER\<close> column.\<close>

fun json_int :: "json \<Rightarrow> (exn, int) outcome" where
  "json_int (JInt n) = Inr n"
| "json_int (JBool b) = Inr (if b then 1 else 0)"
| "json_int (JFloat r) = Inr (if r < 0 then \<lceil>r\<rceil> else \<lfloor>r\<rfloor>)"
| "json_int (JStr s) = (case parse_int s of None \<Rightarrow> Inl (ValueError ''invalid literal for int()'') | Some n \<Rightarrow> Inr n)"
| "json_int JNonFinite = Inl (ValueError ''cannot convert float to integer'')"
| "json_int _ = Inl (OtherError ''TypeError'')"

definition bind_int4 :: "int \<Rightarrow> (exn, int) outcome" where
  "bind_int4 n = (if - (2 ^ 31) \<le> n \<and> n < 2 ^ 31 then Inr n else Inl DataError)"

text \<open>The common ending: the rows fetched, at most one more than the limit.\<close>

definition next_page :: "int \<Rightarrow> ('r \<Rightarrow> string) \<Rightarrow> 'r list \<Rightarrow> (exn, 'r list \<times> string option) outcome" where
  "next_page limit cursor_of rows =
     (if int (length rows) > limit
      then (let page = slice_to limit rows
            in try_bind (py_index page (-1)) (\<lambda>last_row. Inr (page, Some (cursor_of last_row))))
      else Inr (rows, None))"

text \<open>The position after which a page starts; an empty cursor is none.\<close>

definition after_cursor ::
  "driver \<Rightarrow> string \<Rightarrow> (json \<Rightarrow> (exn, int) outcome) \<Rightarrow> string option \<Rightarrow> (exn, int option) outcome" where
  "after_cursor drv key read_value cursor =
     (case cursor of
        None \<Rightarrow> Inr None
      | Some c \<Rightarrow>
          if c = '''' then Inr None
          else try_bind (decode_cursor (non_ascii drv) c) (\<lambda>ms.
                 try_bind (dict_item ms key) (\<lambda>v. try_bind (read_value v) (\<lambda>n. Inr (Some n)))))"

definition chunk_cursor :: "chunk_row \<Rightarrow> string" where
  "chunk_cursor c = encode_cursor ''chunk_index'' (CursorInt (int (c_chunk_index c)))"

definition list_chunks ::
  "driver \<Rightarrow> uuid \<Rightarrow> uuid \<Rightarrow> database \<Rightarrow> string option \<Rightarrow> int \<Rightarrow> (exn, chunk_row list \<times> string option) outcome" where
  "list_chunks drv document_id tenant_id db cursor limit =
     try_bind (after_cursor drv ''chunk_index'' (\<lambda>v. try_bind (json_int v) bind_int4) cursor) (\<lambda>after.
       try_bind (sql_limit (limit + 1) (order_by_asc (\<lambda>c. int (c_chunk_index c))
           (filter (\<lambda>c. c_document_id c = document_id \<and> c_tenant_id c = tenant_id \<and>
                        (case after of None \<Rightarrow> True | Some n \<Rightarrow> int (c_chunk_index c) > n)) (chunks db))))
         (next_page limit chunk_cursor))"

definition list_documents ::
  "driver \<Rightarrow> uuid \<Rightarrow> database \<Rightarrow> string option \<Rightarrow> int \<Rightarrow> (exn, document list \<times> string option) outcome" where
  "list_documents drv tenant_id db cursor limit =
     try_bind (after_cursor drv ''created_at'' (bind_timestamp drv) cursor) (\<lambda>before.
       try_bind (sql_limit (limit + 1) (order_by_desc d_created_at
           (filter (\<lambda>d. d_tenant_id d = tenant_id \<and> d_deleted_at d = None \<and>
                        (case before of None \<Rightarrow> True | Some t \<Rightarrow> d_created_at d < t)) (documents db))))
         (next_page limit (\<lambda>d. encode_cursor ''created_at'' (CursorStr (isoformat drv (d_created_at d))))))"

definition list_jobs ::
  "driver \<Rightarrow> uuid \<Rightarrow> database \<Rightarrow> string option \<Rightarrow> int \<Rightarrow> (exn, job list \<times> string option) outcome" where
  "list_jobs drv tenant_id db cursor limit =
     try_bind (after_cursor drv ''created_at'' (bind_timestamp drv) cursor) (\<lambda>before.
       try_bind (sql_limit (limit + 1) (order_by_desc j_created_at
           (filter (\<lambda>j. j_tenant_id j = tenant_id \<and>
                        (case before of None \<Rightarrow> True | Some t \<Rightarrow> j_created_at j < t)) (jobs db))))
         (next_page limit (\<lambda>j. encode_cursor ''created_at'' (CursorStr (isoformat drv (j_created_at j))))))"

text \<open>What a listing shows is among the rows it selects.\<close>

lemma next_page_among: "next_page limit cursor_of rows = Inr (page, n) \<Longrightarrow> set page \<subseteq> set rows"
  by (auto simp: next_page_def slice_to_def Let_def split: if_splits dest: in_set_takeD dest!: try_bind_InrD)

lemma listing_among:
  assumes "try_bind (sql_limit k rows) (next_page limit cursor_of) = Inr (page, n)"
  shows "set page \<subseteq> set rows"
proof -
  from try_bind_InrD [OF assms] obtain taken where "sql_limit k rows = Inr taken"
    and page: "next_page limit cursor_of taken = Inr (page, n)" by blast
  then have "set taken \<subseteq> set rows" using set_take_subset [of "nat k" rows] by (auto simp: sql_limit_def split: if_splits)
  with next_page_among [OF page] show ?thesis by blast
qed

lemma list_documents_among:
  assumes "list_documents drv t db cursor limit = Inr (page, n)"
  shows "set page \<subseteq> {d \<in> set (documents db). d_tenant_id d = t \<and> d_deleted_at d = None}"
proof -
  from try_bind_InrD [OF assms [unfolded list_documents_def]] obtain before where
    "try_bind (sql_limit (limit + 1) (order_by_desc d_created_at
       (filter (\<lambda>d. d_tenant_id d = t \<and> d_deleted_at d = None \<and>
          (case before of None \<Rightarrow> True | Some u \<Rightarrow> d_created_at d < u)) (documents db))))
       (next_page limit (\<lambda>d. encode_cursor ''created_at'' (CursorStr (isoformat drv (d_created_at d))))) = Inr (page, n)"
    by blast
  from listing_among [OF this] show ?thesis by (auto simp: order_by_desc_def)
qed

lemma list_chunks_among:
  assumes "list_chunks drv did t db cursor limit = Inr (page, n)"
  shows "set page \<subseteq> {c \<in> set (chunks db). c_document_id c = did \<and> c_tenant_id c = t}"
proof -
  from try_bind_InrD [OF assms [unfolded list_chunks_def]] obtain after where
    "try_bind (sql_limit (limit + 1) (order_by_asc (\<lambda>c. int (c_chunk_index c))
       (filter (\<lambda>c. c_document_id c = did \<and> c_tenant_id c = t \<and>
          (case after of None \<Rightarrow> True | Some k \<Rightarrow> int (c_chunk_index c) > k)) (chunks db))))
       (next_page limit chunk_cursor) = Inr (page, n)"
    by blast
  from listing_among [OF this] show ?thesis by (auto simp: order_by_asc_def)
qed

lemma list_jobs_among:
  assumes "list_jobs drv t db cursor limit = Inr (page, n)"
  shows "set page \<subseteq> {j \<in> set (jobs db). j_tenant_id j = t}"
proof -
  from try_bind_InrD [OF assms [unfolded list_jobs_def]] obtain before where
    "try_bind (sql_limit (limit + 1) (order_by_desc j_created_at
       (filter (\<lambda>j. j_tenant_id j = t \<and>
          (case before of None \<Rightarrow> True | Some u \<Rightarrow> j_created_at j < u)) (jobs db))))
       (next_page limit (\<lambda>j. encode_cursor ''created_at'' (CursorStr (isoformat drv (j_created_at j))))) = Inr (page, n)"
    by blast
  from listing_among [OF this] show ?thesis by (auto simp: order_by_desc_def)
qed

text \<open>A client that follows the cursors; the fuel bounds the number of pages.\<close>

fun all_pages ::
  "nat \<Rightarrow> (string option \<Rightarrow> (exn, 'r list \<times> string option) outcome) \<Rightarrow> string option \<Rightarrow> (exn, 'r list list) outcome" where
  "all_pages 0 fetch cursor = Inl (OtherError ''more pages'')"
| "all_pages (Suc n) fetch cursor =
     try_bind (fetch cursor) (\<lambda>(page, next_cursor).
       case next_cursor of
         None \<Rightarrow> Inr [page]
       | Some c \<Rightarrow> try_bind (all_pages n fetch (Some c)) (\<lambda>pages. Inr (page # pages)))"

subsection \<open>Following the cursors\<close>

lemma next_page_take:
  assumes "1 \<le> limit"
  shows "next_page limit f (take (nat (limit + 1)) rows) =
    (if int (length rows) \<le> limit then Inr (rows, None)
     else Inr (take (nat limit) rows, Some (f (rows ! (nat limit - 1)))))"
proof (cases "int (length rows) \<le> limit")
  case True
  then have "take (nat (limit + 1)) rows = rows" by simp
  with True show ?thesis by (simp add: next_page_def)
next
  case False
  let ?rows = "take (nat (limit + 1)) rows"
  have page: "slice_to limit ?rows = take (nat limit) rows" using assms False by (simp add: slice_to_def min_def)
  have "py_index (take (nat limit) rows) (-1) = Inr (rows ! (nat limit - 1))"
    using assms False by (simp add: py_index_def nat_diff_distrib Let_def min_def)
  with page False show ?thesis by (simp add: next_page_def Let_def)
qed

lemma next_page_first:
  assumes "1 \<le> limit"
  shows "\<exists>nxt. next_page limit f (take (nat (limit + 1)) rows) = Inr (take (nat limit) rows, nxt)"
proof (cases "int (length rows) \<le> limit")
  case True
  with next_page_take [OF assms, of f rows] show ?thesis by auto
next
  case False
  with next_page_take [OF assms, of f rows] show ?thesis by auto
qed

lemma filter_after:
  assumes "sorted_wrt (\<lambda>a b. key a < (key b :: int)) (pre @ r # rest)"
  shows "filter (\<lambda>s. key r < key s) (pre @ r # rest) = rest"
proof -
  have "filter (\<lambda>s. key r < key s) pre = []" "filter (\<lambda>s. key r < key s) rest = rest"
    using assms by (auto simp: sorted_wrt_append filter_empty_conv filter_id_conv dest: less_asym)
  then show ?thesis by simp
qed

lemma all_pages_suffix:
  assumes limit: "1 \<le> limit" and sorted: "sorted_wrt (\<lambda>a b. key a < (key b :: int)) S"
    and later: "\<And>r. r \<in> set S \<Longrightarrow> fetch (Some (f r)) = next_page limit f (take (nat (limit + 1)) (filter (\<lambda>s. key r < key s) S))"
  shows "S = pre @ rest \<Longrightarrow> fetch c = next_page limit f (take (nat (limit + 1)) rest) \<Longrightarrow> length rest < n \<Longrightarrow>
    \<exists>pages. all_pages n fetch c = Inr pages \<and> concat pages = rest \<and> (\<forall>p \<in> set pages. int (length p) \<le> limit)"
proof (induction n arbitrary: pre rest c)
  case (Suc n)
  show ?case
  proof (cases "int (length rest) \<le> limit")
    case True
    then have "fetch c = Inr (rest, None)" using Suc.prems(2) next_page_take [OF limit, of f rest] by metis
    with True show ?thesis by simp
  next
    case False
    let ?k = "nat limit - 1" and ?rest = "drop (nat limit) rest"
    let ?r = "rest ! ?k"
    have k: "?k < length rest" "Suc ?k = nat limit" using False limit by linarith+
    have split: "rest = take ?k rest @ ?r # ?rest" using id_take_nth_drop [OF k(1)] k(2) by simp
    have S: "S = (pre @ take ?k rest) @ ?r # ?rest" using Suc.prems(1) split by simp
    have "filter (\<lambda>s. key ?r < key s) S = ?rest"
      using filter_after [of key "pre @ take ?k rest" ?r ?rest] sorted S by metis
    moreover have "?r \<in> set S" using S by (metis in_set_conv_decomp)
    ultimately have next_fetch: "fetch (Some (f ?r)) = next_page limit f (take (nat (limit + 1)) ?rest)"
      using later by simp
    have "S = (pre @ take (nat limit) rest) @ ?rest" using Suc.prems(1) by simp
    moreover have "length ?rest < n" using Suc.prems(3) False limit by simp
    ultimately obtain pages where "all_pages n fetch (Some (f ?r)) = Inr pages" "concat pages = ?rest"
      "\<forall>p \<in> set pages. int (length p) \<le> limit"
      using Suc.IH [OF _ next_fetch] by blast
    moreover have "fetch c = Inr (take (nat limit) rest, Some (f ?r))"
      using Suc.prems(2) False limit by (simp add: next_page_take)
    moreover have "int (length (take (nat limit) rest)) \<le> limit" using limit by simp
    ultimately show ?thesis by auto
  qed
qed simp

lemma sorted_distinct_keys:
  assumes "distinct (map key rows)"
  shows "sorted_wrt (\<lambda>a b. key a < (key b :: int)) (sort_key key rows)"
proof -
  have "sorted (map key (sort_key key rows))" by simp
  moreover have "distinct (map key (sort_key key rows))"
  proof -
    have "mset (map key (sort_key key rows)) = mset (map key rows)" by simp
    with assms show ?thesis by (metis mset_eq_imp_distinct_iff)
  qed
  ultimately have "sorted_wrt (<) (map key (sort_key key rows))" by (rule strict_sorted_iff [THEN iffD2, OF conjI])
  then show ?thesis by (simp add: sorted_wrt_map)
qed

lemma try_bind_sql_limit: "1 \<le> limit \<Longrightarrow> try_bind (sql_limit (limit + 1) rows) k = k (take (nat (limit + 1)) rows)"
  by (simp add: sql_limit_def)

lemma after_encoded:
  "after_cursor drv key read_value (Some (encode_cursor key v)) =
    try_bind (read_value (cursor_json v)) (\<lambda>n. Inr (Some n))"
proof -
  have "encode_cursor key v \<noteq> ''''"
  proof
    assume "encode_cursor key v = ''''"
    then have "b64_decode '''' = Some (''{'' @ json_quote key @ '': '' @ json_dump v @ ''}'')"
      using b64_decode_encode unfolding encode_cursor_def by metis
    then show False by (simp add: b64_decode_def)
  qed
  then show ?thesis by (simp add: after_cursor_def decode_encode_cursor dict_item_def)
qed

lemma sort_filter_and:
  "sort_key key (filter (\<lambda>c. P c \<and> Q c) rows) = filter Q (sort_key key (filter P rows))"
  by (simp add: filter_sort)

abbreviation chunks_of :: "uuid \<Rightarrow> uuid \<Rightarrow> database \<Rightarrow> chunk_row list" where
  "chunks_of document_id tenant_id db \<equiv>
     filter (\<lambda>c. c_document_id c = document_id \<and> c_tenant_id c = tenant_id) (chunks db)"

text \<open>
  Claim C17 (equivalence): following the cursors of \<open>list_chunks\<close> lists the document.  When the
  chunks of a document carry different indexes (in the range of their column), then for every
  page size of at least 1 the pages end, none is longer than the page size, and together they are
  the chunks of the document in this tenant in the order of their indexes, each exactly once.
\<close>

theorem list_chunks_pages:
  assumes "1 \<le> limit" and "distinct (map c_chunk_index (chunks_of did t db))"
    and "\<forall>c \<in> set (chunks_of did t db). c_chunk_index c < 2 ^ 31"
  shows "\<exists>pages. all_pages (Suc (length (chunks_of did t db))) (\<lambda>cursor. list_chunks drv did t db cursor limit) None = Inr pages \<and>
    concat pages = sort_key (\<lambda>c. int (c_chunk_index c)) (chunks_of did t db) \<and>
    (\<forall>p \<in> set pages. int (length p) \<le> limit)"
proof -
  let ?key = "\<lambda>c. int (c_chunk_index c)"
  let ?S = "sort_key ?key (chunks_of did t db)"
  let ?fetch = "\<lambda>cursor. list_chunks drv did t db cursor limit"
  have "distinct (map ?key (chunks_of did t db))"
    using assms(2) by (simp add: distinct_map inj_on_def)
  then have sorted: "sorted_wrt (\<lambda>a b. ?key a < ?key b) ?S" by (rule sorted_distinct_keys)
  have first: "?fetch None = next_page limit chunk_cursor (take (nat (limit + 1)) ?S)"
    using assms(1) by (simp add: list_chunks_def after_cursor_def try_bind_sql_limit order_by_asc_def)
  have later: "?fetch (Some (chunk_cursor r)) =
      next_page limit chunk_cursor (take (nat (limit + 1)) (filter (\<lambda>s. ?key r < ?key s) ?S))" if "r \<in> set ?S" for r
  proof -
    have "int (c_chunk_index r) < 2 ^ 31" using that assms(3) by auto
    then have "bind_int4 (int (c_chunk_index r)) = Inr (int (c_chunk_index r))" by (simp add: bind_int4_def)
    then have "after_cursor drv ''chunk_index'' (\<lambda>v. try_bind (json_int v) bind_int4) (Some (chunk_cursor r)) =
        Inr (Some (int (c_chunk_index r)))"
      unfolding chunk_cursor_def after_encoded by simp
    then show ?thesis
      using assms(1) sort_filter_and [of ?key "\<lambda>c. c_document_id c = did \<and> c_tenant_id c = t" "\<lambda>s. ?key r < ?key s" "chunks db"]
      by (simp add: list_chunks_def try_bind_sql_limit order_by_asc_def)
  qed
  show ?thesis
    using all_pages_suffix [of limit ?key ?S ?fetch chunk_cursor "[]" ?S None "Suc (length (chunks_of did t db))",
      OF assms(1) sorted later _ first] by simp
qed

abbreviation indexed_chunk :: "nat \<Rightarrow> nat \<Rightarrow> chunk_row" where
  "indexed_chunk n i \<equiv> \<lparr>c_id = n, c_document_id = 10, c_user_id = 3, c_tenant_id = 2, c_content = ''text'',
     c_page_number = None, c_chunk_index = i, c_embedding = [], c_created_at = 0\<rparr>"

abbreviation listing_db :: "chunk_row list \<Rightarrow> document list \<Rightarrow> database" where
  "listing_db cs ds \<equiv> \<lparr>users = [], api_keys = [], refresh_tokens = [], organizations = [], memberships = [],
     invites = [], documents = ds, chunks = cs, jobs = []\<rparr>"

abbreviation sample_driver :: driver where
  "sample_driver \<equiv> \<lparr>non_ascii = (\<lambda>_. None), bind_timestamp = (\<lambda>_. Inl DataError), isoformat = (\<lambda>_. ''2026-01-01'')\<rparr>"

theorem list_chunks_pages_witness:
  "\<exists>pages. all_pages 4 (\<lambda>cursor. list_chunks sample_driver 10 2
        (listing_db [indexed_chunk 7 5, indexed_chunk 8 4, indexed_chunk 9 6] []) cursor 2) None = Inr pages \<and>
     concat pages = [indexed_chunk 8 4, indexed_chunk 7 5, indexed_chunk 9 6]"
proof -
  let ?db = "listing_db [indexed_chunk 7 5, indexed_chunk 8 4, indexed_chunk 9 6] []"
  have len: "Suc (length (chunks_of 10 2 ?db)) = 4" by simp
  have sorted: "sort_key (\<lambda>c. int (c_chunk_index c)) (chunks_of 10 2 ?db) = [indexed_chunk 8 4, indexed_chunk 7 5, indexed_chunk 9 6]"
    by simp
  have "\<exists>pages. all_pages (Suc (length (chunks_of 10 2 ?db))) (\<lambda>cursor. list_chunks sample_driver 10 2 ?db cursor 2) None = Inr pages \<and>
    concat pages = sort_key (\<lambda>c. int (c_chunk_index c)) (chunks_of 10 2 ?db) \<and> (\<forall>p \<in> set pages. int (length p) \<le> 2)"
    by (rule list_chunks_pages) simp_all
  then show ?thesis unfolding len sorted by (elim exE conjE) (intro exI conjI)
qed

text \<open>
  Chunks with equal indexes can be skipped.  When the last chunk of a page and
  the next one carry the same index, the page that follows starts after both, so that the second
  one is listed on no page.
\<close>

theorem list_chunks_skips_ties:
  assumes "chunks_of did t db = [a, b]" and "c_chunk_index a = c_chunk_index b" and "c_chunk_index a < 2 ^ 31"
  shows "all_pages 2 (\<lambda>cursor. list_chunks drv did t db cursor 1) None = Inr [[a], []]"
proof -
  let ?key = "\<lambda>c. int (c_chunk_index c)"
  have first: "list_chunks drv did t db None 1 = Inr ([a], Some (chunk_cursor a))"
    using assms(1,2) by (simp add: list_chunks_def after_cursor_def sql_limit_def order_by_asc_def next_page_def
        slice_to_def py_index_def)
  have "filter (\<lambda>s. ?key a < ?key s) [a, b] = []" using assms(2) by simp
  then have none: "filter (\<lambda>c. (c_document_id c = did \<and> c_tenant_id c = t) \<and> ?key a < ?key c) (chunks db) = []"
    by (simp only: filter_conj_sub [of "\<lambda>c. c_document_id c = did \<and> c_tenant_id c = t"] assms(1))
  have "bind_int4 (int (c_chunk_index a)) = Inr (int (c_chunk_index a))" using assms(3) by (simp add: bind_int4_def)
  then have "after_cursor drv ''chunk_index'' (\<lambda>v. try_bind (json_int v) bind_int4) (Some (chunk_cursor a)) =
      Inr (Some (int (c_chunk_index a)))"
    unfolding chunk_cursor_def after_encoded by simp
  then have "list_chunks drv did t db (Some (chunk_cursor a)) 1 = Inr ([], None)"
    using none by (simp add: list_chunks_def sql_limit_def order_by_asc_def next_page_def)
  with first show ?thesis by (simp add: numeral_2_eq_2)
qed

theorem list_chunks_skips_ties_witness:
  "all_pages 2 (\<lambda>cursor. list_chunks sample_driver 10 2 (listing_db [indexed_chunk 7 5, indexed_chunk 8 5] []) cursor 1) None =
     Inr [[indexed_chunk 7 5], []]"
  using list_chunks_skips_ties [where did = 10 and t = 2 and db = "listing_db [indexed_chunk 7 5, indexed_chunk 8 5] []"
      and a = "indexed_chunk 7 5" and b = "indexed_chunk 8 5" and drv = sample_driver] by simp

text \<open>
  The second page of documents fails when the driver wants timestamps.  The
  cursor carries the time as text; if the database driver refuses a text for a timestamp column,
  as asyncpg does, then whenever the first page returns a cursor, asking for the next page with it
  raises the driver's error, and the client gets status 500.
\<close>

theorem list_documents_second_page_fails:
  assumes "list_documents drv tenant_id db None limit = Inr (page, Some cursor)"
    and "\<forall>s. bind_timestamp drv (JStr s) = Inl DataError"
  shows "list_documents drv tenant_id db (Some cursor) limit = Inl DataError \<and> resp_status (handle_exn DataError) = 500"
proof -
  let ?rows = "order_by_desc d_created_at (filter (\<lambda>d. d_tenant_id d = tenant_id \<and> d_deleted_at d = None) (documents db))"
  let ?f = "\<lambda>d. encode_cursor ''created_at'' (CursorStr (isoformat drv (d_created_at d)))"
  from assms(1) have "try_bind (sql_limit (limit + 1) ?rows) (next_page limit ?f) = Inr (page, Some cursor)"
    by (simp add: list_documents_def after_cursor_def)
  then obtain rows where "next_page limit ?f rows = Inr (page, Some cursor)" by (auto dest: try_bind_InrD)
  then have "\<exists>d :: document. cursor = ?f d"
    by (auto simp: next_page_def Let_def split: if_splits dest!: try_bind_InrD)
  then obtain d :: document where "cursor = ?f d" ..
  then have "after_cursor drv ''created_at'' (bind_timestamp drv) (Some cursor) = Inl DataError"
    using assms(2) by (simp add: after_encoded)
  then show ?thesis by (simp add: list_documents_def)
qed

abbreviation listed_document :: "nat \<Rightarrow> timestamp \<Rightarrow> document" where
  "listed_document n created \<equiv> \<lparr>d_id = n, d_user_id = 3, d_tenant_id = 2, d_filename = ''f'', d_content_hash = ''h'',
     d_size_bytes = 0, d_mime_type = None, d_storage_key = None, d_status = DocReady, d_chunk_count = 0,
     d_error_message = None, d_created_at = created, d_updated_at = created, d_deleted_at = None\<rparr>"

theorem list_documents_second_page_fails_witness:
  "list_documents sample_driver 2 (listing_db [] [listed_document 5 1, listed_document 6 2])
     (Some (encode_cursor ''created_at'' (CursorStr ''2026-01-01''))) 1 = Inl DataError"
proof -
  have "list_documents sample_driver 2 (listing_db [] [listed_document 5 1, listed_document 6 2]) None 1 =
      Inr ([listed_document 6 2], Some (encode_cursor ''created_at'' (CursorStr ''2026-01-01'')))"
    by (simp add: list_documents_def after_cursor_def sql_limit_def order_by_desc_def next_page_def slice_to_def py_index_def)
  from list_documents_second_page_fails [OF this] show ?thesis by simp
qed

text \<open>
  A limit of zero or less is a server error.  The routes bound the limit from
  above only; asking for the chunks of a document that has some with a limit below 1 raises an
  exception that is not an application error, so that the client gets status 500 instead of a
  validation error.
\<close>

theorem list_limit_not_positive:
  assumes "limit \<le> 0" and "chunks_of did t db \<noteq> []"
  shows "\<exists>e. list_chunks drv did t db None limit = Inl e \<and> resp_status (handle_exn e) = 500"
proof -
  let ?rows = "sort_key (\<lambda>c. int (c_chunk_index c)) (chunks_of did t db)"
  have rows: "?rows \<noteq> []" using assms(2) by (metis length_0_conv length_sort)
  have run: "list_chunks drv did t db None limit = try_bind (sql_limit (limit + 1) ?rows) (next_page limit chunk_cursor)"
    by (simp add: list_chunks_def after_cursor_def order_by_asc_def)
  consider "limit = 0" | "limit = -1" | "limit < -1" using assms(1) by linarith
  then show ?thesis
  proof cases
    case 1
    with rows have "list_chunks drv did t db None limit = Inl IndexError"
      unfolding run by (cases ?rows) (simp_all add: sql_limit_def next_page_def slice_to_def py_index_def)
    then show ?thesis by simp
  next
    case 2
    then have "list_chunks drv did t db None limit = Inl IndexError"
      unfolding run by (simp add: sql_limit_def next_page_def slice_to_def py_index_def)
    then show ?thesis by simp
  next
    case 3
    then have "list_chunks drv did t db None limit = Inl (OtherError ''DBAPIError'')"
      unfolding run by (simp add: sql_limit_def)
    then show ?thesis by (simp add: handle_exn_def handle_unexpected_error_def)
  qed
qed

theorem list_limit_not_positive_witness:
  "\<exists>e. list_chunks sample_driver 10 2 (listing_db [indexed_chunk 7 5] []) None 0 = Inl e \<and> resp_status (handle_exn e) = 500"
  using list_limit_not_positive [of 0 10 2 "listing_db [indexed_chunk 7 5] []" sample_driver] by simp

end
