(* ===== verification/Documents.thy ===== *)
theory Documents
  imports JobService
begin

section \<open>Documents: upload, look-up, deletion\<close>

text \<open>
  \<open>src/documents/service.py\<close> over the object store of \<open>src/documents/storage.py\<close>.  The
  state is the database and the bucket, a map from keys to contents; the bucket takes no part in
  database rollbacks.  Parameters of an upload: \<open>sha256\<close>, the new ids, the database's clock,
  the errors of the object store, and \<open>others\<close>, what other transactions commit between the
  duplicate checks and the insert.
\<close>

type_synonym bucket = "string \<Rightarrow> bytes option"

record upload_request =
  up_filename :: string
  up_content :: bytes
  up_mime_type :: "string option"
  up_idempotency_key :: string
  up_user_id :: uuid
  up_tenant_id :: uuid

record upload_env =
  sha256 :: "bytes \<Rightarrow> string"
  new_document_id :: uuid
  new_job_id :: uuid
  insert_now :: timestamp
  put_error :: "string option"
  delete_error :: "string option"
  others :: "database \<Rightarrow> database"

definition storage_upload :: "string option \<Rightarrow> string \<Rightarrow> bytes \<Rightarrow> bucket \<Rightarrow> (exn, unit) outcome \<times> bucket" where
  "storage_upload client_error key contents bkt =
     (case client_error of
        Some m \<Rightarrow> (Inl (App (ExternalServiceError ''MinIO'' m)), bkt)
      | None \<Rightarrow> (Inr (), bkt(key \<mapsto> contents)))"

definition storage_delete :: "string option \<Rightarrow> string \<Rightarrow> bucket \<Rightarrow> (exn, unit) outcome \<times> bucket" where
  "storage_delete client_error key bkt =
     (case client_error of
        Some m \<Rightarrow> (Inl (App (ExternalServiceError ''MinIO'' m)), bkt)
      | None \<Rightarrow> (Inr (), bkt(key := None)))"

definition get_document_row :: "uuid \<Rightarrow> database \<Rightarrow> document option" where
  "get_document_row did db = scalars_first (filter (\<lambda>d. d_id d = did) (documents db))"

text \<open>The job of an idempotency key, with its document.\<close>

definition by_idempotency_key ::
  "string \<Rightarrow> uuid \<Rightarrow> database \<Rightarrow> (exn, (document \<times> job) option) outcome" where
  "by_idempotency_key idempotency_key tenant_id db =
     try_bind (scalar_one_or_none (filter (\<lambda>j. (j_tenant_id j, j_idempotency_key j) =
                 (tenant_id, idempotency_key)) (jobs db))) (\<lambda>found.
       case found of
         None \<Rightarrow> Inr None
       | Some j \<Rightarrow> Inr (map_option (\<lambda>d. (d, j)) (get_document_row (j_document_id j) db)))"

text \<open>The live document of a content hash, with its latest job.\<close>

definition by_content_hash ::
  "string \<Rightarrow> uuid \<Rightarrow> database \<Rightarrow> (exn, (document \<times> job) option) outcome" where
  "by_content_hash content_hash tenant_id db =
     try_bind (scalar_one_or_none (filter (\<lambda>d. (d_tenant_id d, d_content_hash d) =
                 (tenant_id, content_hash) \<and> d_deleted_at d = None) (documents db))) (\<lambda>found.
       case found of
         None \<Rightarrow> Inr None
       | Some d \<Rightarrow> Inr (map_option (\<lambda>j. (d, j))
           (scalars_first (order_by_desc j_created_at
             (filter (\<lambda>j. j_document_id j = d_id d \<and> j_tenant_id j = tenant_id) (jobs db))))))"

text \<open>
  \<open>_find_existing_upload\<close>; the checks at the start of \<open>upload_document\<close> are the same two.
\<close>

definition find_existing_upload ::
  "string \<Rightarrow> string \<Rightarrow> uuid \<Rightarrow> database \<Rightarrow> (exn, (document \<times> job) option) outcome" where
  "find_existing_upload content_hash idempotency_key tenant_id db =
     try_bind (by_idempotency_key idempotency_key tenant_id db) (\<lambda>found.
       case found of
         Some r \<Rightarrow> Inr (Some r)
       | None \<Rightarrow> by_content_hash content_hash tenant_id db)"

definition upload_key :: "uuid \<Rightarrow> uuid \<Rightarrow> string \<Rightarrow> string" where
  "upload_key tenant_id doc_id filename = uuid_str tenant_id @ ''/'' @ uuid_str doc_id @ ''/'' @ filename"

definition uploaded_document :: "upload_env \<Rightarrow> upload_request \<Rightarrow> document" where
  "uploaded_document env req =
     \<lparr>d_id = new_document_id env, d_user_id = up_user_id req, d_tenant_id = up_tenant_id req,
      d_filename = up_filename req, d_content_hash = sha256 env (up_content req),
      d_size_bytes = length (up_content req), d_mime_type = up_mime_type req,
      d_storage_key = Some (upload_key (up_tenant_id req) (new_document_id env) (up_filename req)),
      d_status = DocPending, d_chunk_count = 0, d_error_message = None,
      d_created_at = insert_now env, d_updated_at = insert_now env, d_deleted_at = None\<rparr>"

definition uploaded_job :: "upload_env \<Rightarrow> upload_request \<Rightarrow> job" where
  "uploaded_job env req =
     \<lparr>j_id = new_job_id env, j_document_id = new_document_id env, j_user_id = up_user_id req,
      j_tenant_id = up_tenant_id req, j_status = JobQueued,
      j_idempotency_key = up_idempotency_key req, j_worker_id = None, j_attempt_count = 0,
      j_max_attempts = 3, j_version = 1, j_error_message = None, j_claimed_at = None,
      j_started_at = None, j_completed_at = None, j_created_at = insert_now env\<rparr>"

text \<open>The insert in a savepoint: the document first, then the job that refers to it.\<close>

definition insert_upload :: "upload_env \<Rightarrow> upload_request \<Rightarrow> database \<Rightarrow> (exn, database) outcome" where
  "insert_upload env req db =
     try_bind (insert_document (uploaded_document env req) db) (insert_job (uploaded_job env req))"

definition upload_document ::
  "upload_env \<Rightarrow> upload_request \<Rightarrow> database \<Rightarrow> bucket \<Rightarrow>
     (exn, document \<times> job) outcome \<times> database \<times> bucket" where
  "upload_document env req db bkt =
     (let content_hash = sha256 env (up_content req);
          storage_key = upload_key (up_tenant_id req) (new_document_id env) (up_filename req)
      in case find_existing_upload content_hash (up_idempotency_key req) (up_tenant_id req) db of
           Inl e \<Rightarrow> (Inl e, db, bkt)
         | Inr (Some existing) \<Rightarrow> (Inr existing, db, bkt)
         | Inr None \<Rightarrow>
             (case storage_upload (put_error env) storage_key (up_content req) bkt of
                (Inl e, bkt1) \<Rightarrow> (Inl e, db, bkt1)
              | (Inr _, bkt1) \<Rightarrow>
                  let db1 = others env db
                  in (case insert_upload env req db1 of
                        Inr db2 \<Rightarrow> (Inr (uploaded_document env req, uploaded_job env req), db2, bkt1)
                      | Inl IntegrityError \<Rightarrow>
                          let (_, bkt2) = storage_delete (delete_error env) storage_key bkt1
                          in (case find_existing_upload content_hash (up_idempotency_key req)
                                     (up_tenant_id req) db1 of
                                Inl e \<Rightarrow> (Inl e, db1, bkt2)
                              | Inr None \<Rightarrow> (Inl (App (ConflictError
                                  ''Upload conflicted with another request. Retry the upload.'')), db1, bkt2)
                              | Inr (Some existing) \<Rightarrow> (Inr existing, db1, bkt2))
                      | Inl e \<Rightarrow> (Inl e, db1, bkt1))))"

definition get_document :: "uuid \<Rightarrow> uuid \<Rightarrow> database \<Rightarrow> (exn, document) outcome" where
  "get_document document_id tenant_id db =
     try_bind (scalar_one_or_none (filter (\<lambda>d. d_id d = document_id \<and>
                 (d_tenant_id d = tenant_id \<and> d_deleted_at d = None)) (documents db))) (\<lambda>found.
       case found of
         None \<Rightarrow> Inl (App (NotFoundError ''Document'' (uuid_str document_id)))
       | Some d \<Rightarrow> Inr d)"

definition soft_delete_document ::
  "timestamp \<Rightarrow> string option \<Rightarrow> uuid \<Rightarrow> uuid \<Rightarrow> database \<Rightarrow> bucket \<Rightarrow>
     (exn, unit) outcome \<times> database \<times> bucket" where
  "soft_delete_document now client_error document_id tenant_id db bkt =
     (case get_document document_id tenant_id db of
        Inl e \<Rightarrow> (Inl e, db, bkt)
      | Inr doc \<Rightarrow>
          let db1 = db \<lparr>documents := update_where (\<lambda>d. d_id d = document_id)
                  (\<lambda>d. d \<lparr>d_deleted_at := Some now, d_status := DocFailed, d_updated_at := now\<rparr>)
                  (documents db)\<rparr>;
              bkt1 = (case d_storage_key doc of
                  None \<Rightarrow> bkt
                | Some key \<Rightarrow> if key \<noteq> '''' then snd (storage_delete client_error key bkt) else bkt)
          in (Inr (), db1, bkt1))"

subsection \<open>The duplicate checks\<close>

definition documents_wf :: "database \<Rightarrow> bool" where
  "documents_wf db \<longleftrightarrow>
     document_ids.keyed db \<and> document_hashes.keyed db \<and> job_ids.keyed db \<and> job_keys.keyed db"

lemma documents_wfD:
  "documents_wf db \<Longrightarrow> document_ids.keyed db" "documents_wf db \<Longrightarrow> document_hashes.keyed db"
  "documents_wf db \<Longrightarrow> job_ids.keyed db" "documents_wf db \<Longrightarrow> job_keys.keyed db"
  by (simp_all add: documents_wf_def)

lemma by_idempotency_key_returns:
  "documents_wf db \<Longrightarrow> \<exists>r. by_idempotency_key k t db = Inr r"
  unfolding by_idempotency_key_def
  by (subst job_keys.lookup_key_never_raises) (auto dest: documents_wfD split: option.splits)

lemma by_content_hash_returns:
  "documents_wf db \<Longrightarrow> \<exists>r. by_content_hash h t db = Inr r"
  unfolding by_content_hash_def
  by (subst document_hashes.lookup_never_raises) (auto dest: documents_wfD split: option.splits)

lemma find_existing_upload_returns:
  "documents_wf db \<Longrightarrow> \<exists>r. find_existing_upload h k t db = Inr r"
  using by_idempotency_key_returns [of db k t] by_content_hash_returns [of db h t]
  by (auto simp: find_existing_upload_def split: option.splits)

lemma insert_upload_Inr:
  assumes "insert_upload env req db = Inr db'"
  shows "documents db' = documents db @ [uploaded_document env req]"
    and "jobs db' = jobs db @ [uploaded_job env req]"
proof -
  from assms obtain db1 where 1: "insert_document (uploaded_document env req) db = Inr db1"
    and 2: "insert_job (uploaded_job env req) db1 = Inr db'"
    unfolding insert_upload_def by (auto dest: try_bind_InrD)
  show "documents db' = documents db @ [uploaded_document env req]"
    using document_ids.ins_appends [OF 1] 2 by (auto simp: insert_job_def)
  show "jobs db' = jobs db @ [uploaded_job env req]"
    using job_ids.ins_appends [OF 2] 1 by (auto simp: insert_document_def)
qed

lemma insert_upload_wf:
  assumes "documents_wf db" and "insert_upload env req db = Inr db'"
  shows "documents_wf db'"
proof -
  from assms(2) obtain db1 where 1: "insert_document (uploaded_document env req) db = Inr db1"
    and 2: "insert_job (uploaded_job env req) db1 = Inr db'"
    unfolding insert_upload_def by (auto dest: try_bind_InrD)
  have js: "jobs db1 = jobs db" using 1 by (auto simp: insert_document_def)
  have ds: "documents db' = documents db1" using 2 by (auto simp: insert_job_def)
  note wf = documents_wfD [OF assms(1)]
  show ?thesis
    unfolding documents_wf_def
    using document_ids.same_keyed [OF document_ids.ins_keyed [OF wf(1) 1] ds]
      document_hashes.same_keyed [OF document_hashes.ins_keyed [OF wf(2) 1] ds]
      job_ids.ins_keyed [OF job_ids.same_keyed [OF wf(3) js] 2]
      job_keys.ins_keyed [OF job_keys.same_keyed [OF wf(4) js] 2] by blast
qed

lemma found_after_insert:
  assumes "documents_wf db" and "insert_upload env req db = Inr db'"
  shows "find_existing_upload h (up_idempotency_key req) (up_tenant_id req) db' =
    Inr (Some (uploaded_document env req, uploaded_job env req))"
proof -
  note wf = documents_wfD [OF insert_upload_wf [OF assms]]
  note rows = insert_upload_Inr [OF assms(2)]
  have "scalar_one_or_none (filter (\<lambda>j. (j_tenant_id j, j_idempotency_key j) =
      (up_tenant_id req, up_idempotency_key req)) (jobs db')) = Inr (Some (uploaded_job env req))"
    using job_keys.lookup [OF wf(4), of "uploaded_job env req"] by (simp add: rows uploaded_job_def)
  moreover have "filter (\<lambda>d. d_id d = new_document_id env) (documents db') = [uploaded_document env req]"
    using document_ids.lookup [OF wf(1), of "uploaded_document env req"]
    by (simp add: rows uploaded_document_def scalar_one_or_none_Some)
  ultimately show ?thesis
    by (simp add: find_existing_upload_def by_idempotency_key_def get_document_row_def uploaded_job_def)
qed

text \<open>The ways in which an upload returns.\<close>

lemma upload_document_cases:
  assumes "upload_document env req db bkt = (Inr r, db', bkt')"
  obtains (existing) "find_existing_upload (sha256 env (up_content req)) (up_idempotency_key req)
      (up_tenant_id req) db = Inr (Some r)" "db' = db" "bkt' = bkt"
  | (created) "find_existing_upload (sha256 env (up_content req)) (up_idempotency_key req)
      (up_tenant_id req) db = Inr None" "insert_upload env req (others env db) = Inr db'"
      "r = (uploaded_document env req, uploaded_job env req)"
      "bkt' = bkt(upload_key (up_tenant_id req) (new_document_id env) (up_filename req) \<mapsto> up_content req)"
  | (lost_race) "find_existing_upload (sha256 env (up_content req)) (up_idempotency_key req)
      (up_tenant_id req) (others env db) = Inr (Some r)" "db' = others env db"
proof (cases "find_existing_upload (sha256 env (up_content req)) (up_idempotency_key req) (up_tenant_id req) db")
  case (Inl e)
  with assms show ?thesis by (simp add: upload_document_def)
next
  case (Inr found)
  show ?thesis
  proof (cases found)
    case (Some x)
    with assms Inr show ?thesis by (intro existing) (simp_all add: upload_document_def)
  next
    case None
    show ?thesis
    proof (cases "put_error env")
      case (Some m)
      with assms Inr None show ?thesis by (simp add: upload_document_def storage_upload_def)
    next
      case no_error: None
      note run = assms [unfolded upload_document_def Let_def storage_upload_def]
      show ?thesis
      proof (cases "insert_upload env req (others env db)")
        case (Inr db2)
        with run \<open>find_existing_upload _ _ _ _ = Inr found\<close> None no_error show ?thesis
          by (intro created) simp_all
      next
        case (Inl e)
        with run \<open>find_existing_upload _ _ _ _ = Inr found\<close> None no_error show ?thesis
          by (intro lost_race; cases e) (auto split: sum.splits option.splits prod.splits)
      qed
    qed
  qed
qed

subsection \<open>Uploading\<close>

text \<open>
  Claim C30 (functional): uploads can be retried.  When an upload returns a document and a job,
  the same request made again returns the same document and the same job and changes neither the
  database nor the bucket, whatever the object store or other transactions would do: even when
  the first call found an existing document or lost a race.
\<close>

theorem upload_retry_idempotent:
  assumes "documents_wf (others env db)"
    and "upload_document env req db bkt = (Inr r, db', bkt')" and "sha256 env' = sha256 env"
  shows "upload_document env' req db' bkt' = (Inr r, db', bkt')"
proof -
  have "find_existing_upload (sha256 env (up_content req)) (up_idempotency_key req) (up_tenant_id req) db' =
      Inr (Some r)"
    using assms(2)
  proof (cases rule: upload_document_cases)
    case created
    with found_after_insert [OF assms(1) created(2)] show ?thesis by simp
  qed simp_all
  with assms(3) show ?thesis by (simp add: upload_document_def)
qed

abbreviation sample_request :: "string \<Rightarrow> upload_request" where
  "sample_request key \<equiv>
     \<lparr>up_filename = ''f.txt'', up_content = ''Hi.'', up_mime_type = Some ''text/plain'',
      up_idempotency_key = key, up_user_id = 1, up_tenant_id = 2\<rparr>"

abbreviation sample_upload_env :: upload_env where
  "sample_upload_env \<equiv>
     \<lparr>sha256 = (\<lambda>c. replicate 64 (hd c)), new_document_id = 50, new_job_id = 60, insert_now = 7,
      put_error = None, delete_error = None, others = id\<rparr>"

lemma sample_upload:
  "\<exists>db' bkt'. upload_document sample_upload_env (sample_request ''k1'') (sample_db [] []) (\<lambda>_. None) =
     (Inr (uploaded_document sample_upload_env (sample_request ''k1''),
           uploaded_job sample_upload_env (sample_request ''k1'')), db', bkt')"
proof -
  have "\<exists>db'. insert_upload sample_upload_env (sample_request ''k1'') (sample_db [] []) = Inr db'"
    by (simp add: insert_upload_def insert_document_def insert_job_def uploaded_document_def
        uploaded_job_def fits_def fits_opt_def upload_key_def length_uuid_str uuid_str_nonzero
        checked_insert_def)
  then show ?thesis
    by (auto simp: upload_document_def find_existing_upload_def by_idempotency_key_def
        by_content_hash_def storage_upload_def)
qed

theorem upload_retry_idempotent_witness:
  "(let env = sample_upload_env; req = sample_request ''k1'' in
    \<exists>db' bkt'. upload_document (env \<lparr>new_document_id := 51, new_job_id := 61\<rparr>) req db' bkt' =
      (Inr (uploaded_document env req, uploaded_job env req), db', bkt'))"
proof -
  obtain db' bkt' where first: "upload_document sample_upload_env (sample_request ''k1'') (sample_db [] []) (\<lambda>_. None) =
     (Inr (uploaded_document sample_upload_env (sample_request ''k1''),
           uploaded_job sample_upload_env (sample_request ''k1'')), db', bkt')"
    using sample_upload by blast
  have "upload_document (sample_upload_env \<lparr>new_document_id := 51, new_job_id := 61\<rparr>)
      (sample_request ''k1'') db' bkt' =
     (Inr (uploaded_document sample_upload_env (sample_request ''k1''),
           uploaded_job sample_upload_env (sample_request ''k1'')), db', bkt')"
    by (rule upload_retry_idempotent [OF _ first])
      (simp_all add: documents_wf_def document_ids.keyed_def document_hashes.keyed_def
        job_ids.keyed_def job_keys.keyed_def)
  then show ?thesis unfolding Let_def by blast
qed

subsection \<open>Concurrent uploads\<close>

definition request_fits :: "upload_env \<Rightarrow> upload_request \<Rightarrow> bool" where
  "request_fits env req \<longleftrightarrow> length (up_filename req) \<le> 426 \<and> storable_text (up_filename req) \<and>
     fits 64 (sha256 env (up_content req)) \<and> fits_opt 100 (up_mime_type req) \<and>
     fits 255 (up_idempotency_key req)"

lemma fits_upload_key: "fits 500 (upload_key t d f) \<longleftrightarrow> length f \<le> 426 \<and> storable_text f"
  by (auto simp: fits_def upload_key_def length_uuid_str uuid_str_nonzero storable_text_def)

lemma insert_document_columns:
  assumes "request_fits env req"
  shows "(\<exists>db1. insert_document (uploaded_document env req) db = Inr db1) \<or>
    insert_document (uploaded_document env req) db = Inl IntegrityError"
  using assms fits_upload_key [of "up_tenant_id req" "new_document_id env" "up_filename req"]
  by (auto simp: insert_document_def checked_insert_def uploaded_document_def request_fits_def
      fits_def fits_opt_def storable_text_def)

lemma insert_upload_conflict:
  assumes "request_fits env req"
    and found: "find_existing_upload (sha256 env (up_content req)) (up_idempotency_key req) (up_tenant_id req) db =
      Inr (Some r)"
  shows "insert_upload env req db = Inl IntegrityError"
proof -
  show ?thesis
  proof (cases "insert_document (uploaded_document env req) db")
    case (Inl e)
    with insert_document_columns [OF assms(1), of db] have "e = IntegrityError" by auto
    with Inl show ?thesis by (simp add: insert_upload_def)
  next
    case (Inr db1)
    then have no_hash: "(up_tenant_id req, sha256 env (up_content req)) \<notin>
        (\<lambda>d. (d_tenant_id d, d_content_hash d)) ` set (documents db)"
      using document_hashes.ins_new_key [OF Inr] by (simp add: uploaded_document_def)
    have "jobs db1 = jobs db" using Inr by (auto simp: insert_document_def)
    moreover have "(up_tenant_id req, up_idempotency_key req) \<in>
        (\<lambda>j. (j_tenant_id j, j_idempotency_key j)) ` set (jobs db)"
    proof (rule ccontr)
      assume "\<not> ?thesis"
      then have "by_idempotency_key (up_idempotency_key req) (up_tenant_id req) db = Inr None"
        by (subst by_idempotency_key_def, subst filter_False) (auto simp: image_iff)
      with found have "by_content_hash (sha256 env (up_content req)) (up_tenant_id req) db = Inr (Some r)"
        by (simp add: find_existing_upload_def)
      with no_hash show False
        unfolding by_content_hash_def by (subst (asm) filter_False) (auto simp: image_iff)
    qed
    ultimately have "insert_job (uploaded_job env req) db1 = Inl IntegrityError"
      using assms(1) by (auto simp: insert_job_def checked_insert_def uploaded_job_def request_fits_def)
    with Inr show ?thesis by (simp add: insert_upload_def)
  qed
qed

text \<open>
  Losing a race.  When between the checks and the insert another transaction
  commits an upload with the same idempotency key or the same live content, an upload that passed
  its checks returns that winner's document and job, leaves the database as the others made it,
  and removes the object it had stored, unless the object store fails to.
\<close>

theorem upload_race_returns_winner:
  assumes "request_fits env req" and "put_error env = None"
    and "find_existing_upload (sha256 env (up_content req)) (up_idempotency_key req) (up_tenant_id req) db =
      Inr None"
    and "find_existing_upload (sha256 env (up_content req)) (up_idempotency_key req) (up_tenant_id req)
      (others env db) = Inr (Some winner)"
  shows "\<exists>bkt'. upload_document env req db bkt = (Inr winner, others env db, bkt') \<and>
    (delete_error env = None \<longrightarrow>
       bkt' (upload_key (up_tenant_id req) (new_document_id env) (up_filename req)) = None)"
  using assms insert_upload_conflict [OF assms(1,4)]
  by (cases "delete_error env") (simp_all add: upload_document_def Let_def storage_upload_def storage_delete_def)

lemma sample_request_fits: "request_fits sample_upload_env (sample_request ''k1'')"
  by (simp add: request_fits_def fits_def fits_opt_def storable_text_def)

abbreviation sample_winner :: "document \<times> job" where
  "sample_winner \<equiv> (uploaded_document (sample_upload_env \<lparr>new_document_id := 51, new_job_id := 61\<rparr>) (sample_request ''k2''),
     uploaded_job (sample_upload_env \<lparr>new_document_id := 51, new_job_id := 61\<rparr>) (sample_request ''k2''))"

text \<open>Another upload of the same file under another key commits first.\<close>

theorem upload_race_returns_winner_witness:
  "(let env = sample_upload_env \<lparr>others := \<lambda>db. db \<lparr>documents := [fst sample_winner], jobs := [snd sample_winner]\<rparr>\<rparr>;
        db = sample_db [] []
    in \<exists>bkt'. upload_document env (sample_request ''k1'') db (\<lambda>_. None) =
         (Inr sample_winner, others env db, bkt') \<and>
       (delete_error env = None \<longrightarrow> bkt' (upload_key 2 50 ''f.txt'') = None))"
  unfolding Let_def
  using upload_race_returns_winner [where req = "sample_request ''k1''" and db = "sample_db [] []"
      and bkt = "\<lambda>_. None" and winner = sample_winner
      and env = "sample_upload_env \<lparr>others := \<lambda>db. db \<lparr>documents := [fst sample_winner], jobs := [snd sample_winner]\<rparr>\<rparr>"]
    sample_request_fits
  by (simp add: request_fits_def find_existing_upload_def by_idempotency_key_def by_content_hash_def
      order_by_desc_def uploaded_document_def uploaded_job_def)

subsection \<open>Reuse of keys and of deleted content\<close>

text \<open>
  The idempotency key alone decides.  When the tenant has a job with the
  request's key, the upload returns that job and its document, changing nothing, whatever file
  the request carries: another file under a used key is neither stored nor refused.
\<close>

theorem upload_key_reuse_ignores_content:
  assumes "documents_wf db" and "j \<in> set (jobs db)" and "d \<in> set (documents db)"
    and "j_tenant_id j = up_tenant_id req" and "j_idempotency_key j = up_idempotency_key req"
    and "d_id d = j_document_id j"
  shows "upload_document env req db bkt = (Inr (d, j), db, bkt)"
proof -
  note wf = documents_wfD [OF assms(1)]
  have "scalar_one_or_none (filter (\<lambda>k. (j_tenant_id k, j_idempotency_key k) =
      (up_tenant_id req, up_idempotency_key req)) (jobs db)) = Inr (Some j)"
    using job_keys.lookup [OF wf(4) assms(2)] by (simp only: assms(4,5))
  moreover have "filter (\<lambda>k. d_id k = j_document_id j) (documents db) = [d]"
    using document_ids.lookup [OF wf(1) assms(3)] by (simp only: assms(6) scalar_one_or_none_Some)
  ultimately show ?thesis
    by (simp add: upload_document_def find_existing_upload_def by_idempotency_key_def get_document_row_def)
qed

theorem upload_key_reuse_ignores_content_witness:
  "upload_document sample_upload_env ((sample_request (replicate 8 CHR ''k'')) \<lparr>up_content := ''other''\<rparr>)
     (sample_db [sample_document 108] [sample_job 8 0 0]) (\<lambda>_. None) =
   (Inr (sample_document 108, sample_job 8 0 0), sample_db [sample_document 108] [sample_job 8 0 0], \<lambda>_. None)"
  by (rule upload_key_reuse_ignores_content)
    (simp_all add: documents_wf_def document_ids.keyed_def document_hashes.keyed_def job_ids.keyed_def
      job_keys.keyed_def)

text \<open>
  Deleted content cannot be uploaded again.  While a soft-deleted document of
  the tenant has the file's hash, an upload of that file under a fresh key, undisturbed by others,
  ends in a conflict (HTTP 409) and stores nothing in the database: the unique constraint counts
  deleted documents, the duplicate check does not.
\<close>

theorem upload_after_delete_conflicts:
  assumes "documents_wf db" and "request_fits env req" and "put_error env = None" and "others env db = db"
    and "d \<in> set (documents db)" and "d_tenant_id d = up_tenant_id req"
    and "d_content_hash d = sha256 env (up_content req)" and "d_deleted_at d \<noteq> None"
    and "(up_tenant_id req, up_idempotency_key req) \<notin> (\<lambda>j. (j_tenant_id j, j_idempotency_key j)) ` set (jobs db)"
  shows "\<exists>e bkt'. upload_document env req db bkt = (Inl (App e), db, bkt') \<and> error_status e = 409"
proof -
  have no_live: "filter (\<lambda>k. (d_tenant_id k, d_content_hash k) = (up_tenant_id req, sha256 env (up_content req)) \<and>
      d_deleted_at k = None) (documents db) = []"
    using document_hashes.unique [OF documents_wfD(2) [OF assms(1)] _ assms(5)] assms(6,7,8)
    by (auto simp: filter_empty_conv)
  have no_key: "filter (\<lambda>j. (j_tenant_id j, j_idempotency_key j) = (up_tenant_id req, up_idempotency_key req)) (jobs db) = []"
    using assms(9) by (auto simp: filter_empty_conv image_iff)
  have none: "find_existing_upload (sha256 env (up_content req)) (up_idempotency_key req) (up_tenant_id req) db = Inr None"
    unfolding find_existing_upload_def by_idempotency_key_def by_content_hash_def no_live no_key by simp
  have "(d_tenant_id (uploaded_document env req), d_content_hash (uploaded_document env req)) \<in>
      (\<lambda>d. (d_tenant_id d, d_content_hash d)) ` set (documents db)"
    using assms(5,6,7) by (intro image_eqI [of _ _ d]) (simp_all add: uploaded_document_def)
  then have "insert_document (uploaded_document env req) db = Inl IntegrityError"
    using insert_document_columns [OF assms(2), of db]
      document_hashes.ins_new_key [of "uploaded_document env req" db] by blast
  then have "insert_upload env req db = Inl IntegrityError" by (simp add: insert_upload_def)
  with none assms(3,4) show ?thesis
    by (cases "delete_error env")
      (simp_all add: upload_document_def Let_def storage_upload_def storage_delete_def)
qed

theorem upload_after_delete_conflicts_witness:
  "(let d = (fst sample_winner) \<lparr>d_deleted_at := Some 9\<rparr>; db = sample_db [d] [snd sample_winner]
    in \<exists>e bkt'. upload_document sample_upload_env (sample_request ''k1'') db (\<lambda>_. None) =
         (Inl (App e), db, bkt') \<and> error_status e = 409)"
  unfolding Let_def
  by (rule upload_after_delete_conflicts [where d = "(fst sample_winner) \<lparr>d_deleted_at := Some 9\<rparr>"])
    (simp_all add: request_fits_def fits_def fits_opt_def storable_text_def documents_wf_def
      document_ids.keyed_def document_hashes.keyed_def job_ids.keyed_def job_keys.keyed_def
      uploaded_document_def uploaded_job_def)

text \<open>
  A file name of more than 426 characters passes all checks of the program, but
  not the 500 characters of the storage-key column: the upload ends in the database's data error,
  which is no conflict, and the object it has stored stays in the bucket without a document.
\<close>

theorem upload_long_name_leaves_object:
  assumes "find_existing_upload (sha256 env (up_content req)) (up_idempotency_key req) (up_tenant_id req) db =
      Inr None"
    and "put_error env = None" and "426 < length (up_filename req)"
  shows "\<exists>bkt'. upload_document env req db bkt = (Inl DataError, others env db, bkt') \<and>
    bkt' (upload_key (up_tenant_id req) (new_document_id env) (up_filename req)) = Some (up_content req) \<and>
    resp_status (handle_exn DataError) = 500"
proof -
  have "insert_document (uploaded_document env req) (others env db) = Inl DataError"
    using assms(3) fits_upload_key [of "up_tenant_id req" "new_document_id env" "up_filename req"]
    by (auto simp: insert_document_def checked_insert_def uploaded_document_def fits_opt_def)
  with assms show ?thesis
    by (simp add: upload_document_def Let_def storage_upload_def insert_upload_def)
qed

theorem upload_long_name_leaves_object_witness:
  "(let req = (sample_request ''k1'') \<lparr>up_filename := replicate 427 CHR ''f''\<rparr>; db = sample_db [] []
    in \<exists>bkt'. upload_document sample_upload_env req db (\<lambda>_. None) = (Inl DataError, others sample_upload_env db, bkt') \<and>
       bkt' (upload_key (up_tenant_id req) 50 (up_filename req)) = Some (up_content req) \<and>
       resp_status (handle_exn DataError) = 500)"
  unfolding Let_def
  using upload_long_name_leaves_object [where env = sample_upload_env and db = "sample_db [] []" and bkt = "\<lambda>_. None"
      and req = "(sample_request ''k1'') \<lparr>up_filename := replicate 427 CHR ''f''\<rparr>"]
  by (simp add: find_existing_upload_def by_idempotency_key_def by_content_hash_def)

subsection \<open>Deleting\<close>

lemma get_document_Inr:
  "document_ids.keyed db \<Longrightarrow> get_document did t db = Inr d \<longleftrightarrow>
     d \<in> set (documents db) \<and> d_id d = did \<and> d_tenant_id d = t \<and> d_deleted_at d = None"
  using document_ids.lookup_Some [of db did "\<lambda>d. d_tenant_id d = t \<and> d_deleted_at d = None" d]
    document_ids.lookup_never_raises [of db did "\<lambda>d. d_tenant_id d = t \<and> d_deleted_at d = None"]
  by (auto simp: get_document_def split: option.splits)

lemma get_document_Inl:
  "document_ids.keyed db \<Longrightarrow> get_document did t db = Inl e \<longleftrightarrow>
     e = App (NotFoundError ''Document'' (uuid_str did)) \<and>
     (\<forall>d \<in> set (documents db). d_id d = did \<longrightarrow> d_tenant_id d = t \<longrightarrow> d_deleted_at d \<noteq> None)"
  using document_ids.lookup_None [of db did "\<lambda>d. d_tenant_id d = t \<and> d_deleted_at d = None"]
    document_ids.lookup_never_raises [of db did "\<lambda>d. d_tenant_id d = t \<and> d_deleted_at d = None"]
  by (auto simp: get_document_def split: option.splits)

text \<open>
  Claim C31 (functional): deleting a document.  Deletion of a document that exists in this tenant
  and is not deleted succeeds; afterwards no tenant finds it any more, every other document is
  found as before, and its object is gone unless the object store failed.
\<close>

theorem soft_delete_hides:
  assumes "document_ids.keyed db" and "get_document did t db = Inr d"
    and "soft_delete_document now client_error did t db bkt = (r, db', bkt')"
  shows "r = Inr () \<and>
    (\<forall>t'. get_document did t' db' = Inl (App (NotFoundError ''Document'' (uuid_str did)))) \<and>
    (\<forall>did' t'. did' \<noteq> did \<longrightarrow> get_document did' t' db' = get_document did' t' db) \<and>
    (client_error = None \<longrightarrow> (\<forall>key. d_storage_key d = Some key \<and> key \<noteq> '''' \<longrightarrow> bkt' key = None))"
proof -
  have db': "db' = db \<lparr>documents := update_where (\<lambda>d. d_id d = did)
      (\<lambda>d. d \<lparr>d_deleted_at := Some now, d_status := DocFailed, d_updated_at := now\<rparr>) (documents db)\<rparr>"
    and r: "r = Inr ()" using assms(2,3) by (simp_all add: soft_delete_document_def Let_def)
  have docs': "documents db' = update_where (\<lambda>d. d_id d = did)
      (\<lambda>d. d \<lparr>d_deleted_at := Some now, d_status := DocFailed, d_updated_at := now\<rparr>) (documents db)"
    by (simp add: db')
  have keyed: "document_ids.keyed db'"
    by (rule document_ids.update_keyed [OF assms(1) _ docs']) simp
  have gone: "get_document did t' db' = Inl (App (NotFoundError ''Document'' (uuid_str did)))" for t'
  proof -
    have "d_deleted_at e \<noteq> None" if "e \<in> set (documents db')" "d_id e = did" for e
    proof -
      from that(1) obtain k where "e = (if d_id k = did
          then k \<lparr>d_deleted_at := Some now, d_status := DocFailed, d_updated_at := now\<rparr> else k)"
        unfolding docs' set_update_where by (rule imageE)
      with that(2) show ?thesis by (cases "d_id k = did") simp_all
    qed
    then show ?thesis
      by (intro iffD2 [OF get_document_Inl [OF keyed]] conjI refl ballI impI)
  qed
  have same: "get_document did' t' db' = get_document did' t' db" if "did' \<noteq> did" for did' t'
  proof -
    have "filter (\<lambda>d. d_id d = did' \<and> d_tenant_id d = t' \<and> d_deleted_at d = None) (documents db') =
        filter (\<lambda>d. d_id d = did' \<and> d_tenant_id d = t' \<and> d_deleted_at d = None) (documents db)"
      unfolding docs' using that by (intro filter_update_where) simp
    then show ?thesis unfolding get_document_def by (simp only:)
  qed
  have object: "bkt' key = None" if "client_error = None" "d_storage_key d = Some key" "key \<noteq> ''''" for key
  proof -
    have "bkt' = snd (storage_delete client_error key bkt)"
      using assms(3) unfolding soft_delete_document_def Let_def assms(2) using that by simp
    with that show ?thesis by (simp add: storage_delete_def)
  qed
  show ?thesis
  proof (intro conjI allI impI)
    show "r = Inr ()" by (rule r)
    show "get_document did t' db' = Inl (App (NotFoundError ''Document'' (uuid_str did)))" for t'
      by (rule gone)
    show "did' \<noteq> did \<Longrightarrow> get_document did' t' db' = get_document did' t' db" for did' t'
      by (rule same)
    show "client_error = None \<Longrightarrow> d_storage_key d = Some key \<and> key \<noteq> '''' \<Longrightarrow> bkt' key = None" for key
      using object by blast
  qed
qed

theorem soft_delete_hides_witness:
  "\<exists>db' bkt'. soft_delete_document 9 None 108 2 (sample_db [sample_document 108] []) (\<lambda>_. Some ''Hi.'') = (Inr (), db', bkt') \<and>
     get_document 108 2 db' = Inl (App (NotFoundError ''Document'' (uuid_str 108))) \<and> bkt' ''k'' = None"
proof -
  let ?db = "sample_db [sample_document 108] []"
  obtain r db' bkt' where run: "soft_delete_document 9 None 108 2 ?db (\<lambda>_. Some ''Hi.'') = (r, db', bkt')"
    by (metis prod_cases3)
  have found: "get_document 108 2 ?db = Inr (sample_document 108)" by (simp add: get_document_def)
  have keyed: "document_ids.keyed ?db" by (simp add: document_ids.keyed_def)
  note hides = soft_delete_hides [OF keyed found run]
  have "r = Inr ()" using hides by blast
  moreover have "get_document 108 2 db' = Inl (App (NotFoundError ''Document'' (uuid_str 108)))"
    using hides by blast
  moreover have "bkt' ''k'' = None"
    using conjunct2 [OF conjunct2 [OF conjunct2 [OF hides]]] by simp
  ultimately show ?thesis using run by blast
qed

end
