(* ===== verification/Fusion.thy ===== *)
theory Fusion
  imports Binary64 Exceptions "HOL-Library.AList"
begin

section \<open>Reciprocal rank fusion\<close>

text \<open>
  \<open>_reciprocal_rank_fusion\<close> of \<open>src/retrieval/service.py\<close>.  A Python dict is an association
  list in insertion order: assigning to an existing key keeps its place, a new key goes to the
  end.  Scores are binary64 floats; \<open>sorted(..., reverse=True)\<close> is a stable sort by
  descending score.
\<close>

record search_row =
  row_chunk_id :: uuid
  row_document_id :: uuid
  row_content :: string
  row_chunk_index :: nat
  row_page_number :: "nat option"
  row_filename :: string

record ranked_chunk =
  rc_chunk_id :: uuid
  rc_document_id :: uuid
  rc_content :: string
  rc_chunk_index :: nat
  rc_page_number :: "nat option"
  rc_score :: rat
  rc_document_filename :: string

type_synonym scores = "(uuid \<times> rat) list"
type_synonym metadata = "(uuid \<times> search_row) list"

definition dict_get :: "('k \<times> 'v) list \<Rightarrow> 'k \<Rightarrow> 'v \<Rightarrow> 'v" where
  "dict_get d k dflt = (case map_of d k of None \<Rightarrow> dflt | Some v \<Rightarrow> v)"

definition rrf_k :: nat where
  "rrf_k = 60"

definition rrf_term :: "nat \<Rightarrow> rat" where
  "rrf_term rank = b64 (1 / of_nat (rrf_k + rank))"

text \<open>One iteration of the scoring loops: \<open>scores[id] = scores.get(id, 0.0) + 1.0 / (RRF_K + rank)\<close>.\<close>

definition add_score :: "uuid \<Rightarrow> nat \<Rightarrow> scores \<Rightarrow> scores" where
  "add_score cid rank sc = AList.update cid (b64 (dict_get sc cid 0 + rrf_term rank)) sc"

text \<open>The dense loop overwrites the metadata of a chunk, the sparse loop keeps what is there.\<close>

fun fuse_dense :: "nat \<Rightarrow> search_row list \<Rightarrow> scores \<times> metadata \<Rightarrow> scores \<times> metadata" where
  "fuse_dense rank [] (sc, md) = (sc, md)"
| "fuse_dense rank (row # rows) (sc, md) =
     fuse_dense (Suc rank) rows
       (add_score (row_chunk_id row) rank sc, AList.update (row_chunk_id row) row md)"

fun fuse_sparse :: "nat \<Rightarrow> search_row list \<Rightarrow> scores \<times> metadata \<Rightarrow> scores \<times> metadata" where
  "fuse_sparse rank [] (sc, md) = (sc, md)"
| "fuse_sparse rank (row # rows) (sc, md) =
     fuse_sparse (Suc rank) rows
       (add_score (row_chunk_id row) rank sc,
        if row_chunk_id row \<notin> fst ` set md then AList.update (row_chunk_id row) row md else md)"

definition fused_scores :: "search_row list \<Rightarrow> search_row list \<Rightarrow> scores \<times> metadata" where
  "fused_scores dense_rows sparse_rows = fuse_sparse 1 sparse_rows (fuse_dense 1 dense_rows ([], []))"

definition sorted_ids :: "scores \<Rightarrow> uuid list" where
  "sorted_ids sc = sort_key (\<lambda>cid. - dict_get sc cid 0) (map fst sc)"

text \<open>The loop that builds the results; a missing metadata entry would be a \<open>KeyError\<close>.\<close>

fun build_results :: "scores \<Rightarrow> metadata \<Rightarrow> uuid list \<Rightarrow> (exn, ranked_chunk list) outcome" where
  "build_results sc md [] = Inr []"
| "build_results sc md (cid # cids) =
     (case map_of md cid of
        None \<Rightarrow> Inl (OtherError ''KeyError'')
      | Some meta \<Rightarrow>
          try_bind (build_results sc md cids) (\<lambda>results.
            Inr (\<lparr>rc_chunk_id = cid, rc_document_id = row_document_id meta,
                  rc_content = row_content meta, rc_chunk_index = row_chunk_index meta,
                  rc_page_number = row_page_number meta,
                  rc_score = round6 (dict_get sc cid 0),
                  rc_document_filename = row_filename meta\<rparr> # results)))"

definition reciprocal_rank_fusion ::
  "search_row list \<Rightarrow> search_row list \<Rightarrow> nat \<Rightarrow> (exn, ranked_chunk list) outcome" where
  "reciprocal_rank_fusion dense_rows sparse_rows top_k =
     (let (sc, md) = fused_scores dense_rows sparse_rows
      in build_results sc md (take top_k (sorted_ids sc)))"

subsection \<open>The fused scores and metadata\<close>

text \<open>The position of a chunk in a result list, counted from \<open>rank\<close>.\<close>

fun find_rank :: "nat \<Rightarrow> search_row list \<Rightarrow> uuid \<Rightarrow> nat option" where
  "find_rank rank [] cid = None"
| "find_rank rank (row # rows) cid =
     (if row_chunk_id row = cid then Some rank else find_rank (Suc rank) rows cid)"

text \<open>The effect of one list on a chunk's score.\<close>

fun score_step :: "nat option \<Rightarrow> rat \<Rightarrow> rat" where
  "score_step None s = s"
| "score_step (Some rank) s = b64 (s + rrf_term rank)"

definition fused_score :: "search_row list \<Rightarrow> search_row list \<Rightarrow> uuid \<Rightarrow> rat" where
  "fused_score dense_rows sparse_rows cid =
     score_step (find_rank 1 sparse_rows cid) (score_step (find_rank 1 dense_rows cid) 0)"

abbreviation row_ids :: "search_row list \<Rightarrow> uuid list" where
  "row_ids rows \<equiv> map row_chunk_id rows"

lemma dict_get_update: "dict_get (AList.update k v d) k' x = (if k' = k then v else dict_get d k' x)"
  by (simp add: dict_get_def update_conv')

lemma keys_update:
  "map fst (AList.update k v d) = (if k \<in> fst ` set d then map fst d else map fst d @ [k])"
  by (simp add: update_keys)

lemma find_rank_None: "find_rank rank rows cid = None \<longleftrightarrow> cid \<notin> set (row_ids rows)"
  by (induction rows arbitrary: rank) auto

lemma find_rank_precedes:
  "find_rank rank rows x = Some i \<Longrightarrow> find_rank rank rows y = Some j \<Longrightarrow> i \<le> j \<Longrightarrow> x \<noteq> y \<Longrightarrow>
    precedes x y (row_ids rows)"
proof (induction rows arbitrary: rank)
  case (Cons row rows)
  have later: "find_rank r rs cid = Some k \<Longrightarrow> r \<le> k" for r rs cid k
    by (induction rs arbitrary: r) (auto split: if_splits dest: Suc_leD)
  from Cons.prems find_rank_None [of "Suc rank" rows y] later [of "Suc rank" rows x i]
  show ?case using Cons.IH [of "Suc rank"] by (auto split: if_splits)
qed simp

text \<open>Both loops score alike.\<close>

fun score_rows :: "nat \<Rightarrow> search_row list \<Rightarrow> scores \<Rightarrow> scores" where
  "score_rows rank [] sc = sc"
| "score_rows rank (row # rows) sc =
     score_rows (Suc rank) rows (add_score (row_chunk_id row) rank sc)"

lemma fst_fuse_dense: "fst (fuse_dense rank rows (sc, md)) = score_rows rank rows sc"
  by (induction rows arbitrary: rank sc md) simp_all

lemma fst_fuse_sparse: "fst (fuse_sparse rank rows (sc, md)) = score_rows rank rows sc"
  by (induction rows arbitrary: rank sc md) simp_all

lemma fst_fused_scores:
  "fst (fused_scores dense sparse) = score_rows 1 sparse (score_rows 1 dense [])"
  by (metis fused_scores_def fst_fuse_dense fst_fuse_sparse prod.collapse)

lemma fst_set_update: "fst ` set (AList.update k v d) = insert k (fst ` set d)"
  using arg_cong [OF keys_update [of k v d], of set] by (auto split: if_splits)

lemma dict_get_score_rows:
  "distinct (row_ids rows) \<Longrightarrow>
    dict_get (score_rows rank rows sc) cid 0 =
      score_step (find_rank rank rows cid) (dict_get sc cid 0)"
proof (induction rows arbitrary: rank sc)
  case (Cons row rows)
  then have "row_chunk_id row = cid \<Longrightarrow> find_rank (Suc rank) rows cid = None"
    by (auto simp: find_rank_None)
  with Cons show ?case by (auto simp: add_score_def dict_get_update)
qed simp

lemma score_rows_distinct: "distinct (map fst sc) \<Longrightarrow> distinct (map fst (score_rows rank rows sc))"
  by (induction rank rows sc rule: score_rows.induct) (simp_all add: add_score_def distinct_update)

lemma score_rows_ids: "fst ` set (score_rows rank rows sc) = fst ` set sc \<union> set (row_ids rows)"
  by (induction rank rows sc rule: score_rows.induct) (auto simp: add_score_def fst_set_update)

lemma score_rows_keys:
  "distinct (row_ids rows) \<Longrightarrow>
    map fst (score_rows rank rows sc) =
      map fst sc @ filter (\<lambda>cid. cid \<notin> fst ` set sc) (row_ids rows)"
proof (induction rank rows sc rule: score_rows.induct)
  case (2 rank row rows sc)
  have "filter (\<lambda>cid. cid \<notin> insert (row_chunk_id row) A) (row_ids rows) =
      filter (\<lambda>cid. cid \<notin> A) (row_ids rows)" for A
    using 2(2) by (intro filter_cong refl) (metis distinct.simps(2) insert_iff list.simps(9))
  with 2 show ?case by (simp add: add_score_def keys_update fst_set_update del: insert_iff)
qed simp

lemma metadata_ids:
  "fst ` set (snd (fuse_dense rank rows (sc, md))) = fst ` set md \<union> set (row_ids rows)"
  "fst ` set (snd (fuse_sparse rank rows (sc, md))) = fst ` set md \<union> set (row_ids rows)"
  by (induction rows arbitrary: rank sc md) (auto simp: fst_set_update)

lemma fused_metadata_ids:
  "fst ` set (snd (fused_scores dense sparse)) = set (row_ids dense) \<union> set (row_ids sparse)"
  unfolding fused_scores_def
  by (metis metadata_ids list.set(1) image_empty sup_bot_left prod.collapse)

text \<open>The row whose fields a result carries.\<close>

definition source_row :: "search_row list \<Rightarrow> search_row list \<Rightarrow> uuid \<Rightarrow> search_row option" where
  "source_row dense_rows sparse_rows cid = List.find (\<lambda>r. row_chunk_id r = cid) (dense_rows @ sparse_rows)"

lemma map_of_dense:
  "distinct (row_ids rows) \<Longrightarrow>
    map_of (snd (fuse_dense rank rows (sc, md))) cid =
      (case List.find (\<lambda>r. row_chunk_id r = cid) rows of None \<Rightarrow> map_of md cid | Some r \<Rightarrow> Some r)"
proof (induction rows arbitrary: rank sc md)
  case (Cons row rows)
  then have "row_chunk_id row = cid \<Longrightarrow> List.find (\<lambda>r. row_chunk_id r = cid) rows = None"
    by (auto simp: find_None_iff) (metis imageI)
  with Cons show ?case by (auto simp: update_conv' split: option.splits)
qed simp

lemma map_of_sparse:
  "map_of (snd (fuse_sparse rank rows (sc, md))) cid =
      (case map_of md cid of None \<Rightarrow> List.find (\<lambda>r. row_chunk_id r = cid) rows | Some r \<Rightarrow> Some r)"
proof (induction rows arbitrary: rank sc md)
  case (Cons row rows)
  have "row_chunk_id row \<notin> fst ` set md \<longleftrightarrow> map_of md (row_chunk_id row) = None"
    by (simp add: map_of_eq_None_iff)
  with Cons show ?case by (auto simp: update_conv' split: option.splits)
qed (simp split: option.splits)

lemma fused_metadata:
  assumes "distinct (row_ids dense)"
  shows "map_of (snd (fused_scores dense sparse)) cid = source_row dense sparse cid"
proof -
  obtain sc md where d: "fuse_dense 1 dense ([], []) = (sc, md)" by force
  have "List.find P (xs @ ys) = (case List.find P xs of None \<Rightarrow> List.find P ys | Some x \<Rightarrow> Some x)"
    for P :: "search_row \<Rightarrow> bool" and xs ys by (induction xs) auto
  then show ?thesis
    using map_of_dense [OF assms, of 1 "[]" "[]" cid]
    by (simp add: fused_scores_def d [simplified] map_of_sparse source_row_def split: option.splits)
qed

abbreviation ranked_row :: "scores \<Rightarrow> uuid \<Rightarrow> search_row \<Rightarrow> ranked_chunk" where
  "ranked_row sc cid meta \<equiv>
     \<lparr>rc_chunk_id = cid, rc_document_id = row_document_id meta, rc_content = row_content meta,
      rc_chunk_index = row_chunk_index meta, rc_page_number = row_page_number meta,
      rc_score = round6 (dict_get sc cid 0), rc_document_filename = row_filename meta\<rparr>"

lemma build_results_eq:
  "set cids \<subseteq> fst ` set md \<Longrightarrow>
    build_results sc md cids = Inr (map (\<lambda>cid. ranked_row sc cid (the (map_of md cid))) cids)"
proof (induction cids)
  case (Cons cid cids)
  then obtain meta where "map_of md cid = Some meta"
    by (metis insert_subset list.simps(15) map_of_eq_None_iff option.exhaust)
  with Cons show ?case by simp
qed simp

lemma set_sorted_ids: "set (sorted_ids sc) = fst ` set sc"
  by (simp add: sorted_ids_def)

lemma fusion_eq:
  "reciprocal_rank_fusion dense sparse top_k =
     (let (sc, md) = fused_scores dense sparse
      in Inr (map (\<lambda>cid. ranked_row sc cid (the (map_of md cid))) (take top_k (sorted_ids sc))))"
proof -
  obtain sc md where f: "fused_scores dense sparse = (sc, md)" by force
  have "fst ` set sc = fst ` set md"
    using fst_fused_scores [of dense sparse] fused_metadata_ids [of dense sparse]
    by (simp add: f score_rows_ids)
  then have "set (take top_k (sorted_ids sc)) \<subseteq> fst ` set md"
    using set_take_subset [of top_k "sorted_ids sc"] by (simp add: set_sorted_ids)
  then show ?thesis by (simp add: reciprocal_rank_fusion_def f build_results_eq)
qed

lemma fused_metadata_rows:
  "map_of (snd (fuse_dense rank rows (sc, md))) cid = Some r \<Longrightarrow>
    map_of md cid = Some r \<or> (r \<in> set rows \<and> row_chunk_id r = cid)"
  "map_of (snd (fuse_sparse rank rows (sc, md))) cid = Some r \<Longrightarrow>
    map_of md cid = Some r \<or> (r \<in> set rows \<and> row_chunk_id r = cid)"
proof (induction rows arbitrary: rank sc md)
  case (Cons row rows)
  { case 1
    from Cons.IH(1) 1 show ?case by (fastforce simp: update_conv' split: if_splits)
  next
    case 2
    from Cons.IH(2) 2 show ?case by (fastforce simp: update_conv' split: if_splits) }
qed simp_all

text \<open>The fields of a result are those of a row of one of the lists.\<close>

lemma fusion_source_row:
  assumes "reciprocal_rank_fusion dense sparse top_k = Inr rs" and "r \<in> set rs"
  shows "\<exists>row \<in> set (dense @ sparse). row_chunk_id row = rc_chunk_id r \<and> row_content row = rc_content r \<and>
    row_document_id row = rc_document_id r \<and> row_filename row = rc_document_filename r"
proof -
  obtain sc md where f: "fused_scores dense sparse = (sc, md)" by force
  have "rs = map (\<lambda>cid. ranked_row sc cid (the (map_of md cid))) (take top_k (sorted_ids sc))"
    using assms(1) by (simp add: fusion_eq f)
  with assms(2) have "r \<in> (\<lambda>cid. ranked_row sc cid (the (map_of md cid))) ` set (take top_k (sorted_ids sc))"
    by (simp only: set_map)
  then obtain cid where taken: "cid \<in> set (take top_k (sorted_ids sc))"
    and r: "r = ranked_row sc cid (the (map_of md cid))" by (elim imageE)
  have cid: "cid \<in> set (sorted_ids sc)" using taken by (rule in_set_takeD)
  have "fst ` set sc = fst ` set md"
    using fst_fused_scores [of dense sparse] fused_metadata_ids [of dense sparse] by (simp add: f score_rows_ids)
  with cid have "cid \<in> fst ` set md" by (simp add: set_sorted_ids)
  then obtain row where row: "map_of md cid = Some row" by (metis map_of_eq_None_iff option.exhaust)
  obtain sc1 md1 where d: "fuse_dense 1 dense ([], []) = (sc1, md1)" by force
  have "map_of (snd (fuse_sparse 1 sparse (sc1, md1))) cid = Some row"
    using row f d by (simp add: fused_scores_def)
  from fused_metadata_rows(2) [OF this] fused_metadata_rows(1) [of 1 dense "[]" "[]" cid row] d
  have "row \<in> set (dense @ sparse)" "row_chunk_id row = cid" by auto
  with r row show ?thesis by auto
qed

lemma fusion_returns: "\<exists>rs. reciprocal_rank_fusion dense sparse top_k = Inr rs"
  by (cases "fused_scores dense sparse") (simp add: fusion_eq)

lemma source_row_exists:
  assumes "cid \<in> set (row_ids (dense @ sparse))" shows "\<exists>row. source_row dense sparse cid = Some row"
proof (cases "source_row dense sparse cid")
  case None
  then have "\<not> (\<exists>row \<in> set (dense @ sparse). row_chunk_id row = cid)"
    unfolding source_row_def find_None_iff by blast
  with assms show ?thesis by auto
qed simp

lemma ranked_row_fields:
  "rc_score (ranked_row sc cid row) = round6 (dict_get sc cid 0)"
  "rc_content (ranked_row sc cid row) = row_content row"
  "rc_document_id (ranked_row sc cid row) = row_document_id row"
  "rc_chunk_index (ranked_row sc cid row) = row_chunk_index row"
  "rc_document_filename (ranked_row sc cid row) = row_filename row"
  by simp_all

lemma fusion_ids:
  "reciprocal_rank_fusion dense sparse top_k = Inr rs \<Longrightarrow>
    map rc_chunk_id rs = take top_k (sorted_ids (fst (fused_scores dense sparse)))"
  by (auto simp: fusion_eq comp_def split: prod.splits)

lemma fusion_distinct: "distinct (sorted_ids (fst (fused_scores dense sparse)))"
  by (simp add: sorted_ids_def fst_fused_scores score_rows_distinct)

lemma fusion_set:
  "set (sorted_ids (fst (fused_scores dense sparse))) = set (row_ids dense) \<union> set (row_ids sparse)"
  by (simp add: set_sorted_ids fst_fused_scores score_rows_ids)

lemma fusion_score:
  "distinct (row_ids dense) \<Longrightarrow> distinct (row_ids sparse) \<Longrightarrow>
    dict_get (fst (fused_scores dense sparse)) cid 0 = fused_score dense sparse cid"
  by (simp add: fst_fused_scores dict_get_score_rows fused_score_def dict_get_def [of "[]"])

subsection \<open>Dominance\<close>

lemma precedes_find_rank:
  "distinct (row_ids rows) \<Longrightarrow> precedes x y (row_ids rows) \<Longrightarrow>
    \<exists>i j. find_rank rank rows x = Some i \<and> find_rank rank rows y = Some j \<and> rank \<le> i \<and> i \<le> j"
proof (induction rows arbitrary: rank)
  case (Cons row rows)
  show ?case
  proof (cases "row_chunk_id row = x")
    case True
    have "x \<notin> set (row_ids rows)" using Cons.prems(1) unfolding True [symmetric] by simp
    moreover have "y \<in> set (row_ids rows)" using Cons.prems(2) True by simp
    ultimately have y: "y \<in> set (row_ids rows)" "y \<noteq> x" by blast+
    then obtain j where j: "find_rank (Suc rank) rows y = Some j"
      using find_rank_None by (metis not_Some_eq)
    have "find_rank r rs cid = Some k \<Longrightarrow> r \<le> k" for r rs cid k
      by (induction rs arbitrary: r) (auto split: if_splits dest: Suc_leD)
    from this [OF j] True y j show ?thesis by auto
  next
    case False
    with Cons.prems precedes_set [of x y "row_ids rows"] have "y \<in> row_chunk_id ` set rows" by auto
    with False Cons show ?thesis by (force dest: Suc_leD)
  qed
qed simp

lemma rrf_term_antimono: "i \<le> j \<Longrightarrow> rrf_term j \<le> rrf_term i"
  unfolding rrf_term_def by (intro b64_mono divide_left_mono) (simp_all add: rrf_k_def)

lemma rrf_term_nonneg: "0 \<le> rrf_term i"
  by (simp add: rrf_term_def b64_nonneg)

definition is_b64 :: "rat \<Rightarrow> bool" where
  "is_b64 x \<longleftrightarrow> 0 \<le> x \<and> b64 x = x"

lemma score_step_is_b64: "is_b64 s \<Longrightarrow> is_b64 (score_step rk s)"
  by (cases rk) (auto simp: is_b64_def b64_idem b64_nonneg rrf_term_nonneg)

lemma score_step_grows: "is_b64 s \<Longrightarrow> s \<le> score_step rk s"
  using b64_mono [of s] rrf_term_nonneg by (cases rk) (force simp: is_b64_def)+

text \<open>A list in which x stands before y, or without y, keeps the order of the scores.\<close>

lemma score_step_dominates:
  assumes "distinct (row_ids rows)" and "y \<in> set (row_ids rows) \<Longrightarrow> precedes x y (row_ids rows)"
    and "t \<le> s" and "is_b64 s"
  shows "score_step (find_rank 1 rows y) t \<le> score_step (find_rank 1 rows x) s"
proof (cases "y \<in> set (row_ids rows)")
  case True
  from precedes_find_rank [OF assms(1) assms(2) [OF True], of 1] obtain i j where
    "find_rank 1 rows x = Some i" "find_rank 1 rows y = Some j" "i \<le> j" by blast
  with assms(3) show ?thesis by (simp add: b64_mono add_mono rrf_term_antimono)
next
  case False
  then have "find_rank 1 rows y = None" using find_rank_None by blast
  with assms(3) score_step_grows [OF assms(4)] order.trans show ?thesis by fastforce
qed

subsection \<open>What the fusion promises\<close>

text \<open>
  The fusion never raises.  It returns the requested number of chunks, or
  all of them when the two lists together hold fewer; every returned chunk occurs in one of the
  lists, none is returned twice, and the scores shown are in descending order.
\<close>

theorem fusion_top_k:
  "\<exists>rs. reciprocal_rank_fusion dense sparse top_k = Inr rs \<and>
     length rs = min top_k (card (set (row_ids dense) \<union> set (row_ids sparse))) \<and>
     distinct (map rc_chunk_id rs) \<and>
     rc_chunk_id ` set rs \<subseteq> set (row_ids dense) \<union> set (row_ids sparse) \<and>
     sorted (map (\<lambda>r. - rc_score r) rs)"
proof -
  obtain sc md where f: "fused_scores dense sparse = (sc, md)" by force
  let ?ids = "take top_k (sorted_ids sc)"
  let ?rs = "map (\<lambda>cid. ranked_row sc cid (the (map_of md cid))) ?ids"
  have rs: "reciprocal_rank_fusion dense sparse top_k = Inr ?rs" by (simp add: fusion_eq f)
  note ids = fusion_ids [OF rs, unfolded f fst_conv]
  have "sorted (map (\<lambda>cid. - dict_get sc cid 0) ?ids)"
    unfolding take_map [symmetric] by (simp add: sorted_ids_def)
  then have "sorted (map (\<lambda>cid. - round6 (dict_get sc cid 0)) ?ids)"
    unfolding sorted_map by (rule sorted_wrt_mono_rel [rotated]) (simp add: round6_mono)
  then have "sorted (map (\<lambda>r. - rc_score r) ?rs)" by (simp add: comp_def)
  moreover have "distinct (map rc_chunk_id ?rs)"
    unfolding ids using fusion_distinct [of dense sparse] by (simp add: f)
  moreover have "length ?rs = min top_k (card (set (row_ids dense) \<union> set (row_ids sparse)))"
    using distinct_card [OF fusion_distinct [of dense sparse]] fusion_set [of dense sparse]
    by (simp add: f min.commute)
  moreover have "rc_chunk_id ` set ?rs \<subseteq> set (row_ids dense) \<union> set (row_ids sparse)"
    unfolding set_map [symmetric] ids
    using set_take_subset [of top_k "sorted_ids sc"] fusion_set [of dense sparse] by (simp add: f)
  ultimately show ?thesis using rs by blast
qed

text \<open>
  With result lists that hold each chunk once (chunk ids are primary
  keys), every returned chunk carries the score 1/(60+rank) summed over the lists that contain
  it, in binary64, rounded to six digits, and the fields of its dense row, or of its sparse row
  when it has no dense one; and a chunk that is cut off scores at most as high as any returned.
\<close>

theorem fusion_scores:
  assumes "distinct (row_ids dense)" and "distinct (row_ids sparse)"
    and "reciprocal_rank_fusion dense sparse top_k = Inr rs" and "r \<in> set rs"
  shows "rc_score r = round6 (fused_score dense sparse (rc_chunk_id r)) \<and>
    (\<exists>row. source_row dense sparse (rc_chunk_id r) = Some row \<and>
       rc_content r = row_content row \<and> rc_document_id r = row_document_id row \<and>
       rc_chunk_index r = row_chunk_index row \<and> rc_document_filename r = row_filename row) \<and>
    (\<forall>cid \<in> set (row_ids (dense @ sparse)) - rc_chunk_id ` set rs.
       fused_score dense sparse cid \<le> fused_score dense sparse (rc_chunk_id r))"
proof -
  obtain sc md where f: "fused_scores dense sparse = (sc, md)" by force
  let ?S = "sorted_ids sc"
  note ids = fusion_ids [OF assms(3), unfolded f fst_conv]
  have score: "dict_get sc cid 0 = fused_score dense sparse cid" for cid
    using fusion_score [OF assms(1,2), of cid] by (simp add: f)
  have "rc_chunk_id r \<in> rc_chunk_id ` set rs" using assms(4) by simp
  then have r: "rc_chunk_id r \<in> set (take top_k ?S)" by (simp only: set_map [symmetric] ids)
  then have "rc_chunk_id r \<in> set (row_ids (dense @ sparse))"
    using fusion_set [of dense sparse] set_take_subset [of top_k ?S] by (auto simp: f)
  then obtain row where row: "source_row dense sparse (rc_chunk_id r) = Some row"
    using source_row_exists by blast
  have rs: "rs = map (\<lambda>cid. ranked_row sc cid (the (map_of md cid))) (take top_k ?S)"
    using assms(3) by (simp add: fusion_eq f)
  have meta: "map_of md (rc_chunk_id r) = Some row"
    using row fused_metadata [OF assms(1), of sparse "rc_chunk_id r"] by (simp add: f)
  from assms(4) have "r \<in> (\<lambda>cid. ranked_row sc cid (the (map_of md cid))) ` set (take top_k ?S)"
    unfolding rs by (simp only: set_map)
  then obtain cid where "r = ranked_row sc cid (the (map_of md cid))" by (elim imageE)
  then have r_eq: "r = ranked_row sc (rc_chunk_id r) row" using meta by simp
  have fields: "rc_score r = round6 (fused_score dense sparse (rc_chunk_id r))"
    "rc_content r = row_content row" "rc_document_id r = row_document_id row"
    "rc_chunk_index r = row_chunk_index row" "rc_document_filename r = row_filename row"
    using arg_cong [OF r_eq, of rc_score] arg_cong [OF r_eq, of rc_content]
      arg_cong [OF r_eq, of rc_document_id] arg_cong [OF r_eq, of rc_chunk_index]
      arg_cong [OF r_eq, of rc_document_filename]
    unfolding ranked_row_fields by (simp_all only: score)
  have "fused_score dense sparse cid \<le> fused_score dense sparse (rc_chunk_id r)"
    if "cid \<in> set (row_ids (dense @ sparse)) - rc_chunk_id ` set rs" for cid
  proof -
    have "cid \<in> set ?S" "cid \<notin> set (take top_k ?S)"
      using that fusion_set [of dense sparse] by (auto simp: f ids [symmetric])
    then have "cid \<in> set (drop top_k ?S)" by (metis Un_iff append_take_drop_id set_append)
    moreover have "sorted (map (\<lambda>cid. - dict_get sc cid 0) (take top_k ?S @ drop top_k ?S))"
      by (simp add: sorted_ids_def)
    ultimately show ?thesis using r by (simp only: map_append sorted_append) (auto simp: score)
  qed
  then show ?thesis using row fields by blast
qed

theorem fusion_scores_witness:
  "(let b = \<lparr>row_chunk_id = 2, row_document_id = 7, row_content = ''b'', row_chunk_index = 0,
             row_page_number = None, row_filename = ''f''\<rparr>;
        r = \<lparr>rc_chunk_id = 2, rc_document_id = 7, rc_content = ''b'', rc_chunk_index = 0,
             rc_page_number = None, rc_score = round6 (b64 (b64 (0 + rrf_term 1) + rrf_term 1)),
             rc_document_filename = ''f''\<rparr>
    in rc_score r = round6 (fused_score [b] [b] (rc_chunk_id r)) \<and>
       (\<exists>row. source_row [b] [b] (rc_chunk_id r) = Some row \<and>
          rc_content r = row_content row \<and> rc_document_id r = row_document_id row \<and>
          rc_chunk_index r = row_chunk_index row \<and> rc_document_filename r = row_filename row) \<and>
       (\<forall>cid \<in> set (row_ids ([b] @ [b])) - rc_chunk_id ` set [r].
          fused_score [b] [b] cid \<le> fused_score [b] [b] (rc_chunk_id r)))"
  unfolding Let_def
proof (rule fusion_scores [where top_k = 1], goal_cases)
  case 3
  show ?case
    by (simp add: reciprocal_rank_fusion_def fused_scores_def add_score_def sorted_ids_def
        dict_get_def)
qed simp_all

text \<open>
  Claim C14 (functional): rank dominance.  If in each list that contains y the chunk x stands
  before y, then whenever y is among the results, x is too, and before y: rounding to binary64
  and ties cannot invert them.
\<close>

theorem fusion_dominance:
  assumes "distinct (row_ids dense)" and "distinct (row_ids sparse)"
    and "reciprocal_rank_fusion dense sparse top_k = Inr rs"
    and "y \<in> rc_chunk_id ` set rs"
    and "y \<in> set (row_ids dense) \<Longrightarrow> precedes x y (row_ids dense)"
    and "y \<in> set (row_ids sparse) \<Longrightarrow> precedes x y (row_ids sparse)"
  shows "precedes x y (map rc_chunk_id rs)"
proof -
  obtain sc md where f: "fused_scores dense sparse = (sc, md)" by force
  let ?ks = "map fst sc"
  have score: "dict_get sc cid 0 = fused_score dense sparse cid" for cid
    using fusion_score [OF assms(1,2), of cid] by (simp add: f)
  have keys: "?ks = row_ids dense @ filter (\<lambda>cid. cid \<notin> set (row_ids dense)) (row_ids sparse)"
    using fst_fused_scores [of dense sparse] assms(1,2)
    by (simp add: f score_rows_keys score_rows_ids)
  note ids = fusion_ids [OF assms(3), unfolded f fst_conv]
  have y: "y \<in> set (take top_k (sorted_ids sc))"
    using assms(4) by (simp only: set_map [symmetric] ids)
  then have "y \<in> set ?ks" using set_take_subset [of top_k "sorted_ids sc"] by (auto simp: sorted_ids_def)
  then have "precedes x y ?ks"
    using assms(5,6) precedes_set [of x y "row_ids sparse"]
    unfolding keys precedes_append by (cases "x \<in> set (row_ids dense)") (auto simp: precedes_filter)
  moreover have "fused_score dense sparse y \<le> fused_score dense sparse x"
    unfolding fused_score_def using assms
    by (intro score_step_dominates score_step_is_b64) (simp_all add: is_b64_def)
  moreover have "x \<noteq> y"
    using precedes_neq [OF _ \<open>precedes x y ?ks\<close>] fusion_distinct [of dense sparse]
    by (simp add: f sorted_ids_def)
  ultimately have "precedes x y (sorted_ids sc)"
    unfolding sorted_ids_def by (intro precedes_sort_key) (simp_all add: score)
  then show ?thesis
    unfolding ids using fusion_distinct [of dense sparse] y by (intro precedes_take) (simp_all add: f)
qed

abbreviation sample_row :: "uuid \<Rightarrow> search_row" where
  "sample_row cid \<equiv>
     \<lparr>row_chunk_id = cid, row_document_id = 7, row_content = ''a'', row_chunk_index = 0,
      row_page_number = None, row_filename = ''f''\<rparr>"

theorem fusion_dominance_witness:
  "(let sc = [(1, b64 (0 + rrf_term 1)), (2, b64 (0 + rrf_term 2))]
    in precedes 1 2 (map rc_chunk_id [ranked_row sc 1 (sample_row 1), ranked_row sc 2 (sample_row 2)]))"
  unfolding Let_def
proof (rule fusion_dominance [where dense = "[sample_row 1, sample_row 2]" and sparse = "[]" and top_k = 2],
    goal_cases)
  case 3
  have "b64 (rrf_term 2) \<le> b64 (rrf_term 1)" by (intro b64_mono rrf_term_antimono) simp
  then show ?case
    by (simp add: reciprocal_rank_fusion_def fused_scores_def add_score_def sorted_ids_def
        dict_get_def numeral_2_eq_2)
qed simp_all

end
