(* ===== verification/Retrieval.thy ===== *)
theory Retrieval
  imports Fusion Models Decimal
begin

section \<open>Hybrid retrieval\<close>

text \<open>
  \<open>src/retrieval/service.py\<close> around the fusion of \<open>Fusion.thy\<close>: the two SQL queries, the
  searches, and the flow of \<open>hybrid_search\<close>.  Parameters: the embedding model, pgvector's distance,
  PostgreSQL's text matching and ranking (functions of the query and of the content the
  \<open>tsv\<close> column is generated from), Groq's chat completions and Tavily's search.
\<close>

subsection \<open>Row-level security\<close>

text \<open>
  The settings of a database session: the tenant set by \<open>set_tenant_context\<close>, the worker mode set
  by \<open>set_worker_context\<close>, and whether the database role bypasses row-level security (a
  superuser).  The policies of the migration \<open>0002\<close> on documents, chunks and jobs.
\<close>

record db_session =
  app_current_tenant :: "uuid option"
  app_worker_mode :: bool
  bypasses_rls :: bool

definition new_session :: "db_session \<Rightarrow> db_session" where
  "new_session s = \<lparr>app_current_tenant = None, app_worker_mode = False, bypasses_rls = bypasses_rls s\<rparr>"

definition set_tenant_context :: "uuid \<Rightarrow> db_session \<Rightarrow> db_session" where
  "set_tenant_context tenant_id s = s \<lparr>app_current_tenant := Some tenant_id\<rparr>"

definition set_worker_context :: "db_session \<Rightarrow> db_session" where
  "set_worker_context s = s \<lparr>app_worker_mode := True\<rparr>"

definition policy_allows :: "db_session \<Rightarrow> uuid \<Rightarrow> bool" where
  "policy_allows s tenant_id \<longleftrightarrow>
     bypasses_rls s \<or> app_current_tenant s = Some tenant_id \<or> app_worker_mode s"

text \<open>What the queries of a session see.\<close>

definition rls_view :: "db_session \<Rightarrow> database \<Rightarrow> database" where
  "rls_view s db = db
     \<lparr>documents := filter (\<lambda>d. policy_allows s (d_tenant_id d)) (documents db),
      chunks := filter (\<lambda>c. policy_allows s (c_tenant_id c)) (chunks db),
      jobs := filter (\<lambda>j. policy_allows s (j_tenant_id j)) (jobs db)\<rparr>"

subsection \<open>The queries\<close>

record search_env =
  encode_query :: "string \<Rightarrow> (exn, rat list) outcome"
  cosine_distance :: "rat list \<Rightarrow> rat list \<Rightarrow> rat"
  ts_match :: "string \<Rightarrow> string \<Rightarrow> bool"
  ts_rank_cd :: "string \<Rightarrow> string \<Rightarrow> rat"

definition join_row :: "chunk_row \<Rightarrow> document \<Rightarrow> search_row" where
  "join_row c d =
     \<lparr>row_chunk_id = c_id c, row_document_id = c_document_id c, row_content = c_content c,
      row_chunk_index = c_chunk_index c, row_page_number = c_page_number c, row_filename = d_filename d\<rparr>"

text \<open>\<open>FROM chunks c JOIN documents d ... WHERE c.tenant_id = :tenant_id AND d.deleted_at IS NULL\<close>\<close>

definition live_chunks :: "uuid \<Rightarrow> database \<Rightarrow> (chunk_row \<times> document) list" where
  "live_chunks tenant_id db =
     [(c, d). c \<leftarrow> chunks db, d \<leftarrow> documents db,
              c_document_id c = d_id d \<and> c_tenant_id c = tenant_id \<and> d_deleted_at d = None]"

definition dense_sql ::
  "search_env \<Rightarrow> rat list \<Rightarrow> uuid \<Rightarrow> nat \<Rightarrow> database \<Rightarrow> (search_row \<times> rat) list" where
  "dense_sql env query_vec tenant_id limit db =
     take limit (map (\<lambda>(c, d). (join_row c d, cosine_distance env (c_embedding c) query_vec))
       (sort_key (\<lambda>(c, d). cosine_distance env (c_embedding c) query_vec) (live_chunks tenant_id db)))"

definition sparse_sql ::
  "search_env \<Rightarrow> string \<Rightarrow> uuid \<Rightarrow> nat \<Rightarrow> database \<Rightarrow> (search_row \<times> rat) list" where
  "sparse_sql env query tenant_id limit db =
     take limit (map (\<lambda>(c, d). (join_row c d, ts_rank_cd env query (c_content c)))
       (sort_key (\<lambda>(c, d). - ts_rank_cd env query (c_content c))
          (filter (\<lambda>(c, d). ts_match env query (c_content c)) (live_chunks tenant_id db))))"

definition to_ranked :: "rat \<Rightarrow> search_row \<Rightarrow> ranked_chunk" where
  "to_ranked score row =
     \<lparr>rc_chunk_id = row_chunk_id row, rc_document_id = row_document_id row, rc_content = row_content row,
      rc_chunk_index = row_chunk_index row, rc_page_number = row_page_number row, rc_score = score,
      rc_document_filename = row_filename row\<rparr>"

definition dense_search ::
  "search_env \<Rightarrow> db_session \<Rightarrow> string \<Rightarrow> uuid \<Rightarrow> nat \<Rightarrow> database \<Rightarrow> (exn, ranked_chunk list) outcome" where
  "dense_search env s query tenant_id top_k db =
     try_bind (encode_query env query) (\<lambda>query_vec.
       Inr (map (\<lambda>(row, distance). to_ranked (round6 (b64 (1 - distance))) row)
              (dense_sql env query_vec tenant_id top_k (rls_view s db))))"

definition sparse_search ::
  "search_env \<Rightarrow> db_session \<Rightarrow> string \<Rightarrow> uuid \<Rightarrow> nat \<Rightarrow> database \<Rightarrow> ranked_chunk list" where
  "sparse_search env s query tenant_id top_k db =
     map (\<lambda>(row, rank). to_ranked (round6 rank) row)
       (sparse_sql env query tenant_id top_k (rls_view s db))"

subsection \<open>Grading, web search and synthesis\<close>

record web_result =
  web_url :: string
  web_title :: string
  web_content :: string
  web_score :: rat

text \<open>A result of Tavily: a dictionary whose entries may be missing.\<close>

record tavily_result =
  tv_url :: "string option"
  tv_title :: "string option"
  tv_content :: "string option"
  tv_score :: "rat option"

datatype search_result = Internal ranked_chunk | FromWeb web_result

record search_settings =
  groq_api_key :: string
  tavily_api_key :: string

text \<open>Chat completions take the list of messages and answer with a text, or none, or raise.\<close>

record llm_services =
  chat :: "(string \<times> string) list \<Rightarrow> (exn, string option) outcome"
  tavily :: "string \<Rightarrow> nat \<Rightarrow> (exn, tavily_result list) outcome"

definition nl :: string where "nl = [CHR 0x0A]"

fun crag_context :: "nat \<Rightarrow> search_result list \<Rightarrow> string" where
  "crag_context idx [] = ''''"
| "crag_context idx (Internal c # rest) =
     nl @ ''['' @ nat_str idx @ '']: '' @ rc_content c @ nl @ crag_context (Suc idx) rest"
| "crag_context idx (FromWeb w # rest) = crag_context (Suc idx) rest"

definition crag_prompt :: "string \<Rightarrow> search_result list \<Rightarrow> string" where \<open>
  crag_prompt query results =
     ''You are a relevance evaluator for a research platform.'' @ nl @ ''Query: '' @ query @ nl @ ''Context:'' @ nl @
     crag_context 1 results @ nl @ nl @
     ''Does the context contain any relevant information to help answer the query?'' @ nl @
     ''Reply strictly with exactly '' @ [CHR 0x22] @ ''YES'' @ [CHR 0x22] @ '' or '' @ [CHR 0x22] @ ''NO'' @ [CHR 0x22] @ ''.''\<close>

text \<open>\<open>_evaluate_chunks\<close>: any exception, also that of a missing content, counts as useful.\<close>

definition evaluate_chunks :: "llm_services \<Rightarrow> search_settings \<Rightarrow> string \<Rightarrow> search_result list \<Rightarrow> bool" where
  "evaluate_chunks llm st query results =
     (if groq_api_key st = '''' then True
      else (case chat llm [(''user'', crag_prompt query results)] of
              Inr (Some content) \<Rightarrow> \<not> py_contains ''NO'' (map upper_char (strip content))
            | _ \<Rightarrow> True))"

definition opt :: "'a \<Rightarrow> 'a option \<Rightarrow> 'a" where
  "opt dflt v = (case v of None \<Rightarrow> dflt | Some x \<Rightarrow> x)"

fun web_results :: "nat \<Rightarrow> tavily_result list \<Rightarrow> web_result list" where
  "web_results idx [] = []"
| "web_results idx (r # rs) =
     \<lparr>web_url = opt '''' (tv_url r), web_title = opt '''' (tv_title r), web_content = opt '''' (tv_content r),
      web_score = opt (b64 (1 - b64 (of_nat idx * b64 (1 / 10)))) (tv_score r)\<rparr> # web_results (Suc idx) rs"

definition fallback_web_search :: "llm_services \<Rightarrow> search_settings \<Rightarrow> string \<Rightarrow> nat \<Rightarrow> web_result list" where
  "fallback_web_search llm st query top_k =
     (if tavily_api_key st = '''' then []
      else (case tavily llm query top_k of Inl _ \<Rightarrow> [] | Inr rs \<Rightarrow> web_results 0 rs))"

fun answer_context :: "nat \<Rightarrow> search_result list \<Rightarrow> string" where
  "answer_context idx [] = ''''"
| "answer_context idx (Internal c # rest) =
     nl @ ''[Source '' @ nat_str idx @ '' - '' @ rc_document_filename c @ '']:'' @ nl @ rc_content c @ nl @
     answer_context (Suc idx) rest"
| "answer_context idx (FromWeb w # rest) =
     nl @ ''[Source '' @ nat_str idx @ '' - Web: '' @ web_title w @ '']:'' @ nl @ web_content w @ nl @
     answer_context (Suc idx) rest"

definition system_prompt :: "bool \<Rightarrow> string" where
  "system_prompt is_web =
     ''You are a helpful AI research assistant.'' @ nl @
     ''Answer the user'' @ [CHR 0x27] @ ''s query using ONLY the provided context, which comes from '' @
       (if is_web then ''web search results'' else ''internal workspace documents'') @ ''.'' @ nl @
     ''If the context does not contain enough information to fully answer the query, clearly state that you don'' @
       [CHR 0x27] @ ''t have enough information based on the sources, and answer as much as you can.'' @ nl @
     ''DO NOT hallucinate or invent facts outside the context.'' @ nl @
     ''Keep your answer concise and useful.''"

fun is_web_result :: "search_result \<Rightarrow> bool" where
  "is_web_result (FromWeb w) = True"
| "is_web_result (Internal c) = False"

definition synthesize_answer :: "llm_services \<Rightarrow> search_settings \<Rightarrow> string \<Rightarrow> search_result list \<Rightarrow> string option" where
  "synthesize_answer llm st query results =
     (if groq_api_key st = '''' then None
      else (case chat llm
                  [(''system'', system_prompt (\<exists>r \<in> set results. is_web_result r)),
                   (''user'', ''Context:'' @ nl @ answer_context 1 results @ nl @ nl @ ''User Query: '' @ query)] of
              Inl _ \<Rightarrow> None
            | Inr content \<Rightarrow> content))"

subsection \<open>The flow of a hybrid search\<close>

text \<open>The two queries run on sessions of their own, opened for them.\<close>

definition hybrid_search ::
  "search_env \<Rightarrow> llm_services \<Rightarrow> search_settings \<Rightarrow> db_session \<Rightarrow> string \<Rightarrow> uuid \<Rightarrow> nat \<Rightarrow> nat \<Rightarrow> database \<Rightarrow>
     (exn, search_result list \<times> string option) outcome" where
  "hybrid_search env llm st s query tenant_id top_k candidate_multiplier db =
     (let candidates = top_k * candidate_multiplier
      in try_bind (encode_query env query) (\<lambda>query_vec.
         let dense_rows = map fst (dense_sql env query_vec tenant_id candidates (rls_view (new_session s) db));
             sparse_rows = map fst (sparse_sql env query tenant_id candidates (rls_view (new_session s) db))
         in try_bind (reciprocal_rank_fusion dense_rows sparse_rows top_k) (\<lambda>ranked.
            let fused = map Internal ranked;
                is_useful = (if fused \<noteq> [] then evaluate_chunks llm st query fused else False);
                final = (if fused = [] \<or> \<not> is_useful
                         then (let web = fallback_web_search llm st query top_k
                               in if web \<noteq> [] then map FromWeb web else fused)
                         else fused);
                answer = (if final \<noteq> [] then synthesize_answer llm st query final else None)
            in Inr (final, answer))))"

subsection \<open>What the searches show\<close>

text \<open>The result shows a chunk of the tenant, from a document that is not deleted.\<close>

definition shows_live_chunk :: "uuid \<Rightarrow> database \<Rightarrow> ranked_chunk \<Rightarrow> bool" where
  "shows_live_chunk tenant_id db c \<longleftrightarrow>
     (\<exists>(k :: chunk_row) \<in> set (chunks db). \<exists>(d :: document) \<in> set (documents db).
        c_tenant_id k = tenant_id \<and> c_document_id k = d_id d \<and> d_deleted_at d = None \<and>
        rc_chunk_id c = c_id k \<and> rc_content c = c_content k \<and> rc_document_id c = d_id d \<and>
        rc_document_filename c = d_filename d)"

definition live_row :: "uuid \<Rightarrow> database \<Rightarrow> search_row \<Rightarrow> bool" where
  "live_row tenant_id db row \<longleftrightarrow> (\<exists>(k :: chunk_row) (d :: document). (k, d) \<in> set (live_chunks tenant_id db) \<and> row = join_row k d)"

lemma live_chunks_iff:
  "(k, d) \<in> set (live_chunks t db) \<longleftrightarrow> k \<in> set (chunks db) \<and> d \<in> set (documents db) \<and> c_document_id k = d_id d \<and>
     c_tenant_id k = t \<and> d_deleted_at d = None"
  by (auto simp: live_chunks_def)

lemma live_rowI: "(k, d) \<in> set (live_chunks t db) \<Longrightarrow> live_row t db (join_row k d)"
  unfolding live_row_def by blast

lemma dense_sql_live: "(row, x) \<in> set (dense_sql env v t n db) \<Longrightarrow> live_row t db row"
  unfolding dense_sql_def by (auto dest!: in_set_takeD intro: live_rowI)

lemma sparse_sql_live: "(row, x) \<in> set (sparse_sql env q t n db) \<Longrightarrow> live_row t db row"
  unfolding sparse_sql_def by (auto dest!: in_set_takeD intro: live_rowI)

lemma live_row_view: "live_row t (rls_view s db) row \<Longrightarrow> live_row t db row"
  unfolding live_row_def live_chunks_iff rls_view_def by (elim exE conjE) (intro exI conjI; simp)

lemma live_row_shown:
  "live_row t db row \<Longrightarrow> rc_chunk_id c = row_chunk_id row \<Longrightarrow> rc_content c = row_content row \<Longrightarrow>
    rc_document_id c = row_document_id row \<Longrightarrow> rc_document_filename c = row_filename row \<Longrightarrow> shows_live_chunk t db c"
  unfolding live_row_def shows_live_chunk_def live_chunks_iff
  by (elim exE conjE) (intro bexI conjI; simp add: join_row_def)

text \<open>The cases of a hybrid search: the fused rows, or the web results.\<close>

lemma hybrid_search_cases:
  assumes "hybrid_search env llm st s query t top_k m db = Inr (rs, answer)"
  obtains (internal) v cs where "encode_query env query = Inr v"
      "reciprocal_rank_fusion (map fst (dense_sql env v t (top_k * m) (rls_view (new_session s) db)))
         (map fst (sparse_sql env query t (top_k * m) (rls_view (new_session s) db))) top_k = Inr cs"
      "rs = map Internal cs"
  | (web) "rs = map FromWeb (fallback_web_search llm st query top_k)" "rs \<noteq> []"
proof -
  from assms obtain v where v: "encode_query env query = Inr v"
    by (cases "encode_query env query") (simp_all add: hybrid_search_def Let_def)
  obtain cs where cs: "reciprocal_rank_fusion (map fst (dense_sql env v t (top_k * m) (rls_view (new_session s) db)))
         (map fst (sparse_sql env query t (top_k * m) (rls_view (new_session s) db))) top_k = Inr cs"
    using fusion_returns by blast
  have "rs = map Internal cs \<or> (rs = map FromWeb (fallback_web_search llm st query top_k) \<and> rs \<noteq> [])"
    using assms unfolding hybrid_search_def v Let_def try_bind_simps cs
    by (simp split: if_splits)
  with internal [OF v cs] web show ?thesis by blast
qed

lemma dense_search_live:
  assumes "dense_search env s query t top_k db = Inr rs"
  shows "list_all (shows_live_chunk t db) rs"
proof -
  from assms obtain v where
    "rs = map (\<lambda>(row, distance). to_ranked (round6 (b64 (1 - distance))) row) (dense_sql env v t top_k (rls_view s db))"
    by (auto simp: dense_search_def dest!: try_bind_InrD)
  then show ?thesis
    by (auto simp: list_all_iff to_ranked_def intro: live_row_shown [OF live_row_view [OF dense_sql_live]])
qed

lemma sparse_search_live: "list_all (shows_live_chunk t db) (sparse_search env s query t top_k db)"
  by (auto simp: list_all_iff sparse_search_def to_ranked_def intro: live_row_shown [OF live_row_view [OF sparse_sql_live]])

lemma hybrid_search_live:
  assumes "hybrid_search env llm st s query t top_k m db = Inr (rs, answer)" and "Internal c \<in> set rs"
  shows "shows_live_chunk t db c"
  using assms(1)
proof (cases rule: hybrid_search_cases)
  case (internal v cs)
  then have "c \<in> set cs" using assms(2) by auto
  from fusion_source_row [OF internal(2) this] obtain row where
    row: "row \<in> set (map fst (dense_sql env v t (top_k * m) (rls_view (new_session s) db)) @
       map fst (sparse_sql env query t (top_k * m) (rls_view (new_session s) db)))"
    and fields: "row_chunk_id row = rc_chunk_id c" "row_content row = rc_content c"
      "row_document_id row = rc_document_id c" "row_filename row = rc_document_filename c" by blast
  from row have "live_row t (rls_view (new_session s) db) row" by (auto dest: dense_sql_live sparse_sql_live)
  from live_row_shown [OF live_row_view [OF this]] fields show ?thesis by simp
next
  case web
  with assms(2) show ?thesis by auto
qed

text \<open>
  Claim C6 (safety): searches stay within the tenant.  Whatever the services answer, every result
  of a dense or a sparse search and every internal result of a hybrid search is a stored chunk of
  the given tenant, with its own content and file name, whose document exists and is not deleted.
\<close>

theorem search_tenant_isolation:
  "(\<forall>rs. dense_search env s query t top_k db = Inr rs \<longrightarrow> list_all (shows_live_chunk t db) rs) \<and>
   list_all (shows_live_chunk t db) (sparse_search env s query t top_k db) \<and>
   (\<forall>rs answer. hybrid_search env llm st s query t top_k m db = Inr (rs, answer) \<longrightarrow>
      (\<forall>c. Internal c \<in> set rs \<longrightarrow> shows_live_chunk t db c))"
  by (intro conjI allI impI) (erule dense_search_live, rule sparse_search_live, erule (1) hybrid_search_live)

text \<open>
  The results of a hybrid search are of one kind.  They are all internal, at most
  \<open>top_k\<close> of them and with distinct chunk ids, or all from the web; and the search fails only if the
  query cannot be embedded, never because of the model or the web search.
\<close>

theorem hybrid_search_one_kind:
  "(\<forall>e. hybrid_search env llm st s query t top_k m db = Inl e \<longrightarrow> encode_query env query = Inl e) \<and>
   (\<forall>rs answer. hybrid_search env llm st s query t top_k m db = Inr (rs, answer) \<longrightarrow>
      (\<exists>cs. rs = map Internal cs \<and> length cs \<le> top_k \<and> distinct (map rc_chunk_id cs)) \<or>
      (\<exists>ws. rs = map FromWeb ws \<and> ws \<noteq> []))"
proof (intro conjI allI impI)
  fix e assume fails: "hybrid_search env llm st s query t top_k m db = Inl e"
  show "encode_query env query = Inl e"
  proof (cases "encode_query env query")
    case (Inl e')
    with fails show ?thesis by (simp add: hybrid_search_def Let_def)
  next
    case (Inr v)
    obtain cs where "reciprocal_rank_fusion (map fst (dense_sql env v t (top_k * m) (rls_view (new_session s) db)))
         (map fst (sparse_sql env query t (top_k * m) (rls_view (new_session s) db))) top_k = Inr cs"
      using fusion_returns by blast
    with fails Inr show ?thesis by (simp add: hybrid_search_def Let_def)
  qed
next
  fix rs answer
  assume "hybrid_search env llm st s query t top_k m db = Inr (rs, answer)"
  then show "(\<exists>cs. rs = map Internal cs \<and> length cs \<le> top_k \<and> distinct (map rc_chunk_id cs)) \<or>
      (\<exists>ws. rs = map FromWeb ws \<and> ws \<noteq> [])"
  proof (cases rule: hybrid_search_cases)
    case (internal v cs)
    note ids = fusion_ids [OF internal(2)]
    have "distinct (map rc_chunk_id cs)" unfolding ids using fusion_distinct by (rule distinct_take)
    moreover have "length (map rc_chunk_id cs) \<le> top_k" unfolding ids by simp
    ultimately show ?thesis using internal(3) by auto
  qed auto
qed

lemma hybrid_search_no_rows:
  assumes "live_chunks t (rls_view (new_session s) db) = []" and "encode_query env query = Inr v"
  shows "hybrid_search env llm st s query t top_k m db =
    (let web = map FromWeb (fallback_web_search llm st query top_k)
     in Inr (web, if web \<noteq> [] then synthesize_answer llm st query web else None))"
proof -
  have "sorted_ids (fst (fused_scores [] [])) = []"
    by (simp add: fused_scores_def sorted_ids_def)
  then have "reciprocal_rank_fusion [] [] top_k = Inr []"
    by (simp add: fusion_eq fused_scores_def Let_def)
  then show ?thesis
    using assms by (simp add: hybrid_search_def dense_sql_def sparse_sql_def Let_def)
qed

text \<open>
  Under row-level security a hybrid search finds nothing of the tenant's own.
  Its two queries run on new sessions, in which no tenant is set; for a database role that is
  subject to the policies they return no rows, whatever is stored, and the search answers from the
  web, or with nothing.
\<close>

theorem hybrid_search_blind_under_rls:
  assumes "\<not> bypasses_rls s" and "encode_query env query = Inr v"
  shows "hybrid_search env llm st s query t top_k m db =
    (let web = map FromWeb (fallback_web_search llm st query top_k)
     in Inr (web, if web \<noteq> [] then synthesize_answer llm st query web else None))"
proof -
  have "chunks (rls_view (new_session s) db) = []"
    using assms(1) by (simp add: rls_view_def policy_allows_def new_session_def)
  then show ?thesis using assms(2) by (intro hybrid_search_no_rows) (simp_all add: live_chunks_def)
qed

text \<open>The samples: one chunk of tenant 2 and one of tenant 4, services that always answer.\<close>

abbreviation sample_env :: search_env where
  "sample_env \<equiv> \<lparr>encode_query = (\<lambda>q. Inr [1]), cosine_distance = (\<lambda>v w. 0), ts_match = (\<lambda>q c. True),
     ts_rank_cd = (\<lambda>q c. 1)\<rparr>"

abbreviation sample_llm :: llm_services where
  "sample_llm \<equiv> \<lparr>chat = (\<lambda>messages. Inr (Some ''YES'')),
     tavily = (\<lambda>q n. Inr [\<lparr>tv_url = Some ''u'', tv_title = None, tv_content = Some ''c'', tv_score = Some 1\<rparr>])\<rparr>"

abbreviation sample_keys :: search_settings where
  "sample_keys \<equiv> \<lparr>groq_api_key = ''g'', tavily_api_key = ''t''\<rparr>"

abbreviation sample_session :: "bool \<Rightarrow> db_session" where
  "sample_session superuser \<equiv> \<lparr>app_current_tenant = Some 2, app_worker_mode = False, bypasses_rls = superuser\<rparr>"

abbreviation sample_document :: "uuid \<Rightarrow> uuid \<Rightarrow> document" where
  "sample_document n t \<equiv> \<lparr>d_id = n, d_user_id = 3, d_tenant_id = t, d_filename = ''f'', d_content_hash = ''h'',
     d_size_bytes = 0, d_mime_type = None, d_storage_key = None, d_status = DocReady, d_chunk_count = 2,
     d_error_message = None, d_created_at = 0, d_updated_at = 0, d_deleted_at = None\<rparr>"

abbreviation sample_chunk :: "uuid \<Rightarrow> uuid \<Rightarrow> uuid \<Rightarrow> chunk_row" where
  "sample_chunk n d t \<equiv> \<lparr>c_id = n, c_document_id = d, c_user_id = 3, c_tenant_id = t, c_content = ''x'',
     c_page_number = None, c_chunk_index = 0, c_embedding = [1], c_created_at = 0\<rparr>"

abbreviation sample_store :: database where
  "sample_store \<equiv> \<lparr>users = [], api_keys = [], refresh_tokens = [], organizations = [], memberships = [], invites = [],
     documents = [sample_document 10 2, sample_document 11 4], chunks = [sample_chunk 20 11 4, sample_chunk 21 10 2],
     jobs = []\<rparr>"

theorem search_tenant_isolation_witness:
  "let rs = sparse_search sample_env (sample_session True) ''q'' 2 5 sample_store
   in map rc_chunk_id rs = [21] \<and> list_all (shows_live_chunk 2 sample_store) rs"
proof -
  have "map rc_chunk_id (sparse_search sample_env (sample_session True) ''q'' 2 5 sample_store) = [21]"
    by (simp add: sparse_search_def sparse_sql_def live_chunks_def rls_view_def policy_allows_def to_ranked_def join_row_def)
  with search_tenant_isolation [of sample_env "sample_session True" "''q''" 2 5 sample_store] show ?thesis by simp
qed

theorem hybrid_search_one_kind_witness:
  "\<exists>rs answer. hybrid_search sample_env sample_llm sample_keys (sample_session True) ''q'' 6 5 2 sample_store = Inr (rs, answer) \<and>
     rs = [FromWeb \<lparr>web_url = ''u'', web_title = '''', web_content = ''c'', web_score = 1\<rparr>] \<and>
     ((\<exists>cs. rs = map Internal cs \<and> length cs \<le> 5 \<and> distinct (map rc_chunk_id cs)) \<or> (\<exists>ws. rs = map FromWeb ws \<and> ws \<noteq> []))"
proof -
  have run: "hybrid_search sample_env sample_llm sample_keys (sample_session True) ''q'' 6 5 2 sample_store =
      Inr ([FromWeb \<lparr>web_url = ''u'', web_title = '''', web_content = ''c'', web_score = 1\<rparr>], Some ''YES'')"
    by (subst hybrid_search_no_rows [of _ _ _ _ _ "[1]"])
      (simp_all add: live_chunks_def rls_view_def fallback_web_search_def opt_def synthesize_answer_def)
  from hybrid_search_one_kind [of sample_env sample_llm sample_keys "sample_session True" "''q''" 6 5 2 sample_store] run
  show ?thesis by (intro exI conjI) (rule run, rule refl, blast)
qed

theorem hybrid_search_blind_under_rls_witness:
  "hybrid_search sample_env sample_llm sample_keys (sample_session False) ''q'' 2 5 2 sample_store =
     (let web = map FromWeb (fallback_web_search sample_llm sample_keys ''q'' 5)
      in Inr (web, if web \<noteq> [] then synthesize_answer sample_llm sample_keys ''q'' web else None))"
  using hybrid_search_blind_under_rls [of "sample_session False" sample_env "''q''" "[1]"] by simp

end
