(* ===== verification/Grading.thy ===== *)
theory Grading
  imports Models
begin

section \<open>Grading the relevance of chunks\<close>

text \<open>
  \<open>src/evaluation/service.py\<close>: the grading prompt, the parser of the model's answer, and the
  evaluation of a list of chunks.  The gateway is a parameter: a function of the prompt and of its
  own state.
\<close>

subsection \<open>The answer of the model\<close>

datatype relevance_grade = RELEVANT | AMBIGUOUS | NOT_RELEVANT

fun grade_value :: "relevance_grade \<Rightarrow> string" where
  "grade_value RELEVANT = ''relevant''"
| "grade_value AMBIGUOUS = ''ambiguous''"
| "grade_value NOT_RELEVANT = ''not_relevant''"

definition all_grades :: "relevance_grade list" where
  "all_grades = [RELEVANT, AMBIGUOUS, NOT_RELEVANT]"

fun first_grade :: "string \<Rightarrow> relevance_grade list \<Rightarrow> relevance_grade option" where
  "first_grade response [] = None"
| "first_grade response (g # gs) =
     (if startswith (lower response) (grade_value g) then Some g else first_grade response gs)"

definition parse_grade :: "string \<Rightarrow> relevance_grade \<times> string" where
  "parse_grade raw =
     (let response = strip raw
      in case first_grade response all_grades of
           Some g \<Rightarrow>
             (let parts = py_split1 ''|'' response
              in (g, if length parts > 1 then strip (parts ! 1) else ''''))
         | None \<Rightarrow> (AMBIGUOUS, ''Could not parse LLM response: '' @ take 100 response))"

lemma rstrip_Cons: "rstrip (c # s) = (if \<forall>x \<in> set (c # s). is_space x then [] else c # rstrip s)"
  by (auto simp: rstrip_def dropWhile_append dropWhile_eq_Nil_conv)

lemma rstrip_idem: "rstrip (rstrip s) = rstrip s"
  by (simp add: rstrip_def)

lemma strip_commute: "lstrip (rstrip s) = rstrip (lstrip s)"
proof (induction s)
  case (Cons c s)
  show ?case
  proof (cases "\<forall>x \<in> set (c # s). is_space x")
    case True
    then have "rstrip (c # s) = []" "lstrip (c # s) = []"
      by (simp_all add: rstrip_Nil_iff lstrip_def dropWhile_eq_Nil_conv)
    then show ?thesis by (simp only: \<open>rstrip (c # s) = []\<close> \<open>lstrip (c # s) = []\<close>) (simp add: lstrip_def rstrip_def)
  next
    case False
    then have "rstrip (c # s) = c # rstrip s" by (simp add: rstrip_Cons)
    then show ?thesis using Cons.IH by (simp add: lstrip_def)
  qed
qed (simp add: lstrip_def rstrip_def)

lemma strip_rstrip: "strip (rstrip s) = strip s"
  by (simp add: strip_def strip_commute rstrip_idem)

lemma rstrip_append_solid: "\<not> is_space c \<Longrightarrow> rstrip (s @ c # t) = s @ c # rstrip t"
  by (simp add: rstrip_def dropWhile_append)

lemma find_split_bar: "CHR ''|'' \<notin> set s \<Longrightarrow> find_split ''|'' (s @ CHR ''|'' # t) = Some (s, t)"
  by (induction s) auto

lemma lower_Cons_solid: "lower_char c = d \<Longrightarrow> (of_char d :: nat) \<in> {97..122} \<Longrightarrow> \<not> is_space c"
  by (auto simp: lower_char_def is_space_def Let_def split: if_splits)

lemma grade_value_letters: "d \<in> set (grade_value g) \<Longrightarrow> (of_char d :: nat) \<in> {95} \<union> {97..122}"
  by (cases g) auto

lemma first_grade_value: "lower s = grade_value g \<Longrightarrow> first_grade (s @ t) all_grades = Some g"
  by (cases g) (auto simp: all_grades_def startswith_def lower_def)

text \<open>
  An answer in the requested format is read back.  A grade in any mixture of
  upper and lower case, after any blanks, followed by a bar and a reasoning, is parsed as that
  grade and the reasoning without its surrounding blanks.
\<close>

theorem parse_grade_roundtrip:
  assumes "\<forall>c \<in> set blanks. is_space c" and "lower word = grade_value g"
  shows "parse_grade (blanks @ word @ ''|'' @ reasoning) = (g, strip reasoning)"
proof -
  obtain c cs where word: "word = c # cs" using assms(2) by (cases word; cases g) (auto simp: lower_def)
  then have "lower_char c = hd (grade_value g)" using assms(2) by (metis lower_def list.sel(1) list.simps(9))
  moreover have "(of_char (hd (grade_value g)) :: nat) \<in> {97..122}" by (cases g) simp_all
  ultimately have solid: "\<not> is_space c" by (intro lower_Cons_solid) auto
  have "dropWhile is_space (blanks @ t) = dropWhile is_space t" for t
    using assms(1) by (simp add: dropWhile_append1 dropWhile_append2)
  then have "lstrip (blanks @ word @ ''|'' @ reasoning) = word @ ''|'' @ reasoning"
    using solid word by (simp add: lstrip_def)
  moreover have "\<not> is_space (CHR ''|'')" by (simp add: is_space_def)
  ultimately have strip: "strip (blanks @ word @ ''|'' @ reasoning) = word @ ''|'' @ rstrip reasoning"
    by (simp add: strip_def rstrip_append_solid)
  have "CHR ''|'' \<notin> set word"
  proof
    assume "CHR ''|'' \<in> set word"
    then have "lower_char (CHR ''|'') \<in> set (lower word)" by (simp add: lower_def)
    then show False using grade_value_letters [of "lower_char (CHR ''|'')" g] assms(2)
      by (simp add: lower_char_def)
  qed
  then have "py_split1 ''|'' (word @ ''|'' @ rstrip reasoning) = [word, rstrip reasoning]"
    by (simp add: py_split1_def find_split_bar)
  then show ?thesis
    unfolding parse_grade_def strip Let_def
    using first_grade_value [OF assms(2), of "''|'' @ rstrip reasoning"] by (simp add: strip_rstrip)
qed

theorem parse_grade_roundtrip_witness:
  "parse_grade '' Not_Relevant| off topic '' = (NOT_RELEVANT, ''off topic'')"
proof -
  have "lower ''Not_Relevant'' = grade_value NOT_RELEVANT" by code_simp
  from parse_grade_roundtrip [OF _ this, of "'' ''" "'' off topic ''"] show ?thesis
    by (simp add: is_space_def strip_def lstrip_def rstrip_def)
qed

subsection \<open>Evaluating chunks\<close>

definition py_lines :: "string list \<Rightarrow> string" where
  "py_lines ls = concat (map (\<lambda>l. l @ [CHR 0x0A]) ls)"

definition grading_prompt :: "string \<Rightarrow> string \<Rightarrow> string" where \<open>
  grading_prompt query content = py_lines
    [''You are a relevance grading system. Your job is to evaluate whether a document chunk is relevant to a user''
       @ [CHR 0x27] @ ''s query.'',
     '''',
     ''Query: '' @ query,
     '''',
     ''Chunk content:'',
     ''---'',
     content,
     ''---'',
     '''',
     ''Grade the relevance of the chunk to the query. Respond with EXACTLY one of these three words followed by a pipe and a brief reasoning:'',
     '''',
     ''relevant|<reasoning>'',
     ''ambiguous|<reasoning>'',
     ''not_relevant|<reasoning>'',
     '''',
     ''Rules:'',
     ''- '' @ [CHR 0x22] @ ''relevant'' @ [CHR 0x22] @ '' means the chunk directly answers or is clearly useful for the query.'',
     ''- '' @ [CHR 0x22] @ ''ambiguous'' @ [CHR 0x22] @ '' means the chunk is partially related but may not fully answer the query.'',
     ''- '' @ [CHR 0x22] @ ''not_relevant'' @ [CHR 0x22] @ '' means the chunk has no meaningful connection to the query.'',
     ''- Your response must start with the grade, followed by a pipe character, followed by reasoning.'',
     ''- Do not include any other text.'']\<close>

record chunk_relevance =
  cr_chunk_id :: uuid
  cr_grade :: relevance_grade
  cr_reasoning :: string

text \<open>The dictionary of the rows: of two rows with one id the later one.\<close>

definition chunks_by_id :: "uuid list \<Rightarrow> uuid \<Rightarrow> database \<Rightarrow> uuid \<Rightarrow> chunk_row option" where
  "chunks_by_id chunk_ids tenant_id db =
     map_of (rev (map (\<lambda>c. (c_id c, c))
       (filter (\<lambda>c. c_id c \<in> set chunk_ids \<and> c_tenant_id c = tenant_id) (chunks db))))"

definition grade_chunk ::
  "(string \<Rightarrow> 'g \<Rightarrow> (exn, string) outcome \<times> 'g) \<Rightarrow> string \<Rightarrow> chunk_row \<Rightarrow> 'g \<Rightarrow> chunk_relevance \<times> 'g" where
  "grade_chunk gateway_complete query chunk gw =
     (let (answer, gw1) = gateway_complete (grading_prompt query (take 2000 (c_content chunk))) gw;
          (grade, reasoning) = (case answer of
             Inr response \<Rightarrow> parse_grade response
           | Inl e \<Rightarrow> (AMBIGUOUS, ''Evaluation failed: '' @ exn_str e))
      in (\<lparr>cr_chunk_id = c_id chunk, cr_grade = grade, cr_reasoning = reasoning\<rparr>, gw1))"

fun grade_chunks ::
  "(string \<Rightarrow> 'g \<Rightarrow> (exn, string) outcome \<times> 'g) \<Rightarrow> string \<Rightarrow> chunk_row list \<Rightarrow> 'g \<Rightarrow> chunk_relevance list \<times> 'g" where
  "grade_chunks gateway_complete query [] gw = ([], gw)"
| "grade_chunks gateway_complete query (c # cs) gw =
     (let (r, gw1) = grade_chunk gateway_complete query c gw;
          (rs, gw2) = grade_chunks gateway_complete query cs gw1
      in (r # rs, gw2))"

fun look_up_all :: "(uuid \<Rightarrow> chunk_row option) \<Rightarrow> uuid list \<Rightarrow> (exn, chunk_row list) outcome" where
  "look_up_all by_id [] = Inr []"
| "look_up_all by_id (cid # cids) =
     (case by_id cid of
        None \<Rightarrow> Inl (App (NotFoundError ''Chunk'' (uuid_str cid)))
      | Some c \<Rightarrow> try_bind (look_up_all by_id cids) (\<lambda>cs. Inr (c # cs)))"

definition evaluate_relevance ::
  "(string \<Rightarrow> 'g \<Rightarrow> (exn, string) outcome \<times> 'g) \<Rightarrow> string \<Rightarrow> uuid list \<Rightarrow> uuid \<Rightarrow> database \<Rightarrow> 'g \<Rightarrow>
     (exn, chunk_relevance list) outcome \<times> 'g" where
  "evaluate_relevance gateway_complete query chunk_ids tenant_id db gw =
     (case look_up_all (chunks_by_id chunk_ids tenant_id db) chunk_ids of
        Inl e \<Rightarrow> (Inl e, gw)
      | Inr cs \<Rightarrow> (case grade_chunks gateway_complete query cs gw of (rs, gw1) \<Rightarrow> (Inr rs, gw1)))"

lemma chunks_by_id_Some:
  assumes "chunk_ids.keyed db"
  shows "chunks_by_id cids t db cid = Some c \<longleftrightarrow> c \<in> set (chunks db) \<and> c_id c = cid \<and> cid \<in> set cids \<and> c_tenant_id c = t"
proof -
  let ?rows = "filter (\<lambda>c. c_id c \<in> set cids \<and> c_tenant_id c = t) (chunks db)"
  have "distinct (map c_id ?rows)" using assms by (simp add: chunk_ids.keyed_def distinct_map_filter)
  then have "distinct (map fst (rev (map (\<lambda>c. (c_id c, c)) ?rows)))"
    by (simp add: rev_map [symmetric] comp_def)
  from map_of_eq_Some_iff [OF this] show ?thesis by (auto simp: chunks_by_id_def)
qed

lemma look_up_all_eq:
  "look_up_all f cids =
    (case filter (\<lambda>cid. f cid = None) cids of
       [] \<Rightarrow> Inr (map (\<lambda>cid. the (f cid)) cids)
     | cid # _ \<Rightarrow> Inl (App (NotFoundError ''Chunk'' (uuid_str cid))))"
  by (induction cids) (auto split: option.split list.split)

lemma chunks_by_id_among:
  "chunks_by_id cids t db cid = Some c \<Longrightarrow> c \<in> set (chunks db) \<and> c_id c = cid \<and> c_tenant_id c = t"
  unfolding chunks_by_id_def by (auto dest!: map_of_SomeD)

lemma grade_chunks_ids:
  "map cr_chunk_id (fst (grade_chunks gwc query cs gw)) = map c_id cs"
  by (induction cs arbitrary: gw) (simp_all add: grade_chunk_def case_prod_beta Let_def)

text \<open>The prompts the gateway is given, in order.\<close>

definition logging :: "(string \<Rightarrow> 'g \<Rightarrow> (exn, string) outcome \<times> 'g) \<Rightarrow> string \<Rightarrow> 'g \<times> string list \<Rightarrow>
    (exn, string) outcome \<times> 'g \<times> string list" where
  "logging gwc prompt gw = (case gwc prompt (fst gw) of (r, g) \<Rightarrow> (r, g, snd gw @ [prompt]))"

lemma grade_chunks_prompts:
  "snd (snd (grade_chunks (logging gwc) query cs gw)) =
    snd gw @ map (\<lambda>c. grading_prompt query (take 2000 (c_content c))) cs"
  by (induction cs arbitrary: gw) (simp_all add: grade_chunk_def logging_def case_prod_beta Let_def)

text \<open>
  Claim C33 (functional): an evaluation grades each requested chunk, and only chunks of the tenant.
  If every requested id names a chunk of the tenant, the result has one grade per requested id, in
  the order of the request, however the gateway fails, and the model has seen the contents of
  these chunks and nothing else; otherwise the first other id is reported as not found and the
  model is not called at all.
\<close>

theorem evaluate_relevance_in_tenant:
  assumes "chunk_ids.keyed db"
  shows "(case filter (\<lambda>cid. \<not> (\<exists>c \<in> set (chunks db). c_id c = cid \<and> c_tenant_id c = tenant_id)) cids of
       cid # _ \<Rightarrow> evaluate_relevance (logging gwc) query cids tenant_id db gw =
         (Inl (App (NotFoundError ''Chunk'' (uuid_str cid))), gw)
     | [] \<Rightarrow> \<exists>rs gw' cs. evaluate_relevance (logging gwc) query cids tenant_id db gw = (Inr rs, gw') \<and>
         map cr_chunk_id rs = cids \<and> map c_id cs = cids \<and>
         set cs \<subseteq> {c \<in> set (chunks db). c_tenant_id c = tenant_id} \<and>
         snd gw' = snd gw @ map (\<lambda>c. grading_prompt query (take 2000 (c_content c))) cs)"
proof -
  let ?f = "chunks_by_id cids tenant_id db"
  have none: "?f cid = None \<longleftrightarrow> \<not> (\<exists>c \<in> set (chunks db). c_id c = cid \<and> c_tenant_id c = tenant_id)"
    if "cid \<in> set cids" for cid
    using that chunks_by_id_Some [OF assms, of cids tenant_id cid] by (metis option.exhaust_sel option.distinct(1))
  have missing: "filter (\<lambda>cid. ?f cid = None) cids =
      filter (\<lambda>cid. \<not> (\<exists>c \<in> set (chunks db). c_id c = cid \<and> c_tenant_id c = tenant_id)) cids"
    using none by (intro filter_cong) auto
  show ?thesis
  proof (cases "filter (\<lambda>cid. ?f cid = None) cids")
    case (Cons cid rest)
    then show ?thesis unfolding missing [symmetric] by (simp add: evaluate_relevance_def look_up_all_eq)
  next
    case Nil
    let ?cs = "map (\<lambda>cid. the (?f cid)) cids"
    have row: "the (?f cid) \<in> set (chunks db) \<and> c_id (the (?f cid)) = cid \<and> c_tenant_id (the (?f cid)) = tenant_id"
      if "cid \<in> set cids" for cid
      using Nil that chunks_by_id_Some [OF assms, of cids tenant_id cid "the (?f cid)"] by (auto simp: filter_empty_conv)
    then have ids: "map c_id ?cs = cids" by (simp add: map_idI)
    obtain rs gw' where run: "grade_chunks (logging gwc) query ?cs gw = (rs, gw')"
      by (cases "grade_chunks (logging gwc) query ?cs gw")
    have "evaluate_relevance (logging gwc) query cids tenant_id db gw = (Inr rs, gw')"
      using Nil run by (simp add: evaluate_relevance_def look_up_all_eq)
    moreover have "map cr_chunk_id rs = cids" using grade_chunks_ids [of "logging gwc" query ?cs gw] run ids by simp
    moreover have "snd gw' = snd gw @ map (\<lambda>c. grading_prompt query (take 2000 (c_content c))) ?cs"
      using grade_chunks_prompts [of gwc query ?cs gw] run by simp
    moreover have "set ?cs \<subseteq> {c \<in> set (chunks db). c_tenant_id c = tenant_id}" using row by auto
    ultimately show ?thesis
      unfolding missing [symmetric] Nil list.case using ids by (intro exI [of _ rs] exI [of _ gw'] exI [of _ ?cs] conjI)
  qed
qed

abbreviation sample_chunk :: "nat \<Rightarrow> nat \<Rightarrow> chunk_row" where
  "sample_chunk n t \<equiv> \<lparr>c_id = n, c_document_id = 10, c_user_id = 3, c_tenant_id = t, c_content = ''text'',
     c_page_number = None, c_chunk_index = 0, c_embedding = [], c_created_at = 0\<rparr>"

abbreviation sample_chunks_db :: database where
  "sample_chunks_db \<equiv> \<lparr>users = [], api_keys = [], refresh_tokens = [], organizations = [], memberships = [],
     invites = [], documents = [], chunks = [sample_chunk 7 2, sample_chunk 8 5], jobs = []\<rparr>"

theorem evaluate_relevance_in_tenant_witness:
  "(let gwc = (\<lambda>p g. (Inl (OtherError ''down''), g)) in
    (\<exists>rs gw'. evaluate_relevance (logging gwc) ''q'' [7] 2 sample_chunks_db ((), []) = (Inr rs, gw') \<and>
       map cr_chunk_id rs = [7] \<and> snd gw' = [grading_prompt ''q'' ''text'']) \<and>
    evaluate_relevance (logging gwc) ''q'' [7, 8] 2 sample_chunks_db ((), []) =
      (Inl (App (NotFoundError ''Chunk'' (uuid_str 8))), ((), [])))"
proof -
  have keyed: "chunk_ids.keyed sample_chunks_db" by (simp add: chunk_ids.keyed_def)
  let ?gwc = "\<lambda>p g. (Inl (OtherError ''down''), g :: unit)"
  have found: "filter (\<lambda>cid. \<not> (\<exists>c \<in> set (chunks sample_chunks_db). c_id c = cid \<and> c_tenant_id c = 2)) [7] = []"
    by simp
  from evaluate_relevance_in_tenant [OF keyed, where tenant_id = 2 and cids = "[7]" and gwc = ?gwc
      and query = "''q''" and gw = "((), [])", unfolded found list.case]
  obtain rs gw' cs where 1: "evaluate_relevance (logging ?gwc) ''q'' [7] 2 sample_chunks_db ((), []) = (Inr rs, gw')"
      "map cr_chunk_id rs = [7]" "map c_id cs = [7]"
      "set cs \<subseteq> {c \<in> set (chunks sample_chunks_db). c_tenant_id c = 2}"
      "snd gw' = snd ((), []) @ map (\<lambda>c. grading_prompt ''q'' (take 2000 (c_content c))) cs"
    by (elim exE conjE) (rule that)
  from 1(3,4) have "cs = [sample_chunk 7 2]" by (cases cs) auto
  with 1(5) have "snd gw' = [grading_prompt ''q'' ''text'']" by simp
  moreover have "evaluate_relevance (logging ?gwc) ''q'' [7, 8] 2 sample_chunks_db ((), []) =
      (Inl (App (NotFoundError ''Chunk'' (uuid_str 8))), ((), []))"
    using evaluate_relevance_in_tenant [OF keyed, where tenant_id = 2 and cids = "[7, 8]" and gwc = ?gwc
      and query = "''q''" and gw = "((), [])"] by simp
  ultimately show ?thesis
    unfolding Let_def using 1(1,2) by (intro conjI exI [of _ rs] exI [of _ gw'])
qed

end
