(* ===== verification/Breaker.thy ===== *)
theory Breaker
  imports Binary64 Decimal Exceptions Machine
begin

section \<open>The circuit breaker and the LLM gateway\<close>

text \<open>
  \<open>src/evaluation/llm_gateway.py\<close>.  Every method of the breaker runs under its lock, so a run of
  it is a sequence of calls; clock readings are those of \<open>time.monotonic()\<close>, a float.  The token
  bucket and the semaphore only delay a call.  The model (Gemini's client under \<open>wait_for\<close>) is a
  function from the number of the attempt to its answer; cancellation is not modelled.
\<close>

subsection \<open>The breaker\<close>

datatype circuit_state = CLOSED | OPEN | HALF_OPEN

fun circuit_state_str :: "circuit_state \<Rightarrow> string" where
  "circuit_state_str CLOSED = ''closed''"
| "circuit_state_str OPEN = ''open''"
| "circuit_state_str HALF_OPEN = ''half_open''"

record circuit_breaker =
  failure_threshold :: int
  recovery_timeout :: rat
  cb_state :: circuit_state
  failure_count :: int
  last_failure_time :: rat

definition new_breaker :: "int \<Rightarrow> rat \<Rightarrow> circuit_breaker" where
  "new_breaker threshold timeout =
     \<lparr>failure_threshold = threshold, recovery_timeout = timeout, cb_state = CLOSED, failure_count = 0,
      last_failure_time = 0\<rparr>"

definition circuit_open_error :: "rat \<Rightarrow> rat \<Rightarrow> exn" where
  "circuit_open_error timeout elapsed =
     App (ExternalServiceError ''LLM''
       (''Circuit breaker is OPEN. Retry after '' @ int_str (round_half_even (b64 (timeout - elapsed))) @ ''s.''))"

definition cb_check :: "rat \<Rightarrow> circuit_breaker \<Rightarrow> (exn, unit) outcome \<times> circuit_breaker" where
  "cb_check now cb =
     (case cb_state cb of
        CLOSED \<Rightarrow> (Inr (), cb)
      | OPEN \<Rightarrow>
          (let elapsed = b64 (now - last_failure_time cb)
           in if elapsed \<ge> recovery_timeout cb then (Inr (), cb \<lparr>cb_state := HALF_OPEN\<rparr>)
              else (Inl (circuit_open_error (recovery_timeout cb) elapsed), cb))
      | HALF_OPEN \<Rightarrow> (Inr (), cb))"

definition record_success :: "circuit_breaker \<Rightarrow> circuit_breaker" where
  "record_success cb = cb \<lparr>failure_count := 0, cb_state := CLOSED\<rparr>"

definition record_failure :: "rat \<Rightarrow> circuit_breaker \<Rightarrow> circuit_breaker" where
  "record_failure now cb =
     (let cb1 = cb \<lparr>failure_count := failure_count cb + 1, last_failure_time := now\<rparr>
      in if cb_state cb1 = HALF_OPEN then cb1 \<lparr>cb_state := OPEN\<rparr>
         else if failure_count cb1 \<ge> failure_threshold cb1 then cb1 \<lparr>cb_state := OPEN\<rparr>
         else cb1)"

text \<open>The calls on a breaker as events.\<close>

datatype cb_event = Check rat | Succeeded | Failed rat

definition breaker_step :: "cb_event \<Rightarrow> circuit_breaker \<Rightarrow> (exn, unit) outcome \<times> circuit_breaker" where
  "breaker_step e cb =
     (case e of
        Check now \<Rightarrow> cb_check now cb
      | Succeeded \<Rightarrow> (Inr (), record_success cb)
      | Failed now \<Rightarrow> (Inr (), record_failure now cb))"

subsection \<open>The specification over histories\<close>

text \<open>
  The abstract breaker remembers the calls, the latest first, and decides from them: a check is
  refused when the last \<open>threshold\<close> outcomes were failures and neither it nor an earlier check
  came \<open>timeout\<close> or more after the last of them.
\<close>

fun trailing_failures :: "cb_event list \<Rightarrow> int" where
  "trailing_failures [] = 0"
| "trailing_failures (Check _ # h) = trailing_failures h"
| "trailing_failures (Succeeded # h) = 0"
| "trailing_failures (Failed _ # h) = trailing_failures h + 1"

fun last_failure :: "cb_event list \<Rightarrow> rat" where
  "last_failure [] = 0"
| "last_failure (Failed now # h) = now"
| "last_failure (_ # h) = last_failure h"

fun probed :: "rat \<Rightarrow> cb_event list \<Rightarrow> bool" where
  "probed timeout [] = False"
| "probed timeout (Check now # h) \<longleftrightarrow> probed timeout h \<or> timeout \<le> b64 (now - last_failure h)"
| "probed timeout (_ # h) = False"

definition history_step :: "int \<Rightarrow> rat \<Rightarrow> cb_event \<Rightarrow> cb_event list \<Rightarrow> (exn, unit) outcome \<times> cb_event list" where
  "history_step threshold timeout e h =
     (case e of
        Check now \<Rightarrow>
          (if threshold \<le> trailing_failures h \<and> \<not> probed timeout (e # h)
           then Inl (circuit_open_error timeout (b64 (now - last_failure h))) else Inr (), e # h)
      | _ \<Rightarrow> (Inr (), e # h))"

definition breaker_rel :: "int \<Rightarrow> rat \<Rightarrow> circuit_breaker \<Rightarrow> cb_event list \<Rightarrow> bool" where
  "breaker_rel threshold timeout cb h \<longleftrightarrow>
     1 \<le> threshold \<and> failure_threshold cb = threshold \<and> recovery_timeout cb = timeout \<and>
     failure_count cb = trailing_failures h \<and> last_failure_time cb = last_failure h \<and>
     cb_state cb = (if trailing_failures h < threshold then CLOSED else if probed timeout h then HALF_OPEN else OPEN)"

lemma breaker_rel_step:
  assumes "breaker_rel threshold timeout cb h"
  shows "fst (breaker_step e cb) = fst (history_step threshold timeout e h) \<and>
    breaker_rel threshold timeout (snd (breaker_step e cb)) (snd (history_step threshold timeout e h))"
proof (cases e)
  case (Check now)
  with assms show ?thesis
    by (auto simp: breaker_rel_def breaker_step_def history_step_def cb_check_def Let_def)
next
  case Succeeded
  with assms show ?thesis
    by (simp add: breaker_rel_def breaker_step_def history_step_def record_success_def)
next
  case (Failed now)
  with assms show ?thesis
    by (auto simp: breaker_rel_def breaker_step_def history_step_def record_failure_def Let_def)
qed

interpretation breaker: machine_refinement breaker_step "history_step threshold timeout" "breaker_rel threshold timeout"
  for threshold timeout
  by unfold_locales (simp_all add: breaker_rel_step)

lemma breaker_rel_new: "1 \<le> threshold \<Longrightarrow> breaker_rel threshold timeout (new_breaker threshold timeout) []"
  by (simp add: breaker_rel_def new_breaker_def)

text \<open>
  Claim C16 (refinement): the breaker implements its specification over histories.  Whatever calls
  are made on a new breaker, in whatever order and at whatever times, every check gets the answer
  of the specification, and in the end the breaker is closed if and only if fewer than
  \<open>threshold\<close> failures have come since the last success.
\<close>

theorem breaker_refines_history:
  assumes "1 \<le> threshold"
  shows "outputs breaker_step es (new_breaker threshold timeout) = outputs (history_step threshold timeout) es [] \<and>
    (cb_state (final_state breaker_step es (new_breaker threshold timeout)) = CLOSED \<longleftrightarrow>
       trailing_failures (rev es) < threshold)"
proof -
  have "final_state (history_step threshold timeout) es h = rev es @ h" for h
    by (induction es arbitrary: h) (simp_all add: history_step_def split: cb_event.split)
  then have "breaker_rel threshold timeout (final_state breaker_step es (new_breaker threshold timeout)) (rev es)"
    using breaker.final_related [OF breaker_rel_new [OF assms, of timeout], where es = es] by simp
  then show ?thesis
    using breaker.same_outputs [OF breaker_rel_new [OF assms, of timeout], where es = es] by (simp add: breaker_rel_def)
qed

theorem breaker_refines_history_witness:
  "cb_state (final_state breaker_step [Failed 1, Check 2, Failed 3] (new_breaker 2 60)) \<noteq> CLOSED"
  using breaker_refines_history [of 2 "[Failed 1, Check 2, Failed 3]" 60] by simp

text \<open>
  A half-open breaker admits every request, not only one probe.  After the
  first check that follows the timeout, any number of further checks pass until an outcome is
  recorded.
\<close>

theorem half_open_admits_all:
  assumes "cb_state cb = OPEN" and "recovery_timeout cb \<le> b64 (now - last_failure_time cb)"
  shows "outputs breaker_step (map Check (now # later)) cb = replicate (Suc (length later)) (Inr ())"
proof -
  have "outputs breaker_step (map Check ts) c = replicate (length ts) (Inr ())" if "cb_state c = HALF_OPEN" for ts c
    using that by (induction ts) (simp_all add: breaker_step_def cb_check_def)
  with assms show ?thesis by (simp add: breaker_step_def cb_check_def)
qed

theorem half_open_admits_all_witness:
  "outputs breaker_step (map Check [60, 60, 60]) (record_failure 0 (new_breaker 1 60)) = replicate 3 (Inr ())"
proof -
  have "b64 (60 :: rat) = 60" using b64_of_nat [of 60] by simp
  then show ?thesis
    using half_open_admits_all [of "record_failure 0 (new_breaker 1 60)" 60 "[60, 60]"]
    by (simp add: record_failure_def new_breaker_def numeral_3_eq_3)
qed

subsection \<open>The gateway\<close>

text \<open>\<open>_inner\<close>: an answer without text is an error of its own.\<close>

definition inner_call :: "(exn, string option) outcome \<Rightarrow> (exn, string) outcome" where
  "inner_call answer =
     (case answer of
        Inl e \<Rightarrow> Inl e
      | Inr None \<Rightarrow> Inl (App (ExternalServiceError ''LLM'' ''Empty response from model.''))
      | Inr (Some s) \<Rightarrow>
          if s = '''' then Inl (App (ExternalServiceError ''LLM'' ''Empty response from model.'')) else Inr s)"

text \<open>
  Tenacity's loop: attempt \<open>n\<close> is the last one when \<open>n \<ge> max_retries\<close>, and then its exception is
  raised again.  The result comes with the number of attempts.
\<close>

function retry_from :: "int \<Rightarrow> (nat \<Rightarrow> (exn, string option) outcome) \<Rightarrow> nat \<Rightarrow> (exn, string) outcome \<times> nat" where
  "retry_from max_retries model n =
     (case inner_call (model n) of
        Inr s \<Rightarrow> (Inr s, n)
      | Inl e \<Rightarrow> if int n \<ge> max_retries then (Inl e, n) else retry_from max_retries model (Suc n))"
  by pat_completeness auto
termination
  by (relation "measure (\<lambda>(max_retries, model, n). nat (max_retries - int n))") auto

declare retry_from.simps [simp del]

definition call_with_retry :: "int \<Rightarrow> (nat \<Rightarrow> (exn, string option) outcome) \<Rightarrow> (exn, string) outcome \<times> nat" where
  "call_with_retry max_retries model = retry_from max_retries model 1"

text \<open>
  \<open>complete\<close>, with the times of its check and of its outcome.  It also returns the number of
  calls to the model.
\<close>

definition llm_complete ::
  "int \<Rightarrow> rat \<Rightarrow> rat \<Rightarrow> (nat \<Rightarrow> (exn, string option) outcome) \<Rightarrow> circuit_breaker \<Rightarrow>
     (exn, string) outcome \<times> nat \<times> circuit_breaker" where
  "llm_complete max_retries checked finished model cb =
     (case cb_check checked cb of
        (Inl e, cb1) \<Rightarrow> (Inl e, 0, cb1)
      | (Inr _, cb1) \<Rightarrow>
          (case call_with_retry max_retries model of
             (Inr s, calls) \<Rightarrow> (Inr s, calls, record_success cb1)
           | (Inl e, calls) \<Rightarrow>
               (Inl (App (ExternalServiceError ''LLM'' (exn_str e))), calls, record_failure finished cb1)))"

definition llm_failure_threshold :: int where "llm_failure_threshold = 5"
definition llm_recovery_timeout :: rat where "llm_recovery_timeout = 60"

definition new_gateway :: circuit_breaker where
  "new_gateway = new_breaker llm_failure_threshold llm_recovery_timeout"

lemma retry_from_spec:
  assumes "1 \<le> n"
  shows "n \<le> snd (retry_from k model n) \<and> int (snd (retry_from k model n)) \<le> max (int n) k \<and>
    fst (retry_from k model n) = inner_call (model (snd (retry_from k model n))) \<and>
    (\<forall>i. n \<le> i \<and> i < snd (retry_from k model n) \<longrightarrow> isl (inner_call (model i))) \<and>
    (isl (fst (retry_from k model n)) \<longrightarrow> int (snd (retry_from k model n)) = max (int n) k)"
  using assms
proof (induction k model n rule: retry_from.induct)
  case (1 k model n)
  show ?case
  proof (cases "inner_call (model n)")
    case (Inr s)
    then have "retry_from k model n = (Inr s, n)" by (subst retry_from.simps) simp
    with Inr show ?thesis by auto
  next
    case (Inl e)
    show ?thesis
    proof (cases "int n \<ge> k")
      case True
      with Inl have "retry_from k model n = (Inl e, n)" by (subst retry_from.simps) simp
      with Inl True show ?thesis by auto
    next
      case False
      then have eq: "retry_from k model n = retry_from k model (Suc n)"
        using Inl by (subst retry_from.simps) simp
      have "max (int (Suc n)) k = max (int n) k" using False by simp
      note IH = "1.IH" [OF Inl False, unfolded this, simplified]
      have "isl (inner_call (model i))" if "n \<le> i" "i < snd (retry_from k model (Suc n))" for i
        using that IH Inl by (cases "i = n") auto
      then show ?thesis unfolding eq using IH by auto
    qed
  qed
qed

text \<open>
  Claim C37 (bounds): a completion calls the model at most \<open>max_retries\<close> times, and at least once
  unless the breaker refuses it; the calls before the last one failed.  A returned text is the
  last answer, and resets the breaker; otherwise the last of all the calls failed as well, one
  failure is recorded, and the error is an \<open>ExternalServiceError\<close> with its message.
\<close>

theorem complete_calls_bounded:
  assumes "llm_complete max_retries checked finished model cb = (r, calls, cb')"
  shows "int calls \<le> max 1 max_retries \<and>
    (calls = 0 \<longleftrightarrow> isl (fst (cb_check checked cb))) \<and>
    (\<forall>i. 1 \<le> i \<and> i < calls \<longrightarrow> isl (inner_call (model i))) \<and>
    (\<forall>s. r = Inr s \<longrightarrow> inner_call (model calls) = Inr s \<and> cb_state cb' = CLOSED \<and> failure_count cb' = 0) \<and>
    (0 < calls \<longrightarrow> isl r \<longrightarrow> int calls = max 1 max_retries \<and>
       (\<exists>e. inner_call (model calls) = Inl e \<and> r = Inl (App (ExternalServiceError ''LLM'' (exn_str e)))) \<and>
       failure_count cb' = failure_count cb + 1 \<and> last_failure_time cb' = finished)"
proof (cases "cb_check checked cb")
  case (Pair c cb1)
  have count: "failure_count cb1 = failure_count cb"
    using Pair by (auto simp: cb_check_def Let_def split: circuit_state.splits if_splits)
  note attempts = retry_from_spec [of 1 max_retries model, simplified]
  show ?thesis
  proof (cases c)
    case (Inl e)
    with assms Pair show ?thesis by (auto simp: llm_complete_def)
  next
    case ok: (Inr u)
    obtain x n where run: "retry_from max_retries model 1 = (x, n)" by force
    then have inner: "inner_call (model n) = x" and n: "1 \<le> n" "int n \<le> max 1 max_retries"
      "\<forall>i. 1 \<le> i \<and> i < n \<longrightarrow> isl (inner_call (model i))" "isl x \<longrightarrow> int n = max 1 max_retries"
      using attempts by auto
    show ?thesis
    proof (cases x)
      case (Inr s)
      with assms Pair ok run have "r = Inr s" "calls = n" "cb' = record_success cb1"
        by (simp_all add: llm_complete_def call_with_retry_def)
      with inner n Inr Pair ok show ?thesis by (simp add: record_success_def)
    next
      case (Inl e)
      with assms Pair ok run have "r = Inl (App (ExternalServiceError ''LLM'' (exn_str e)))" "calls = n"
        "cb' = record_failure finished cb1"
        by (simp_all add: llm_complete_def call_with_retry_def)
      with inner n Inl Pair ok count show ?thesis by (simp add: record_failure_def Let_def)
    qed
  qed
qed

theorem complete_calls_bounded_witness:
  "(let (r, calls, cb') = llm_complete 3 0 1 (\<lambda>i. if i = 2 then Inr (Some ''ok'') else Inl (OtherError ''down'')) new_gateway
    in r = Inr ''ok'' \<and> calls = 2 \<and> cb_state cb' = CLOSED)"
proof -
  let ?m = "\<lambda>i. if i = 2 then Inr (Some ''ok'') else Inl (OtherError ''down'')"
  have "retry_from 3 ?m 1 = (Inr ''ok'', 2)"
    by (simp add: retry_from.simps inner_call_def)
  then have run: "llm_complete 3 0 1 ?m new_gateway = (Inr ''ok'', 2, record_success new_gateway)"
    by (simp add: llm_complete_def call_with_retry_def cb_check_def new_gateway_def new_breaker_def)
  from complete_calls_bounded [OF run] have "cb_state (record_success new_gateway) = CLOSED" by blast
  with run show ?thesis by simp
qed

end
