(* ===== verification/Platform.thy ===== *)
theory Platform
  imports AccountInvariant Documents Listing Retrieval Grading Breaker
begin

section \<open>The requests of the platform\<close>

text \<open>
  The endpoints of \<open>src/documents/routes.py\<close>, \<open>src/ingestion/routes.py\<close>,
  \<open>src/retrieval/routes.py\<close> and \<open>src/evaluation/routes.py\<close>, behind the same dependencies as the
  requests of \<open>Accounts.thy\<close> and after the validation of their bodies.  A request maps the
  database, the bucket, Redis and the LLM gateway to its reply and their new states; an exception
  rolls back the database only.  The database role is the one of the deployment, a superuser, to
  which row-level security does not apply; \<open>Rls.thy\<close> says what a session of another role sees.
\<close>

subsection \<open>Responses\<close>

record document_response =
  dr_id :: uuid
  dr_tenant_id :: uuid
  dr_filename :: string
  dr_status :: string
  dr_size_bytes :: nat
  dr_mime_type :: "string option"
  dr_chunk_count :: nat
  dr_content_hash :: string
  dr_created_at :: timestamp
  dr_updated_at :: timestamp

definition document_response :: "document \<Rightarrow> document_response" where
  "document_response d =
     \<lparr>dr_id = d_id d, dr_tenant_id = d_tenant_id d, dr_filename = d_filename d,
      dr_status = document_status_str (d_status d), dr_size_bytes = d_size_bytes d,
      dr_mime_type = d_mime_type d, dr_chunk_count = d_chunk_count d, dr_content_hash = d_content_hash d,
      dr_created_at = d_created_at d, dr_updated_at = d_updated_at d\<rparr>"

record job_response =
  jr_id :: uuid
  jr_document_id :: uuid
  jr_tenant_id :: uuid
  jr_status :: string
  jr_attempt_count :: nat
  jr_max_attempts :: nat
  jr_error_message :: "string option"
  jr_created_at :: timestamp
  jr_started_at :: "timestamp option"
  jr_completed_at :: "timestamp option"

definition job_response :: "job \<Rightarrow> job_response" where
  "job_response j =
     \<lparr>jr_id = j_id j, jr_document_id = j_document_id j, jr_tenant_id = j_tenant_id j,
      jr_status = job_status_str (j_status j), jr_attempt_count = j_attempt_count j,
      jr_max_attempts = j_max_attempts j, jr_error_message = j_error_message j,
      jr_created_at = j_created_at j, jr_started_at = j_started_at j, jr_completed_at = j_completed_at j\<rparr>"

record chunk_response =
  ch_id :: uuid
  ch_document_id :: uuid
  ch_content :: string
  ch_chunk_index :: nat
  ch_page_number :: "nat option"
  ch_created_at :: timestamp

definition chunk_response :: "chunk_row \<Rightarrow> chunk_response" where
  "chunk_response c =
     \<lparr>ch_id = c_id c, ch_document_id = c_document_id c, ch_content = c_content c,
      ch_chunk_index = c_chunk_index c, ch_page_number = c_page_number c, ch_created_at = c_created_at c\<rparr>"

record 'a page =
  items :: "'a list"
  next_cursor :: "string option"
  has_more :: bool

definition page_of :: "('r \<Rightarrow> 'a) \<Rightarrow> 'r list \<times> string option \<Rightarrow> 'a page" where
  "page_of response rows =
     \<lparr>items = map response (fst rows), next_cursor = snd rows, has_more = snd rows \<noteq> None\<rparr>"

record search_response =
  sr_query :: string
  sr_results :: "search_result list"
  sr_total :: nat
  sr_answer :: "string option"

record relevance_response =
  rr_query :: string
  rr_evaluations :: "chunk_relevance list"
  rr_model :: string
  rr_circuit_state :: circuit_state

subsection \<open>Requests, replies and the state they meet\<close>

datatype platform_request =
    UploadDocument string bytes "string option" string
  | ListDocuments "string option" int
  | GetDocument uuid
  | ListChunks uuid "string option" int
  | DeleteDocument uuid
  | ListJobs "string option" int
  | GetJob uuid
  | ListJobsForDocument uuid
  | HybridSearch string nat
  | SemanticSearch string nat
  | KeywordSearch string nat
  | EvaluateRelevance string "uuid list"

datatype platform_reply =
    Uploaded document_response uuid
  | DocumentPage "document_response page"
  | OneDocument document_response
  | ChunkPage "chunk_response page"
  | Deleted
  | JobPage "job_response page"
  | OneJob job_response
  | JobList "job_response list"
  | Found search_response
  | Evaluated relevance_response

text \<open>
  The gateway's parameters: its settings, the model, and, for the \<open>n\<close>-th completion, the times of
  the circuit breaker's readings.  Its state: the circuit breaker and the completions so far.
\<close>

record gateway_env =
  gw_model_name :: string
  gw_max_retries :: int
  gw_checked :: "nat \<Rightarrow> rat"
  gw_finished :: "nat \<Rightarrow> rat"
  gw_model :: "nat \<Rightarrow> string \<Rightarrow> nat \<Rightarrow> (exn, string option) outcome"

type_synonym gateway = "circuit_breaker \<times> nat"

definition gateway_complete :: "gateway_env \<Rightarrow> string \<Rightarrow> gateway \<Rightarrow> (exn, string) outcome \<times> gateway" where
  "gateway_complete env prompt g =
     (case llm_complete (gw_max_retries env) (gw_checked env (snd g)) (gw_finished env (snd g))
             (gw_model env (snd g) prompt) (fst g) of
        (x, calls, cb) \<Rightarrow> (x, cb, Suc (snd g)))"

record platform_context =
  px_request :: context_of_request
  px_upload :: upload_env
  px_now :: timestamp
  px_driver :: driver
  px_search :: search_env
  px_llm :: llm_services
  px_keys :: search_settings
  px_multiplier :: nat
  px_gateway :: gateway_env

record platform =
  pf_database :: database
  pf_bucket :: bucket
  pf_redis :: redis
  pf_gateway :: gateway

text \<open>The session of a request after \<open>get_current_tenant\<close>.\<close>

definition request_session :: "uuid \<Rightarrow> db_session" where
  "request_session tenant_id =
     set_tenant_context tenant_id \<lparr>app_current_tenant = None, app_worker_mode = False, bypasses_rls = True\<rparr>"

subsection \<open>The endpoints\<close>

text \<open>The endpoints that only read, router by router.\<close>

fun document_reply :: "platform_context \<Rightarrow> platform_request \<Rightarrow> uuid \<Rightarrow> database \<Rightarrow> (exn, platform_reply) outcome" where
  "document_reply px (ListDocuments cursor limit) t db =
     try_bind (list_documents (px_driver px) t db cursor (min limit 100)) (\<lambda>docs.
       Inr (DocumentPage (page_of document_response docs)))"
| "document_reply px (GetDocument document_id) t db =
     try_bind (get_document document_id t db) (\<lambda>doc. Inr (OneDocument (document_response doc)))"
| "document_reply px (ListChunks document_id cursor limit) t db =
     try_bind (get_document document_id t db) (\<lambda>_.
       try_bind (list_chunks (px_driver px) document_id t db cursor (min limit 100)) (\<lambda>cs.
         Inr (ChunkPage (page_of chunk_response cs))))"
| "document_reply px _ t db = Inl (OtherError ''not an endpoint of this router'')"

fun job_reply :: "platform_context \<Rightarrow> platform_request \<Rightarrow> uuid \<Rightarrow> database \<Rightarrow> (exn, platform_reply) outcome" where
  "job_reply px (ListJobs cursor limit) t db =
     try_bind (list_jobs (px_driver px) t db cursor (min limit 100)) (\<lambda>js.
       Inr (JobPage (page_of job_response js)))"
| "job_reply px (GetJob job_id) t db =
     try_bind (get_job job_id t db) (\<lambda>found.
       case found of
         None \<Rightarrow> Inl (App (NotFoundError ''IngestionJob'' (uuid_str job_id)))
       | Some j \<Rightarrow> Inr (OneJob (job_response j)))"
| "job_reply px (ListJobsForDocument document_id) t db =
     Inr (JobList (map job_response (list_jobs_for_document document_id t db)))"
| "job_reply px _ t db = Inl (OtherError ''not an endpoint of this router'')"

fun search_reply :: "platform_context \<Rightarrow> platform_request \<Rightarrow> uuid \<Rightarrow> database \<Rightarrow> (exn, platform_reply) outcome" where
  "search_reply px (HybridSearch query top_k) t db =
     try_bind (hybrid_search (px_search px) (px_llm px) (px_keys px) (request_session t) query t top_k
         (px_multiplier px) db) (\<lambda>(results, answer).
       Inr (Found \<lparr>sr_query = query, sr_results = results, sr_total = length results, sr_answer = answer\<rparr>))"
| "search_reply px (SemanticSearch query top_k) t db =
     try_bind (dense_search (px_search px) (request_session t) query t top_k db) (\<lambda>results.
       Inr (Found \<lparr>sr_query = query, sr_results = map Internal results, sr_total = length results, sr_answer = None\<rparr>))"
| "search_reply px (KeywordSearch query top_k) t db =
     (let results = sparse_search (px_search px) (request_session t) query t top_k db
      in Inr (Found \<lparr>sr_query = query, sr_results = map Internal results, sr_total = length results, sr_answer = None\<rparr>))"
| "search_reply px _ t db = Inl (OtherError ''not an endpoint of this router'')"

definition read_reply :: "platform_context \<Rightarrow> platform_request \<Rightarrow> uuid \<Rightarrow> database \<Rightarrow> (exn, platform_reply) outcome" where
  "read_reply px req t db =
     (case req of
        ListDocuments _ _ \<Rightarrow> document_reply px req t db
      | GetDocument _ \<Rightarrow> document_reply px req t db
      | ListChunks _ _ _ \<Rightarrow> document_reply px req t db
      | ListJobs _ _ \<Rightarrow> job_reply px req t db
      | GetJob _ \<Rightarrow> job_reply px req t db
      | ListJobsForDocument _ \<Rightarrow> job_reply px req t db
      | HybridSearch _ _ \<Rightarrow> search_reply px req t db
      | SemanticSearch _ _ \<Rightarrow> search_reply px req t db
      | KeywordSearch _ _ \<Rightarrow> search_reply px req t db
      | _ \<Rightarrow> Inl (OtherError ''not an endpoint that only reads''))"

lemmas read_reply_simps [simp] = read_reply_def [of _ "ListDocuments cursor limit" for cursor limit, simplified]
  read_reply_def [of _ "GetDocument did" for did, simplified]
  read_reply_def [of _ "ListChunks did cursor limit" for did cursor limit, simplified]
  read_reply_def [of _ "ListJobs cursor limit" for cursor limit, simplified]
  read_reply_def [of _ "GetJob jid" for jid, simplified]
  read_reply_def [of _ "ListJobsForDocument did" for did, simplified]
  read_reply_def [of _ "HybridSearch query top_k" for query top_k, simplified]
  read_reply_def [of _ "SemanticSearch query top_k" for query top_k, simplified]
  read_reply_def [of _ "KeywordSearch query top_k" for query top_k, simplified]
  read_reply_def [of _ "UploadDocument name content type key" for name content type key, simplified]
  read_reply_def [of _ "DeleteDocument did" for did, simplified]
  read_reply_def [of _ "EvaluateRelevance query cids" for query cids, simplified]

text \<open>Between the checks of an upload and its insert no other transaction commits.\<close>

definition alone :: "upload_env \<Rightarrow> upload_env" where
  "alone env = env \<lparr>others := id\<rparr>"

definition upload_endpoint ::
  "platform_context \<Rightarrow> string \<Rightarrow> bytes \<Rightarrow> string option \<Rightarrow> string \<Rightarrow> user \<Rightarrow> tenant_context \<Rightarrow> database \<Rightarrow> bucket \<Rightarrow>
     (exn, platform_reply) outcome \<times> database \<times> bucket" where
  "upload_endpoint px filename content content_type idempotency_key user tenant db bkt =
     (case require_role (tc_role tenant) {Admin, Editor} of
        Inl e \<Rightarrow> (Inl e, db, bkt)
      | Inr _ \<Rightarrow>
          (case upload_document (alone (px_upload px))
                  \<lparr>up_filename = (if filename = '''' then ''untitled'' else filename), up_content = content,
                   up_mime_type = content_type, up_idempotency_key = idempotency_key,
                   up_user_id = u_id user, up_tenant_id = tc_org_id tenant\<rparr> db bkt of
             (Inl e, db1, bkt1) \<Rightarrow> (Inl e, db1, bkt1)
           | (Inr (document, job), db1, bkt1) \<Rightarrow>
               (Inr (Uploaded (document_response document) (j_id job)), db1, bkt1)))"

definition delete_endpoint ::
  "platform_context \<Rightarrow> uuid \<Rightarrow> tenant_context \<Rightarrow> database \<Rightarrow> bucket \<Rightarrow>
     (exn, platform_reply) outcome \<times> database \<times> bucket" where
  "delete_endpoint px document_id tenant db bkt =
     (case require_role (tc_role tenant) {Admin, Editor} of
        Inl e \<Rightarrow> (Inl e, db, bkt)
      | Inr _ \<Rightarrow>
          (case soft_delete_document (px_now px) (delete_error (px_upload px)) document_id (tc_org_id tenant) db bkt of
             (Inl e, db1, bkt1) \<Rightarrow> (Inl e, db1, bkt1)
           | (Inr _, db1, bkt1) \<Rightarrow> (Inr Deleted, db1, bkt1)))"

definition evaluate_endpoint ::
  "platform_context \<Rightarrow> string \<Rightarrow> uuid list \<Rightarrow> uuid \<Rightarrow> database \<Rightarrow> gateway \<Rightarrow> (exn, platform_reply) outcome \<times> gateway" where
  "evaluate_endpoint px query chunk_ids t db g =
     (case evaluate_relevance (gateway_complete (px_gateway px)) query chunk_ids t db g of
        (Inl e, g1) \<Rightarrow> (Inl e, g1)
      | (Inr evaluations, g1) \<Rightarrow>
          (Inr (Evaluated \<lparr>rr_query = query, rr_evaluations = evaluations,
                 rr_model = gw_model_name (px_gateway px), rr_circuit_state = cb_state (fst g1)\<rparr>), g1))"

text \<open>The endpoint with the user and the tenant resolved.\<close>

definition dispatch ::
  "platform_context \<Rightarrow> platform_request \<Rightarrow> user \<Rightarrow> tenant_context \<Rightarrow> database \<Rightarrow> bucket \<Rightarrow> redis \<Rightarrow> gateway \<Rightarrow>
     (exn, platform_reply) outcome \<times> platform" where
  "dispatch px req user tenant db bkt r g =
     (case req of
        UploadDocument filename content content_type key \<Rightarrow>
          (case upload_endpoint px filename content content_type key user tenant db bkt of
             (x, db1, bkt1) \<Rightarrow> (x, \<lparr>pf_database = db1, pf_bucket = bkt1, pf_redis = r, pf_gateway = g\<rparr>))
      | DeleteDocument document_id \<Rightarrow>
          (case delete_endpoint px document_id tenant db bkt of
             (x, db1, bkt1) \<Rightarrow> (x, \<lparr>pf_database = db1, pf_bucket = bkt1, pf_redis = r, pf_gateway = g\<rparr>))
      | EvaluateRelevance query chunk_ids \<Rightarrow>
          (case evaluate_endpoint px query chunk_ids (tc_org_id tenant) db g of
             (x, g1) \<Rightarrow> (x, \<lparr>pf_database = db, pf_bucket = bkt, pf_redis = r, pf_gateway = g1\<rparr>))
      | _ \<Rightarrow> (read_reply px req (tc_org_id tenant) db,
              \<lparr>pf_database = db, pf_bucket = bkt, pf_redis = r, pf_gateway = g\<rparr>))"

definition serve_platform ::
  "platform_context \<Rightarrow> platform_request \<Rightarrow> platform \<Rightarrow> (exn, platform_reply) outcome \<times> platform" where
  "serve_platform px req w =
     (let cx = px_request px
      in case get_current_user (cx_crypto cx) (cx_settings cx) (env_now (cx_env cx)) (cx_credentials cx) (pf_database w) of
           (Inl e, db1) \<Rightarrow>
             (Inl e, \<lparr>pf_database = db1, pf_bucket = pf_bucket w, pf_redis = pf_redis w, pf_gateway = pf_gateway w\<rparr>)
         | (Inr user, db1) \<Rightarrow>
             (case get_current_tenant (cx_limits cx) (cx_outage cx) (env_now (cx_env cx)) (cx_tenant_header cx) user db1
                     (pf_redis w) of
                (Inl e, r1) \<Rightarrow>
                  (Inl e, \<lparr>pf_database = db1, pf_bucket = pf_bucket w, pf_redis = r1, pf_gateway = pf_gateway w\<rparr>)
              | (Inr tenant, r1) \<Rightarrow> dispatch px req user tenant db1 (pf_bucket w) r1 (pf_gateway w)))"

text \<open>\<open>get_db_session\<close> commits on return and rolls back on an exception.\<close>

definition handle_platform ::
  "platform_context \<Rightarrow> platform_request \<Rightarrow> platform \<Rightarrow> (exn, platform_reply) outcome \<times> platform" where
  "handle_platform px req w =
     (case serve_platform px req w of
        (Inl e, w1) \<Rightarrow> (Inl e, \<lparr>pf_database = pf_database w, pf_bucket = pf_bucket w1, pf_redis = pf_redis w1,
                               pf_gateway = pf_gateway w1\<rparr>)
      | (Inr x, w1) \<Rightarrow> (Inr x, w1))"

subsection \<open>A sample context\<close>

abbreviation sample_gateway :: gateway_env where
  "sample_gateway \<equiv> \<lparr>gw_model_name = ''m'', gw_max_retries = 3, gw_checked = (\<lambda>n. 0), gw_finished = (\<lambda>n. 1),
     gw_model = (\<lambda>n prompt attempt. Inr (Some ''relevant''))\<rparr>"

abbreviation sample_px :: platform_context where
  "sample_px \<equiv> \<lparr>px_request = (sample_cx (AccountInvariant.sample_env 6 ''r'' 0) (Some (''eyJ'' @ uuid_str 3)))\<lparr>cx_outage := ErrorBeforeRun\<rparr>,
     px_upload = sample_upload_env, px_now = 0, px_driver = sample_driver, px_search = Retrieval.sample_env,
     px_llm = sample_llm, px_keys = sample_keys, px_multiplier = 2, px_gateway = sample_gateway\<rparr>"

end
