(* ===== verification/PlatformInvariant.thy ===== *)
theory PlatformInvariant
  imports Platform
begin

section \<open>Requests stay within their tenant\<close>

text \<open>
  The invariant of the documents, chunks and jobs under the requests of \<open>Platform.thy\<close>, and what a
  request shows and changes: rows of the tenant it acts for, and nothing else.
\<close>

subsection \<open>The invariant\<close>

definition tenants_agree :: "database \<Rightarrow> bool" where
  "tenants_agree db \<longleftrightarrow>
     (\<forall>j \<in> set (jobs db). \<exists>d \<in> set (documents db). d_id d = j_document_id j \<and> d_tenant_id d = j_tenant_id j) \<and>
     (\<forall>c \<in> set (chunks db). \<exists>d \<in> set (documents db). d_id d = c_document_id c \<and> d_tenant_id d = c_tenant_id c)"

definition objects_named :: "database \<Rightarrow> bool" where
  "objects_named db \<longleftrightarrow>
     (\<forall>d \<in> set (documents db). d_storage_key d = None \<or>
        d_storage_key d = Some (upload_key (d_tenant_id d) (d_id d) (d_filename d)))"

definition platform_wf :: "database \<Rightarrow> bool" where
  "platform_wf db \<longleftrightarrow> documents_wf db \<and> tenants_agree db \<and> objects_named db"

lemma tenants_agree_iff:
  "tenants_agree db \<longleftrightarrow>
     (\<forall>j \<in> set (jobs db). (j_document_id j, j_tenant_id j) \<in> (\<lambda>d. (d_id d, d_tenant_id d)) ` set (documents db)) \<and>
     (\<forall>c \<in> set (chunks db). (c_document_id c, c_tenant_id c) \<in> (\<lambda>d. (d_id d, d_tenant_id d)) ` set (documents db))"
  by (auto simp: tenants_agree_def image_iff) metis+

subsection \<open>What a reply shows\<close>

fun reply_within :: "uuid \<Rightarrow> database \<Rightarrow> platform_reply \<Rightarrow> bool" where
  "reply_within t db (Uploaded r job) \<longleftrightarrow>
     (\<exists>d \<in> set (documents db). d_tenant_id d = t \<and> r = document_response d \<and>
        (\<exists>j \<in> set (jobs db). j_id j = job \<and> j_document_id j = d_id d \<and> j_tenant_id j = t))"
| "reply_within t db (DocumentPage p) \<longleftrightarrow>
     (\<forall>r \<in> set (items p). \<exists>d \<in> set (documents db). d_tenant_id d = t \<and> d_deleted_at d = None \<and> r = document_response d)"
| "reply_within t db (OneDocument r) \<longleftrightarrow>
     (\<exists>d \<in> set (documents db). d_tenant_id d = t \<and> d_deleted_at d = None \<and> r = document_response d)"
| "reply_within t db (ChunkPage p) \<longleftrightarrow>
     (\<forall>r \<in> set (items p). \<exists>c \<in> set (chunks db). c_tenant_id c = t \<and> r = chunk_response c)"
| "reply_within t db Deleted \<longleftrightarrow> True"
| "reply_within t db (JobPage p) \<longleftrightarrow>
     (\<forall>r \<in> set (items p). \<exists>j \<in> set (jobs db). j_tenant_id j = t \<and> r = job_response j)"
| "reply_within t db (OneJob r) \<longleftrightarrow> (\<exists>j \<in> set (jobs db). j_tenant_id j = t \<and> r = job_response j)"
| "reply_within t db (JobList rs) \<longleftrightarrow>
     (\<forall>r \<in> set rs. \<exists>j \<in> set (jobs db). j_tenant_id j = t \<and> r = job_response j)"
| "reply_within t db (Found s) \<longleftrightarrow> (\<forall>c. Internal c \<in> set (sr_results s) \<longrightarrow> shows_live_chunk t db c)"
| "reply_within t db (Evaluated s) \<longleftrightarrow>
     (\<forall>r \<in> set (rr_evaluations s). \<exists>c \<in> set (chunks db). c_id c = cr_chunk_id r \<and> c_tenant_id c = t)"

text \<open>The rows of the other tenants.\<close>

definition foreign :: "uuid \<Rightarrow> database \<Rightarrow> document list \<times> chunk_row list \<times> job list" where
  "foreign t db = (filter (\<lambda>d. d_tenant_id d \<noteq> t) (documents db), filter (\<lambda>c. c_tenant_id c \<noteq> t) (chunks db),
     filter (\<lambda>j. j_tenant_id j \<noteq> t) (jobs db))"

lemma page_items: "items (page_of f rows) = map f (fst rows)"
  by (simp add: page_of_def)

lemma get_document_among:
  assumes "get_document did t db = Inr d"
  shows "d \<in> set (documents db) \<and> d_id d = did \<and> d_tenant_id d = t \<and> d_deleted_at d = None"
proof -
  from assms have "scalar_one_or_none (filter (\<lambda>d. d_id d = did \<and> (d_tenant_id d = t \<and> d_deleted_at d = None)) (documents db)) =
      Inr (Some d)"
    by (auto simp: get_document_def dest!: try_bind_InrD split: option.splits)
  then have "filter (\<lambda>d. d_id d = did \<and> (d_tenant_id d = t \<and> d_deleted_at d = None)) (documents db) = [d]"
    by (simp add: scalar_one_or_none_Some)
  then have "d \<in> set (filter (\<lambda>d. d_id d = did \<and> (d_tenant_id d = t \<and> d_deleted_at d = None)) (documents db))" by simp
  then show ?thesis by simp
qed

lemma get_job_among:
  assumes "get_job jid t db = Inr (Some j)"
  shows "j \<in> set (jobs db) \<and> j_id j = jid \<and> j_tenant_id j = t"
proof -
  from assms have "filter (\<lambda>j. j_id j = jid \<and> j_tenant_id j = t) (jobs db) = [j]"
    by (simp add: get_job_def scalar_one_or_none_Some)
  then have "j \<in> set (filter (\<lambda>j. j_id j = jid \<and> j_tenant_id j = t) (jobs db))" by simp
  then show ?thesis by simp
qed

lemma evaluate_relevance_among:
  assumes "evaluate_relevance gwc query cids t db g = (Inr rs, g')" and "r \<in> set rs"
  shows "\<exists>c \<in> set (chunks db). c_id c = cr_chunk_id r \<and> c_tenant_id c = t"
proof -
  let ?f = "chunks_by_id cids t db"
  from assms(1) obtain cs where cs: "look_up_all ?f cids = Inr cs" and rs: "rs = fst (grade_chunks gwc query cs g)"
    by (auto simp: evaluate_relevance_def split: sum.splits prod.splits)
  from cs have found: "\<forall>cid \<in> set cids. ?f cid \<noteq> None" and "cs = map (\<lambda>cid. the (?f cid)) cids"
    by (auto simp: look_up_all_eq filter_empty_conv split: list.splits)
  moreover from assms(2) have "cr_chunk_id r \<in> c_id ` set cs"
    using grade_chunks_ids [of gwc query cs g] unfolding rs by (metis image_eqI list.set_map)
  ultimately obtain cid c where "cid \<in> set cids" "?f cid = Some c" "cr_chunk_id r = c_id c" by auto
  with chunks_by_id_among [of cids t db cid c] show ?thesis by auto
qed

text \<open>Reading.\<close>

lemma read_reply_within:
  assumes "read_reply px req t db = Inr x"
  shows "reply_within t db x"
proof (cases req)
  case (ListDocuments cursor limit)
  with assms obtain page n where "list_documents (px_driver px) t db cursor (min limit 100) = Inr (page, n)"
    "x = DocumentPage (page_of document_response (page, n))" by (auto dest!: try_bind_InrD)
  with list_documents_among show ?thesis by (fastforce simp: page_items)
next
  case (GetDocument did)
  with assms obtain d where "get_document did t db = Inr d" "x = OneDocument (document_response d)"
    by (auto dest!: try_bind_InrD)
  with get_document_among show ?thesis by fastforce
next
  case (ListChunks did cursor limit)
  with assms obtain page n where "list_chunks (px_driver px) did t db cursor (min limit 100) = Inr (page, n)"
    "x = ChunkPage (page_of chunk_response (page, n))" by (auto dest!: try_bind_InrD)
  with list_chunks_among show ?thesis by (fastforce simp: page_items)
next
  case (ListJobs cursor limit)
  with assms obtain page n where "list_jobs (px_driver px) t db cursor (min limit 100) = Inr (page, n)"
    "x = JobPage (page_of job_response (page, n))" by (auto dest!: try_bind_InrD)
  with list_jobs_among show ?thesis by (fastforce simp: page_items)
next
  case (GetJob jid)
  with assms obtain j where "get_job jid t db = Inr (Some j)" "x = OneJob (job_response j)"
    by (auto dest!: try_bind_InrD split: option.splits)
  with get_job_among show ?thesis by fastforce
next
  case (ListJobsForDocument did)
  with assms show ?thesis by (auto simp: list_jobs_for_document_def order_by_desc_def)
next
  case (HybridSearch query top_k)
  with assms obtain rs answer where "hybrid_search (px_search px) (px_llm px) (px_keys px) (request_session t) query t
      top_k (px_multiplier px) db = Inr (rs, answer)" "x = Found \<lparr>sr_query = query, sr_results = rs, sr_total = length rs, sr_answer = answer\<rparr>"
    by (auto dest!: try_bind_InrD)
  with hybrid_search_live show ?thesis by (simp; metis)
next
  case (SemanticSearch query top_k)
  with assms obtain rs where "dense_search (px_search px) (request_session t) query t top_k db = Inr rs"
    "x = Found \<lparr>sr_query = query, sr_results = map Internal rs, sr_total = length rs, sr_answer = None\<rparr>"
    by (auto dest!: try_bind_InrD)
  with dense_search_live show ?thesis by (fastforce simp: list_all_iff)
next
  case (KeywordSearch query top_k)
  with assms sparse_search_live [of t db "px_search px" "request_session t" query top_k] show ?thesis
    by (auto simp: list_all_iff Let_def)
qed (use assms in auto)

subsection \<open>Uploads and deletions\<close>

lemma found_within:
  assumes "platform_wf db" and "find_existing_upload h k t db = Inr (Some (d, j))"
  shows "d \<in> set (documents db) \<and> d_tenant_id d = t \<and> j \<in> set (jobs db) \<and> j_document_id j = d_id d \<and> j_tenant_id j = t"
proof -
  have keyed: "document_ids.keyed db" and agree: "tenants_agree db"
    using assms(1) by (simp_all add: platform_wf_def documents_wf_def)
  from try_bind_InrD [OF assms(2) [unfolded find_existing_upload_def]] obtain found where
    found: "by_idempotency_key k t db = Inr found" and
    rest: "(case found of None \<Rightarrow> by_content_hash h t db | Some r \<Rightarrow> Inr (Some r)) = Inr (Some (d, j))"
    by (auto split: option.splits)
  show ?thesis
  proof (cases found)
    case (Some r)
    with rest found have "by_idempotency_key k t db = Inr (Some (d, j))" by simp
    then have "scalar_one_or_none (filter (\<lambda>j. (j_tenant_id j, j_idempotency_key j) = (t, k)) (jobs db)) = Inr (Some j)"
      and row: "get_document_row (j_document_id j) db = Some d"
      unfolding by_idempotency_key_def by (auto dest!: try_bind_InrD split: option.splits)
    then have "filter (\<lambda>j. (j_tenant_id j, j_idempotency_key j) = (t, k)) (jobs db) = [j]"
      by (simp only: scalar_one_or_none_Some)
    then have "j \<in> set (filter (\<lambda>j. (j_tenant_id j, j_idempotency_key j) = (t, k)) (jobs db))" by simp
    then have j: "j \<in> set (jobs db)" "j_tenant_id j = t" by simp_all
    have d: "d \<in> set (documents db)" "d_id d = j_document_id j"
      using scalars_first_in [OF row [unfolded get_document_row_def]] by auto
    from agree j(1) obtain e where "e \<in> set (documents db)" "d_id e = j_document_id j" "d_tenant_id e = j_tenant_id j"
      unfolding tenants_agree_def by blast
    with document_ids.unique [OF keyed d(1)] d(2) j d(1) show ?thesis by metis
  next
    case None
    with rest have "by_content_hash h t db = Inr (Some (d, j))" by simp
    then have "scalar_one_or_none (filter (\<lambda>d. (d_tenant_id d, d_content_hash d) = (t, h) \<and> d_deleted_at d = None)
        (documents db)) = Inr (Some d)"
      and row: "scalars_first (order_by_desc j_created_at
        (filter (\<lambda>j. j_document_id j = d_id d \<and> j_tenant_id j = t) (jobs db))) = Some j"
      unfolding by_content_hash_def by (auto dest!: try_bind_InrD split: option.splits)
    then have "filter (\<lambda>d. (d_tenant_id d, d_content_hash d) = (t, h) \<and> d_deleted_at d = None) (documents db) = [d]"
      by (simp only: scalar_one_or_none_Some)
    then have "d \<in> set (filter (\<lambda>d. (d_tenant_id d, d_content_hash d) = (t, h) \<and> d_deleted_at d = None) (documents db))"
      by simp
    moreover from scalars_first_in [OF row] have "j \<in> set (jobs db)" "j_document_id j = d_id d" "j_tenant_id j = t"
      by (auto simp: order_by_desc_def)
    ultimately show ?thesis by simp
  qed
qed

lemma upload_key_prefix: "startswith (upload_key t d f) (uuid_str t)"
  by (simp add: upload_key_def startswith_def)

text \<open>An upload touches one object, whatever happens.\<close>

lemma upload_document_bucket:
  assumes "upload_document env req db bkt = (x, db', bkt')"
    and "key \<noteq> upload_key (up_tenant_id req) (new_document_id env) (up_filename req)"
  shows "bkt' key = bkt key"
  using assms
  by (auto simp: upload_document_def Let_def storage_upload_def storage_delete_def
      split: sum.splits option.splits prod.splits exn.splits if_splits)

lemma inserted_wf:
  assumes "platform_wf db" and "insert_upload env req db = Inr db'"
  shows "platform_wf db'"
proof -
  note rows = insert_upload_Inr [OF assms(2)]
  from assms(2) obtain db1 where 1: "insert_document (uploaded_document env req) db = Inr db1"
    and 2: "insert_job (uploaded_job env req) db1 = Inr db'"
    unfolding insert_upload_def by (auto dest: try_bind_InrD)
  have cs: "chunks db' = chunks db" using 1 2 by (auto simp: insert_document_def insert_job_def)
  have "tenants_agree db'"
    using assms(1) unfolding platform_wf_def tenants_agree_def rows cs
    by (auto simp: uploaded_document_def uploaded_job_def)
  moreover have "objects_named db'"
    using assms(1) unfolding platform_wf_def objects_named_def rows by (auto simp: uploaded_document_def)
  ultimately show ?thesis
    using insert_upload_wf [OF _ assms(2)] assms(1) by (simp add: platform_wf_def)
qed

text \<open>What a returned upload leaves and shows.\<close>

lemma upload_within:
  assumes "platform_wf db" and "upload_document (alone env) req db bkt = (Inr (d, j), db', bkt')"
  shows "platform_wf db' \<and> foreign (up_tenant_id req) db' = foreign (up_tenant_id req) db \<and>
    reply_within (up_tenant_id req) db' (Uploaded (document_response d) (j_id j))"
proof -
  have others: "others (alone env) db = db" by (simp add: alone_def)
  from assms(2) show ?thesis
  proof (cases rule: upload_document_cases)
    case existing
    with found_within [OF assms(1) existing(1)] assms(1) show ?thesis by auto
  next
    case created
    then have ins: "insert_upload (alone env) req db = Inr db'" by (simp only: others)
    note rows = insert_upload_Inr [OF ins]
    from ins have "chunks db' = chunks db"
      unfolding insert_upload_def by (auto simp: insert_document_def insert_job_def dest!: try_bind_InrD)
    then have "foreign (up_tenant_id req) db' = foreign (up_tenant_id req) db"
      by (simp add: foreign_def rows uploaded_document_def uploaded_job_def)
    moreover from created(3) have "reply_within (up_tenant_id req) db' (Uploaded (document_response d) (j_id j))"
      by (auto simp: rows uploaded_document_def uploaded_job_def)
    ultimately show ?thesis using inserted_wf [OF assms(1) ins] by blast
  next
    case lost_race
    with others have "find_existing_upload (sha256 (alone env) (up_content req)) (up_idempotency_key req) (up_tenant_id req) db =
        Inr (Some (d, j))" and "db' = db" by simp_all
    with found_within [OF assms(1) this(1)] assms(1) show ?thesis by auto
  qed
qed

text \<open>Deletion.\<close>

lemma delete_within:
  assumes "platform_wf db" and "soft_delete_document now client_error did t db bkt = (Inr (), db', bkt')"
  shows "platform_wf db' \<and> foreign t db' = foreign t db \<and>
    (\<forall>key. bkt' key \<noteq> bkt key \<longrightarrow> startswith key (uuid_str t))"
proof -
  from assms(2) obtain d where d: "get_document did t db = Inr d"
    by (auto simp: soft_delete_document_def split: sum.splits)
  let ?f = "\<lambda>d :: document. d \<lparr>d_deleted_at := Some now, d_status := DocFailed, d_updated_at := now\<rparr>"
  from assms(2) d have db': "db' = db \<lparr>documents := update_where (\<lambda>d. d_id d = did) ?f (documents db)\<rparr>"
    and bkt': "bkt' = (case d_storage_key d of None \<Rightarrow> bkt
      | Some key \<Rightarrow> if key \<noteq> '''' then snd (storage_delete client_error key bkt) else bkt)"
    by (simp_all add: soft_delete_document_def Let_def)
  have docs: "documents db' = update_where (\<lambda>d. d_id d = did) ?f (documents db)"
    and same: "chunks db' = chunks db" "jobs db' = jobs db" by (simp_all add: db')
  note d' = get_document_among [OF d]
  have wf: "document_ids.keyed db" "document_hashes.keyed db" "job_ids.keyed db" "job_keys.keyed db"
    and agree: "tenants_agree db" and named: "objects_named db"
    using assms(1) by (simp_all add: platform_wf_def documents_wf_def)
  have "documents_wf db'"
    unfolding documents_wf_def
    using document_ids.update_keyed [OF wf(1) _ docs] document_hashes.update_keyed [OF wf(2) _ docs]
      job_ids.same_keyed [OF wf(3) same(2)] job_keys.same_keyed [OF wf(4) same(2)] by simp
  moreover have "tenants_agree db'"
    using agree map_update_where [of "documents db" "\<lambda>d. d_id d = did" "\<lambda>d. (d_id d, d_tenant_id d)" ?f]
    unfolding tenants_agree_iff same docs set_map [symmetric] by simp
  moreover have "objects_named db'"
    using named unfolding objects_named_def docs set_update_where ball_simps(9) by auto
  moreover have "foreign t db' = foreign t db"
  proof -
    have "d_tenant_id e = t" if "e \<in> set (documents db)" "d_id e = did" for e
      using document_ids.unique [OF wf(1) that(1)] d' that(2) by metis
    then have "filter (\<lambda>d. d_tenant_id d \<noteq> t) (documents db') = filter (\<lambda>d. d_tenant_id d \<noteq> t) (documents db)"
      unfolding docs by (intro filter_update_where) auto
    then show ?thesis by (simp add: foreign_def same)
  qed
  moreover have "startswith key (uuid_str t)" if "bkt' key \<noteq> bkt key" for key
  proof -
    from that bkt' have "d_storage_key d = Some key"
      by (auto simp: storage_delete_def split: option.splits if_splits)
    with named d' have "key = upload_key (d_tenant_id d) (d_id d) (d_filename d)" unfolding objects_named_def by fastforce
    with d' upload_key_prefix show ?thesis by simp
  qed
  ultimately show ?thesis by (simp add: platform_wf_def)
qed

subsection \<open>Requests\<close>

lemma upload_endpoint_within:
  assumes "platform_wf db"
    and "upload_endpoint px filename content content_type key user tenant db bkt = (Inr x, db', bkt')"
  shows "tc_role tenant \<in> {Admin, Editor} \<and> platform_wf db' \<and> foreign (tc_org_id tenant) db' = foreign (tc_org_id tenant) db \<and>
    reply_within (tc_org_id tenant) db' x \<and> (\<forall>k. bkt' k \<noteq> bkt k \<longrightarrow> startswith k (uuid_str (tc_org_id tenant)))"
proof -
  let ?req = "\<lparr>up_filename = (if filename = '''' then ''untitled'' else filename), up_content = content,
     up_mime_type = content_type, up_idempotency_key = key, up_user_id = u_id user, up_tenant_id = tc_org_id tenant\<rparr>"
  from assms(2) obtain d j where role: "tc_role tenant \<in> {Admin, Editor}"
    and up: "upload_document (alone (px_upload px)) ?req db bkt = (Inr (d, j), db', bkt')"
    and x: "x = Uploaded (document_response d) (j_id j)"
    by (auto simp: upload_endpoint_def require_role_def split: sum.splits if_splits prod.splits)
  have "startswith k (uuid_str (tc_org_id tenant))" if "bkt' k \<noteq> bkt k" for k
    using upload_document_bucket [OF up, of k] that upload_key_prefix by auto
  with upload_within [OF assms(1) up] role x show ?thesis by simp
qed

lemma delete_endpoint_within:
  assumes "platform_wf db" and "delete_endpoint px did tenant db bkt = (Inr x, db', bkt')"
  shows "tc_role tenant \<in> {Admin, Editor} \<and> platform_wf db' \<and> foreign (tc_org_id tenant) db' = foreign (tc_org_id tenant) db \<and>
    reply_within (tc_org_id tenant) db' x \<and> (\<forall>k. bkt' k \<noteq> bkt k \<longrightarrow> startswith k (uuid_str (tc_org_id tenant)))"
proof -
  from assms(2) have role: "tc_role tenant \<in> {Admin, Editor}"
    and del: "soft_delete_document (px_now px) (delete_error (px_upload px)) did (tc_org_id tenant) db bkt = (Inr (), db', bkt')"
    and x: "x = Deleted"
    by (auto simp: delete_endpoint_def require_role_def split: sum.splits if_splits prod.splits)
  from delete_within [OF assms(1) del] role x show ?thesis by simp
qed

definition unchanged_rows :: "database \<Rightarrow> database \<Rightarrow> bool" where
  "unchanged_rows db db' \<longleftrightarrow> documents db' = documents db \<and> chunks db' = chunks db \<and> jobs db' = jobs db"

lemma dispatch_within:
  assumes "platform_wf db" and "dispatch px req user tenant db bkt r g = (Inr x, w')"
  shows "platform_wf (pf_database w') \<and> foreign (tc_org_id tenant) (pf_database w') = foreign (tc_org_id tenant) db \<and>
    reply_within (tc_org_id tenant) (pf_database w') x \<and>
    (\<forall>k. pf_bucket w' k \<noteq> bkt k \<longrightarrow> startswith k (uuid_str (tc_org_id tenant))) \<and>
    (tc_role tenant = Viewer \<longrightarrow> pf_database w' = db \<and> pf_bucket w' = bkt)"
proof -
  consider (upload) filename content content_type key where "req = UploadDocument filename content content_type key"
    | (delete) did where "req = DeleteDocument did"
    | (evaluate) query cids where "req = EvaluateRelevance query cids"
    | (read) "w' = \<lparr>pf_database = db, pf_bucket = bkt, pf_redis = r, pf_gateway = g\<rparr>"
        "read_reply px req (tc_org_id tenant) db = Inr x"
    using assms(2) by (cases req) (auto simp: dispatch_def)
  then show ?thesis
  proof cases
    case upload
    with assms(2) obtain db1 bkt1 where "upload_endpoint px filename content content_type key user tenant db bkt = (Inr x, db1, bkt1)"
      and w': "w' = \<lparr>pf_database = db1, pf_bucket = bkt1, pf_redis = r, pf_gateway = g\<rparr>"
      by (auto simp: dispatch_def split: prod.splits)
    from upload_endpoint_within [OF assms(1) this(1)] w' show ?thesis by auto
  next
    case delete
    with assms(2) obtain db1 bkt1 where "delete_endpoint px did tenant db bkt = (Inr x, db1, bkt1)"
      and w': "w' = \<lparr>pf_database = db1, pf_bucket = bkt1, pf_redis = r, pf_gateway = g\<rparr>"
      by (auto simp: dispatch_def split: prod.splits)
    from delete_endpoint_within [OF assms(1) this(1)] w' show ?thesis by auto
  next
    case evaluate
    with assms(2) obtain g1 where e: "evaluate_endpoint px query cids (tc_org_id tenant) db g = (Inr x, g1)"
      and w': "w' = \<lparr>pf_database = db, pf_bucket = bkt, pf_redis = r, pf_gateway = g1\<rparr>"
      by (auto simp: dispatch_def split: prod.splits)
    from e obtain rs where "evaluate_relevance (gateway_complete (px_gateway px)) query cids (tc_org_id tenant) db g = (Inr rs, g1)"
      and "\<exists>s. x = Evaluated s \<and> rr_evaluations s = rs"
      by (auto simp: evaluate_endpoint_def split: sum.splits prod.splits)
    with evaluate_relevance_among [OF this(1)] w' assms(1) show ?thesis by auto
  next
    case read
    with read_reply_within [OF read(2)] assms(1) show ?thesis by simp
  qed
qed

lemma rows_platform_wf:
  "documents db' = documents db \<Longrightarrow> chunks db' = chunks db \<Longrightarrow> jobs db' = jobs db \<Longrightarrow> platform_wf db' = platform_wf db"
  by (simp add: platform_wf_def documents_wf_def tenants_agree_def objects_named_def document_ids.keyed_def
      document_hashes.keyed_def job_ids.keyed_def job_keys.keyed_def)

text \<open>The user and the membership behind a request that returned.\<close>

lemma handle_platform_within:
  assumes wf: "platform_wf (pf_database w)" and run: "handle_platform px req w = (Inr x, w')"
  obtains user db1 m where
    "get_current_user (cx_crypto (px_request px)) (cx_settings (px_request px)) (env_now (cx_env (px_request px)))
       (cx_credentials (px_request px)) (pf_database w) = (Inr user, db1)"
    "m \<in> set (memberships (pf_database w))" "m_user_id m = u_id user" "platform_wf (pf_database w')"
    "foreign (m_org_id m) (pf_database w') = foreign (m_org_id m) (pf_database w)"
    "reply_within (m_org_id m) (pf_database w') x"
    "\<forall>k. pf_bucket w' k \<noteq> pf_bucket w k \<longrightarrow> startswith k (uuid_str (m_org_id m))"
    "m_role m = Viewer \<longrightarrow> unchanged_rows (pf_database w) (pf_database w') \<and> pf_bucket w' = pf_bucket w"
proof -
  let ?cx = "px_request px"
  from run have "serve_platform px req w = (Inr x, w')"
    by (auto simp: handle_platform_def split: prod.splits sum.splits)
  then obtain user db1 tenant r1 where
    user: "get_current_user (cx_crypto ?cx) (cx_settings ?cx) (env_now (cx_env ?cx)) (cx_credentials ?cx) (pf_database w) =
      (Inr user, db1)"
    and tenant: "get_current_tenant (cx_limits ?cx) (cx_outage ?cx) (env_now (cx_env ?cx)) (cx_tenant_header ?cx) user db1
      (pf_redis w) = (Inr tenant, r1)"
    and body: "dispatch px req user tenant db1 (pf_bucket w) r1 (pf_gateway w) = (Inr x, w')"
    by (auto simp: serve_platform_def Let_def split: prod.splits sum.splits)
  from get_current_user_Inr [OF user] have rows: "documents db1 = documents (pf_database w)" "chunks db1 = chunks (pf_database w)"
    "jobs db1 = jobs (pf_database w)" "memberships db1 = memberships (pf_database w)" by simp_all
  from tenant obtain m where m: "m \<in> set (memberships db1)" "m_user_id m = u_id user" "m_org_id m = tc_org_id tenant"
    "m_role m = tc_role tenant" by (rule get_current_tenant_Inr)
  have "platform_wf db1" using wf rows_platform_wf [OF rows(1-3)] by simp
  note within = dispatch_within [OF this body, folded m(3,4)]
  have foreign: "foreign (m_org_id m) db1 = foreign (m_org_id m) (pf_database w)" by (simp add: foreign_def rows)
  have member: "m \<in> set (memberships (pf_database w))" using m(1) by (simp add: rows)
  have viewer: "unchanged_rows (pf_database w) db1" using rows by (simp add: unchanged_rows_def)
  show ?thesis
  proof (rule that [OF user member m(2)])
    show "platform_wf (pf_database w')" using within by blast
    show "foreign (m_org_id m) (pf_database w') = foreign (m_org_id m) (pf_database w)" using within foreign by simp
    show "reply_within (m_org_id m) (pf_database w') x" using within by blast
    show "\<forall>k. pf_bucket w' k \<noteq> pf_bucket w k \<longrightarrow> startswith k (uuid_str (m_org_id m))" using within by blast
    show "m_role m = Viewer \<longrightarrow> unchanged_rows (pf_database w) (pf_database w') \<and> pf_bucket w' = pf_bucket w"
      using within viewer by simp
  qed
qed

end
