(* ===== verification/Rls.thy ===== *)
theory Rls
  imports PlatformInvariant
begin

section \<open>Row-level security and the reads of a tenant\<close>

text \<open>
  The reads of a request filter by the tenant themselves.  For a session whose tenant is set the
  policies of migration \<open>0002\<close> therefore change nothing: a database role that is subject to them
  reads what a superuser reads.  (\<open>hybrid_search\<close>, which opens sessions of its own, is the
  exception: \<open>Retrieval.thy\<close>.)
\<close>

lemma concat_map_nil: "concat (map (\<lambda>_. []) xs) = []"
  by (induction xs) simp_all

locale tenant_session =
  fixes s :: db_session and t :: uuid
  assumes tenant: "app_current_tenant s = Some t"
begin

lemma own_rows_allowed: "policy_allows s t"
  using tenant by (simp add: policy_allows_def)

lemma view_documents: "(\<And>d. P d \<Longrightarrow> d_tenant_id d = t) \<Longrightarrow> filter P (documents (rls_view s db)) = filter P (documents db)"
  unfolding rls_view_def using own_rows_allowed by (auto intro!: filter_cong)

lemma view_chunks: "(\<And>c. P c \<Longrightarrow> c_tenant_id c = t) \<Longrightarrow> filter P (chunks (rls_view s db)) = filter P (chunks db)"
  unfolding rls_view_def using own_rows_allowed by (auto intro!: filter_cong)

lemma view_jobs: "(\<And>j. P j \<Longrightarrow> j_tenant_id j = t) \<Longrightarrow> filter P (jobs (rls_view s db)) = filter P (jobs db)"
  unfolding rls_view_def using own_rows_allowed by (auto intro!: filter_cong)

lemma view_get_document: "get_document did t (rls_view s db) = get_document did t db"
  unfolding get_document_def by (subst view_documents) auto

lemma view_get_job: "get_job jid t (rls_view s db) = get_job jid t db"
  unfolding get_job_def by (subst view_jobs) auto

lemma view_list_documents: "list_documents drv t (rls_view s db) cursor limit = list_documents drv t db cursor limit"
  unfolding list_documents_def by (subst view_documents) auto

lemma view_list_chunks: "list_chunks drv did t (rls_view s db) cursor limit = list_chunks drv did t db cursor limit"
  unfolding list_chunks_def by (subst view_chunks) auto

lemma view_list_jobs: "list_jobs drv t (rls_view s db) cursor limit = list_jobs drv t db cursor limit"
  unfolding list_jobs_def by (subst view_jobs) auto

lemma view_jobs_for_document: "list_jobs_for_document did t (rls_view s db) = list_jobs_for_document did t db"
  unfolding list_jobs_for_document_def by (subst view_jobs) auto

lemma view_evaluate: "evaluate_relevance gwc query cids t (rls_view s db) g = evaluate_relevance gwc query cids t db g"
  unfolding evaluate_relevance_def chunks_by_id_def by (subst view_chunks) auto

text \<open>A search joins chunks with their documents, which are the tenant's as well.\<close>

lemma concat_map_filter_empty:
  "(\<And>x. \<not> P x \<Longrightarrow> f x = []) \<Longrightarrow> concat (map f (filter P xs)) = concat (map f xs)"
  by (induction xs) auto

lemma view_live_chunks:
  assumes "tenants_agree db" and "document_ids.keyed db"
  shows "live_chunks t (rls_view s db) = live_chunks t db"
proof -
  let ?join = "\<lambda>ds c. concat (map (\<lambda>d. if c_document_id c = d_id d \<and> c_tenant_id c = t \<and> d_deleted_at d = None
      then [(c, d)] else []) ds)"
  have live: "live_chunks t e = concat (map (?join (documents e)) (chunks e))" for e :: database
    by (simp add: live_chunks_def)
  have join: "?join (documents (rls_view s db)) c = ?join (documents db) c" if "c \<in> set (chunks db)" for c
  proof (cases "c_tenant_id c = t")
    case True
    from assms(1) that obtain e where e: "e \<in> set (documents db)" "d_id e = c_document_id c" "d_tenant_id e = c_tenant_id c"
      unfolding tenants_agree_def by blast
    have owner: "d_tenant_id d = t" if "d \<in> set (documents db)" "c_document_id c = d_id d" for d
      using document_ids.unique [OF assms(2) that(1) e(1)] e that(2) True by metis
    have "?join (filter (\<lambda>d. policy_allows s (d_tenant_id d)) ds) c = ?join ds c" if "set ds \<subseteq> set (documents db)" for ds
      using that owner own_rows_allowed by (induction ds) auto
    then show ?thesis by (simp add: rls_view_def)
  qed (simp add: concat_map_nil)
  have "live_chunks t (rls_view s db) =
      concat (map (?join (documents db)) (filter (\<lambda>c. policy_allows s (c_tenant_id c)) (chunks db)))"
  proof -
    have cs: "chunks (rls_view s db) = filter (\<lambda>c. policy_allows s (c_tenant_id c)) (chunks db)" by (simp add: rls_view_def)
    show ?thesis unfolding live cs by (intro arg_cong [where f = concat] map_cong refl join) simp
  qed
  also have "\<dots> = live_chunks t db"
    unfolding live using own_rows_allowed by (intro concat_map_filter_empty) auto
  finally show ?thesis .
qed

end

interpretation request: tenant_session "set_tenant_context t s" t for s t
  by unfold_locales (simp add: set_tenant_context_def)

text \<open>A superuser's session sees everything.\<close>

lemma request_session_sees_all: "rls_view (request_session t) db = db"
  by (simp add: rls_view_def policy_allows_def request_session_def set_tenant_context_def)

definition searches_alone :: "platform_request \<Rightarrow> bool" where
  "searches_alone req \<longleftrightarrow> (\<exists>query top_k. req = HybridSearch query top_k)"

text \<open>
  Claim C21 (equivalence): row-level security is transparent to the requests.  In a session whose
  tenant was set by \<open>set_tenant_context\<close>, whatever the database role, every read of a request but
  the hybrid search, and every evaluation, has the same outcome on the rows that the policies let
  through as on the whole database.
\<close>

theorem rls_transparent:
  assumes "tenants_agree db" and "document_ids.keyed db" and "\<not> searches_alone req"
  shows "read_reply px req t (rls_view (set_tenant_context t s) db) = read_reply px req t db \<and>
    evaluate_endpoint px query cids t (rls_view (set_tenant_context t s) db) g = evaluate_endpoint px query cids t db g"
proof -
  note views = request.view_get_document request.view_get_job request.view_list_documents request.view_list_chunks
    request.view_list_jobs request.view_jobs_for_document request.view_evaluate
    request.view_live_chunks [OF assms(1,2)]
  have "read_reply px req t (rls_view (set_tenant_context t s) db) = read_reply px req t db"
    using assms(3) unfolding searches_alone_def
    by (cases req) (simp_all add: views dense_search_def sparse_search_def request_session_sees_all dense_sql_def sparse_sql_def)
  then show ?thesis by (simp add: evaluate_endpoint_def views)
qed

theorem rls_transparent_witness:
  "read_reply sample_px (GetDocument 10) 2 (rls_view (set_tenant_context 2 (sample_session False)) sample_store) =
     Inr (OneDocument (document_response (Retrieval.sample_document 10 2)))"
proof -
  have "tenants_agree sample_store" "document_ids.keyed sample_store"
    by (simp_all add: tenants_agree_def document_ids.keyed_def)
  from rls_transparent [OF this, of "GetDocument 10" sample_px 2 "sample_session False"] show ?thesis
    by (simp add: searches_alone_def get_document_def)
qed

end
