(* ===== verification/Mcp.thy ===== *)
theory Mcp
  imports Platform
begin

section \<open>The MCP adapter\<close>

text \<open>
  \<open>mcp_server/adapters/research_platform.py\<close>: the same services behind tools that name the acting
  user instead of authenticating one, and \<open>mcp_server/server.py\<close>, whose tools pass their
  arguments on.  Replies are JSON.  A tool that raises leaves the database as it was.
\<close>

subsection \<open>Arguments\<close>

text \<open>\<open>base64.b64decode(s, validate=True)\<close>: the strict mode of \<open>binascii.a2b_base64\<close>.\<close>

definition b64_std_value :: "char \<Rightarrow> nat option" where
  "b64_std_value c = (if c = CHR ''-'' \<or> c = CHR ''_'' then None else b64_value c)"

fun b64_strict_from :: "nat \<Rightarrow> nat \<Rightarrow> nat \<Rightarrow> bool \<Rightarrow> string \<Rightarrow> string option" where
  "b64_strict_from quad left pads padding_started [] = (if quad = 0 then Some [] else None)"
| "b64_strict_from quad left pads padding_started (c # cs) =
     (if c = CHR ''='' then
        (if 2 \<le> quad \<and> 4 \<le> quad + pads + 1 then (if cs = [] then Some [] else None)
         else b64_strict_from quad left (if 2 \<le> quad then pads + 1 else pads) True cs)
      else (case b64_std_value c of
              None \<Rightarrow> None
            | Some v \<Rightarrow>
                if padding_started then None
                else if quad = 0 then b64_strict_from 1 v 0 False cs
                else if quad = 1
                then map_option ((#) (char_of (left * 4 + v div 16))) (b64_strict_from 2 (v mod 16) 0 False cs)
                else if quad = 2
                then map_option ((#) (char_of (left * 16 + v div 4))) (b64_strict_from 3 (v mod 4) 0 False cs)
                else map_option ((#) (char_of (left * 64 + v))) (b64_strict_from 0 0 0 False cs)))"

definition b64_strict :: "string \<Rightarrow> string option" where
  "b64_strict s = (if s \<noteq> [] \<and> hd s = CHR ''='' then None else b64_strict_from 0 0 0 False s)"

definition mcp_uuid :: "string \<Rightarrow> string \<Rightarrow> (exn, uuid) outcome" where
  "mcp_uuid value field_name =
     (case parse_uuid value of
        None \<Rightarrow> Inl (ValueError (field_name @ '' must be a valid UUID.''))
      | Some u \<Rightarrow> Inr u)"

fun mcp_uuids :: "string list \<Rightarrow> string \<Rightarrow> (exn, uuid list) outcome" where
  "mcp_uuids [] field_name = Inr []"
| "mcp_uuids (v # vs) field_name =
     try_bind (mcp_uuid v field_name) (\<lambda>u. try_bind (mcp_uuids vs field_name) (\<lambda>us. Inr (u # us)))"

definition resolve_tenant_id :: "uuid \<Rightarrow> string option \<Rightarrow> database \<Rightarrow> (exn, uuid) outcome" where
  "resolve_tenant_id user_id tenant_id db =
     try_bind (case tenant_id of
                 None \<Rightarrow> Inr None
               | Some s \<Rightarrow> if s = '''' then Inr None else try_bind (mcp_uuid s ''tenant_id'') (\<lambda>t. Inr (Some t)))
       (\<lambda>requested. try_bind (resolve_membership user_id requested db) (\<lambda>m. Inr (m_org_id m)))"

subsection \<open>Replies\<close>

definition json_opt :: "('a \<Rightarrow> json) \<Rightarrow> 'a option \<Rightarrow> json" where
  "json_opt f v = (case v of None \<Rightarrow> JNull | Some x \<Rightarrow> f x)"

definition json_time :: "driver \<Rightarrow> timestamp \<Rightarrow> json" where
  "json_time drv t = JStr (isoformat drv t)"

definition document_to_dict :: "driver \<Rightarrow> document \<Rightarrow> json" where
  "document_to_dict drv d = JObj
     [(''id'', JStr (uuid_str (d_id d))), (''tenant_id'', JStr (uuid_str (d_tenant_id d))),
      (''filename'', JStr (d_filename d)), (''status'', JStr (document_status_str (d_status d))),
      (''size_bytes'', JInt (int (d_size_bytes d))), (''mime_type'', json_opt JStr (d_mime_type d)),
      (''chunk_count'', JInt (int (d_chunk_count d))), (''content_hash'', JStr (d_content_hash d)),
      (''created_at'', json_time drv (d_created_at d)), (''updated_at'', json_time drv (d_updated_at d))]"

definition job_to_dict :: "driver \<Rightarrow> job \<Rightarrow> json" where
  "job_to_dict drv j = JObj
     [(''id'', JStr (uuid_str (j_id j))), (''document_id'', JStr (uuid_str (j_document_id j))),
      (''tenant_id'', JStr (uuid_str (j_tenant_id j))), (''status'', JStr (job_status_str (j_status j))),
      (''attempt_count'', JInt (int (j_attempt_count j))), (''max_attempts'', JInt (int (j_max_attempts j))),
      (''error_message'', json_opt JStr (j_error_message j)), (''claimed_at'', json_opt (json_time drv) (j_claimed_at j)),
      (''started_at'', json_opt (json_time drv) (j_started_at j)),
      (''completed_at'', json_opt (json_time drv) (j_completed_at j)), (''created_at'', json_time drv (j_created_at j))]"

definition evaluation_to_dict :: "chunk_relevance \<Rightarrow> json" where
  "evaluation_to_dict r = JObj
     [(''chunk_id'', JStr (uuid_str (cr_chunk_id r))), (''grade'', JStr (grade_value (cr_grade r))),
      (''reasoning'', JStr (cr_reasoning r))]"

subsection \<open>The tools\<close>

definition mcp_upload_document ::
  "platform_context \<Rightarrow> string \<Rightarrow> string option \<Rightarrow> string \<Rightarrow> string \<Rightarrow> string \<Rightarrow> string option \<Rightarrow> database \<Rightarrow> bucket \<Rightarrow>
     (exn, json) outcome \<times> database \<times> bucket" where
  "mcp_upload_document px user_id tenant_id filename content_base64 idempotency_key mime_type db bkt =
     (case try_bind (mcp_uuid user_id ''user_id'') (\<lambda>uid.
             try_bind (case b64_strict content_base64 of
                         None \<Rightarrow> Inl (ValueError ''invalid base64'') | Some content \<Rightarrow> Inr content) (\<lambda>content.
               try_bind (resolve_tenant_id uid tenant_id db) (\<lambda>t.
                 Inr \<lparr>up_filename = filename, up_content = content, up_mime_type = mime_type,
                      up_idempotency_key = idempotency_key, up_user_id = uid, up_tenant_id = t\<rparr>))) of
        Inl e \<Rightarrow> (Inl e, db, bkt)
      | Inr req \<Rightarrow>
          (case upload_document (alone (px_upload px)) req db bkt of
             (Inl e, db1, bkt1) \<Rightarrow> (Inl e, db, bkt1)
           | (Inr (document, job), db1, bkt1) \<Rightarrow>
               (Inr (JObj [(''document'', document_to_dict (px_driver px) document),
                           (''job'', job_to_dict (px_driver px) job)]), db1, bkt1)))"

definition mcp_list_documents ::
  "platform_context \<Rightarrow> string \<Rightarrow> string option \<Rightarrow> string option \<Rightarrow> int \<Rightarrow> database \<Rightarrow> (exn, json) outcome" where
  "mcp_list_documents px user_id tenant_id cursor limit db =
     try_bind (mcp_uuid user_id ''user_id'') (\<lambda>uid. try_bind (resolve_tenant_id uid tenant_id db) (\<lambda>t.
       try_bind (list_documents (px_driver px) t db cursor (min (max limit 1) 100)) (\<lambda>(docs, next).
         Inr (JObj [(''items'', JArr (map (document_to_dict (px_driver px)) docs)),
                    (''next_cursor'', json_opt JStr next), (''has_more'', JBool (next \<noteq> None))]))))"

definition mcp_get_document ::
  "platform_context \<Rightarrow> string \<Rightarrow> string option \<Rightarrow> string \<Rightarrow> database \<Rightarrow> (exn, json) outcome" where
  "mcp_get_document px user_id tenant_id document_id db =
     try_bind (mcp_uuid user_id ''user_id'') (\<lambda>uid. try_bind (resolve_tenant_id uid tenant_id db) (\<lambda>t.
       try_bind (mcp_uuid document_id ''document_id'') (\<lambda>did.
         try_bind (get_document did t db) (\<lambda>doc. Inr (document_to_dict (px_driver px) doc)))))"

text \<open>
  \<open>search\<close> calls \<open>hybrid_search\<close> without its parameter \<open>settings\<close>, which has no default: once
  the tenant is resolved, the call is a \<open>TypeError\<close>.
\<close>

definition mcp_search ::
  "platform_context \<Rightarrow> string \<Rightarrow> string option \<Rightarrow> string \<Rightarrow> int \<Rightarrow> database \<Rightarrow> (exn, json) outcome" where
  "mcp_search px user_id tenant_id query top_k db =
     try_bind (mcp_uuid user_id ''user_id'') (\<lambda>uid. try_bind (resolve_tenant_id uid tenant_id db) (\<lambda>t.
       Inl (OtherError ''TypeError'')))"

definition mcp_get_job ::
  "platform_context \<Rightarrow> string \<Rightarrow> string option \<Rightarrow> string \<Rightarrow> database \<Rightarrow> (exn, json) outcome" where
  "mcp_get_job px user_id tenant_id job_id db =
     try_bind (mcp_uuid user_id ''user_id'') (\<lambda>uid. try_bind (resolve_tenant_id uid tenant_id db) (\<lambda>t.
       try_bind (mcp_uuid job_id ''job_id'') (\<lambda>jid.
         try_bind (get_job jid t db) (\<lambda>found. Inr (json_opt (job_to_dict (px_driver px)) found)))))"

definition mcp_evaluate_relevance ::
  "platform_context \<Rightarrow> string \<Rightarrow> string option \<Rightarrow> string \<Rightarrow> string list \<Rightarrow> database \<Rightarrow> gateway \<Rightarrow>
     (exn, json) outcome \<times> gateway" where
  "mcp_evaluate_relevance px user_id tenant_id query chunk_ids db g =
     (case try_bind (mcp_uuids chunk_ids ''chunk_ids'') (\<lambda>cids. try_bind (mcp_uuid user_id ''user_id'') (\<lambda>uid.
             try_bind (resolve_tenant_id uid tenant_id db) (\<lambda>t. Inr (cids, t)))) of
        Inl e \<Rightarrow> (Inl e, g)
      | Inr (cids, t) \<Rightarrow>
          (case evaluate_relevance (gateway_complete (px_gateway px)) query cids t db g of
             (Inl e, g1) \<Rightarrow> (Inl e, g1)
           | (Inr evaluations, g1) \<Rightarrow>
               (Inr (JObj [(''query'', JStr query), (''evaluations'', JArr (map evaluation_to_dict evaluations)),
                           (''model'', JStr (gw_model_name (px_gateway px))),
                           (''circuit_state'', JStr (circuit_state_str (cb_state (fst g1))))]), g1)))"

text \<open>The tools of the server.\<close>

datatype mcp_call =
    McpUploadDocument string string string string "string option" "string option"
  | McpListDocuments string "string option" "string option" int
  | McpGetDocument string string "string option"
  | McpSearch string string "string option" int
  | McpGetJob string string "string option"
  | McpEvaluateRelevance string string "string list" "string option"

definition mcp_tool :: "platform_context \<Rightarrow> mcp_call \<Rightarrow> platform \<Rightarrow> (exn, json) outcome \<times> platform" where
  "mcp_tool px call w =
     (let db = pf_database w;
          only_reads = (\<lambda>x. (x, w))
      in case call of
           McpUploadDocument user_id filename content_base64 idempotency_key tenant_id mime_type \<Rightarrow>
             (case mcp_upload_document px user_id tenant_id filename content_base64 idempotency_key mime_type db (pf_bucket w) of
                (x, db1, bkt1) \<Rightarrow>
                  (x, \<lparr>pf_database = db1, pf_bucket = bkt1, pf_redis = pf_redis w, pf_gateway = pf_gateway w\<rparr>))
         | McpListDocuments user_id tenant_id cursor limit \<Rightarrow> only_reads (mcp_list_documents px user_id tenant_id cursor limit db)
         | McpGetDocument user_id document_id tenant_id \<Rightarrow> only_reads (mcp_get_document px user_id tenant_id document_id db)
         | McpSearch user_id query tenant_id top_k \<Rightarrow> only_reads (mcp_search px user_id tenant_id query top_k db)
         | McpGetJob user_id job_id tenant_id \<Rightarrow> only_reads (mcp_get_job px user_id tenant_id job_id db)
         | McpEvaluateRelevance user_id query chunk_ids tenant_id \<Rightarrow>
             (case mcp_evaluate_relevance px user_id tenant_id query chunk_ids db (pf_gateway w) of
                (x, g1) \<Rightarrow>
                  (x, \<lparr>pf_database = db, pf_bucket = pf_bucket w, pf_redis = pf_redis w, pf_gateway = g1\<rparr>)))"

subsection \<open>What the tools do\<close>

text \<open>The base64 a client sends: the standard alphabet.\<close>

definition b64_std :: "string \<Rightarrow> string" where
  "b64_std s = map (\<lambda>c. if c = CHR ''-'' then CHR ''+'' else if c = CHR ''_'' then CHR ''/'' else c) (b64_encode s)"

definition std_char :: "char \<Rightarrow> char" where
  "std_char c = (if c = CHR ''-'' then CHR ''+'' else if c = CHR ''_'' then CHR ''/'' else c)"

lemma b64_std_map: "b64_std s = map std_char (b64_encode s)"
  by (simp add: b64_std_def std_char_def [abs_def])

lemma std_char_value: "v < 64 \<Longrightarrow> b64_std_value (std_char (b64_char v)) = Some v"
  using b64_value_char [of v] by (auto simp: b64_std_value_def std_char_def b64_value_def Let_def)

lemma std_char_no_pad: "v < 64 \<Longrightarrow> std_char (b64_char v) \<noteq> CHR ''=''"
  using b64_char_no_pad [of v] by (auto simp: std_char_def)

lemma b64_strict_encode: "b64_strict (b64_std s) = Some s"
proof -
  have pad: "std_char CHR ''='' = CHR ''=''" by (simp add: std_char_def)
  have "b64_strict_from 0 0 0 False (map std_char (b64_encode s)) = Some s"
    by (induction s rule: b64_encode.induct)
      (simp_all add: std_char_value std_char_no_pad pad bytes_parts bytes_joined)
  moreover have "\<not> (b64_std s \<noteq> [] \<and> hd (b64_std s) = CHR ''='')"
    by (cases s rule: b64_encode.cases) (simp_all add: b64_std_map std_char_no_pad bytes_parts)
  ultimately show ?thesis by (simp add: b64_strict_def b64_std_map)
qed

text \<open>No search succeeds.\<close>

lemma mcp_search_fails: "\<exists>e. mcp_tool px (McpSearch user_id query tenant_id top_k) w = (Inl e, w)"
proof -
  have "\<exists>e. mcp_search px user_id tenant_id query top_k (pf_database w) = Inl e"
    unfolding mcp_search_def try_bind_def by (simp split: sum.split)
  then show ?thesis by (auto simp: mcp_tool_def Let_def)
qed

text \<open>
  The MCP upload takes any member for an editor.  Given the standard base64 of a
  content and the id of a member of an organization, it does exactly what the service's upload of
  that content does, whatever the role; for a viewer the endpoint of the API refuses the same
  upload and changes nothing.
\<close>

theorem mcp_upload_any_role:
  assumes "uid < 2 ^ 128" and "resolve_membership uid None db = Inr m" and "filename \<noteq> ''''"
    and "upload_document (alone (px_upload px))
      \<lparr>up_filename = filename, up_content = content, up_mime_type = mime, up_idempotency_key = key,
       up_user_id = uid, up_tenant_id = m_org_id m\<rparr> db bkt = (Inr (d, j), db', bkt')"
  shows "mcp_upload_document px (uuid_str uid) None filename (b64_std content) key mime db bkt =
      (Inr (JObj [(''document'', document_to_dict (px_driver px) d), (''job'', job_to_dict (px_driver px) j)]), db', bkt') \<and>
    upload_endpoint px filename content mime key user \<lparr>tc_org_id = m_org_id m, tc_role = Viewer\<rparr> db bkt =
      (Inl (App (AuthorizationError ''Insufficient organization role.'')), db, bkt)"
  using assms
  by (simp add: mcp_upload_document_def mcp_uuid_def parse_uuid_str b64_strict_encode resolve_tenant_id_def
      upload_endpoint_def require_role_def)

text \<open>
  The first page of the MCP listing always comes.  For a user with a membership
  and without a cursor the listing returns, whatever limit is asked for, a page of the tenant's
  live documents, newest first, with at least one document if there is any, and never more than
  100.
\<close>

theorem mcp_first_page_returns:
  assumes "uid < 2 ^ 128" and "resolve_membership uid None db = Inr m"
  shows "\<exists>docs nxt. mcp_list_documents px (uuid_str uid) None None limit db =
      Inr (JObj [(''items'', JArr (map (document_to_dict (px_driver px)) docs)),
                 (''next_cursor'', json_opt JStr nxt), (''has_more'', JBool (nxt \<noteq> None))]) \<and>
    docs = take (nat (min (max limit 1) 100)) (order_by_desc d_created_at
      (filter (\<lambda>d. d_tenant_id d = m_org_id m \<and> d_deleted_at d = None) (documents db)))"
proof -
  define k where "k = min (max limit 1) 100"
  let ?rows = "order_by_desc d_created_at (filter (\<lambda>d. d_tenant_id d = m_org_id m \<and> d_deleted_at d = None) (documents db))"
  let ?cursor = "\<lambda>d. encode_cursor ''created_at'' (CursorStr (isoformat (px_driver px) (d_created_at d)))"
  have limit: "1 \<le> k" by (simp add: k_def)
  from next_page_first [OF limit, of ?cursor ?rows] obtain nxt where
    page: "next_page k ?cursor (take (nat (k + 1)) ?rows) = Inr (take (nat k) ?rows, nxt)" by blast
  have "list_documents (px_driver px) (m_org_id m) db None k = next_page k ?cursor (take (nat (k + 1)) ?rows)"
    by (simp add: list_documents_def after_cursor_def try_bind_sql_limit [OF limit])
  then have "list_documents (px_driver px) (m_org_id m) db None k = Inr (take (nat k) ?rows, nxt)" by (simp only: page)
  then have "mcp_list_documents px (uuid_str uid) None None limit db =
      Inr (JObj [(''items'', JArr (map (document_to_dict (px_driver px)) (take (nat k) ?rows))),
                 (''next_cursor'', json_opt JStr nxt), (''has_more'', JBool (nxt \<noteq> None))])"
    using assms by (simp add: mcp_list_documents_def mcp_uuid_def parse_uuid_str resolve_tenant_id_def k_def)
  then show ?thesis unfolding k_def by blast
qed

abbreviation mcp_database :: database where
  "mcp_database \<equiv> \<lparr>users = [\<lparr>u_id = 3, u_email = ''a@x.y'', u_is_active = True, u_created_at = 0\<rparr>], api_keys = [],
     refresh_tokens = [], organizations = [\<lparr>o_id = 2, o_name = ''n'', o_slug = ''s'', o_created_at = 0\<rparr>],
     memberships = [\<lparr>m_id = 50, m_org_id = 2, m_user_id = 3, m_role = Viewer, m_created_at = 0\<rparr>], invites = [],
     documents = [], chunks = [], jobs = []\<rparr>"

theorem mcp_upload_any_role_witness:
  "\<exists>reply db' bkt'. mcp_upload_document sample_px (uuid_str 3) None ''f.txt'' (b64_std ''Hi.'') ''k1'' None mcp_database (\<lambda>_. None) =
       (Inr reply, db', bkt') \<and> length (documents db') = 1 \<and>
     upload_endpoint sample_px ''f.txt'' ''Hi.'' None ''k1'' (sample_user 3 ''a@x.y'') \<lparr>tc_org_id = 2, tc_role = Viewer\<rparr> mcp_database (\<lambda>_. None) =
       (Inl (App (AuthorizationError ''Insufficient organization role.'')), mcp_database, (\<lambda>_. None))"
proof -
  let ?req = "\<lparr>up_filename = ''f.txt'', up_content = ''Hi.'', up_mime_type = None, up_idempotency_key = ''k1'',
     up_user_id = 3, up_tenant_id = 2\<rparr>"
  let ?m = "\<lparr>m_id = 50, m_org_id = 2, m_user_id = 3, m_role = Viewer, m_created_at = 0\<rparr> :: membership"
  have "\<exists>db'. insert_upload (alone sample_upload_env) ?req mcp_database = Inr db' \<and> length (documents db') = 1"
    by (simp add: insert_upload_def insert_document_def insert_job_def uploaded_document_def alone_def
        uploaded_job_def fits_def fits_opt_def upload_key_def length_uuid_str uuid_str_nonzero checked_insert_def)
  then obtain db' bkt' where up: "upload_document (alone sample_upload_env) ?req mcp_database (\<lambda>_. None) =
      (Inr (uploaded_document (alone sample_upload_env) ?req, uploaded_job (alone sample_upload_env) ?req), db', bkt')"
    and one: "length (documents db') = 1"
    by (auto simp: upload_document_def find_existing_upload_def by_idempotency_key_def by_content_hash_def
        storage_upload_def alone_def)
  have "resolve_membership 3 None mcp_database = Inr ?m"
    by (simp add: resolve_membership_def order_by_asc_def)
  from mcp_upload_any_role [where m = ?m and px = sample_px and filename = "''f.txt''" and content = "''Hi.''"
      and mime = None and key = "''k1''" and bkt = "\<lambda>_. None" and db' = db' and bkt' = bkt'
      and user = "sample_user 3 ''a@x.y''", OF _ this] up
  show ?thesis by (intro exI [of _ db'] exI [of _ bkt'] exI conjI one) simp_all
qed

theorem mcp_first_page_returns_witness:
  "\<exists>nxt. mcp_list_documents sample_px (uuid_str 3) None None (-5) mcp_database =
      Inr (JObj [(''items'', JArr []), (''next_cursor'', json_opt JStr nxt), (''has_more'', JBool (nxt \<noteq> None))])"
proof -
  let ?m = "\<lparr>m_id = 50, m_org_id = 2, m_user_id = 3, m_role = Viewer, m_created_at = 0\<rparr> :: membership"
  have "resolve_membership 3 None mcp_database = Inr ?m"
    by (simp add: resolve_membership_def order_by_asc_def)
  from mcp_first_page_returns [OF _ this, of sample_px "-5"] show ?thesis by (simp add: order_by_desc_def)
qed

end
