(* ===== verification/Schema.thy ===== *)
theory Schema
  imports Prelude
begin

section \<open>Schemas and the statements that change them\<close>

text \<open>
  What the migrations under \<open>alembic/versions/\<close> use of PostgreSQL's data definition language and of
  alembic's operations: a catalog of tables with columns, constraints, indexes and policies, the
  statements with the errors the database raises for them, and the naming convention of
  \<open>src/core/database.py\<close>, under which alembic and the models name what has no name of its own.
  The expressions of defaults, computed columns, partial indexes and policies are the few that the
  migrations use.
\<close>

subsection \<open>The catalog\<close>

datatype column_type =
    UuidType | VarChar nat | TextType | BooleanType | IntegerType | BigIntegerType | TimestampTz
  | VectorType nat | JsonbType | TsVectorType

datatype default_value = GenRandomUuid | Now | Literal string

datatype computed_value = EnglishTsVector string

record column =
  col_name :: string
  col_type :: column_type
  col_nullable :: bool
  col_default :: "default_value option"
  col_generated :: "computed_value option"

datatype on_delete = NoAction | OnDeleteCascade | OnDeleteSetNull

datatype table_constraint =
    PrimaryKey "string list"
  | UniqueKey "string list"
  | ForeignKey "string list" string "string list" on_delete
  | CheckIn string "string list"

datatype direction = Asc | Desc

datatype index_method = Btree | Hnsw | Gin

datatype index_condition = IsNull | EqualTo string

record index_def =
  ix_name :: string
  ix_method :: index_method
  ix_keys :: "(string \<times> direction) list"
  ix_where :: "(string \<times> index_condition) option"
  ix_with :: "(string \<times> nat) list"

text \<open>\<open>col = nullif(current_setting('app.current_tenant', true), '')::uuid\<close>, \<open>current_setting('app.worker_mode', true) = 'on'\<close>\<close>

datatype policy_expr = IsCurrentTenant string | WorkerModeOn

record policy =
  pol_name :: string
  pol_using :: policy_expr
  pol_check :: policy_expr

record table_def =
  tb_name :: string
  tb_columns :: "column list"
  tb_constraints :: "(string \<times> table_constraint) list"
  tb_indexes :: "index_def list"
  tb_rls :: bool
  tb_force_rls :: bool
  tb_policies :: "policy list"

record catalog =
  cat_extensions :: "string list"
  cat_tables :: "table_def list"

definition empty_catalog :: catalog where
  "empty_catalog = \<lparr>cat_extensions = [], cat_tables = []\<rparr>"

fun constraint_columns :: "table_constraint \<Rightarrow> string list" where
  "constraint_columns (PrimaryKey cs) = cs"
| "constraint_columns (UniqueKey cs) = cs"
| "constraint_columns (ForeignKey cs _ _ _) = cs"
| "constraint_columns (CheckIn c _) = [c]"

fun is_key :: "table_constraint \<Rightarrow> bool" where
  "is_key (PrimaryKey _) = True"
| "is_key (UniqueKey _) = True"
| "is_key _ = False"

fun refers_to :: "string \<Rightarrow> table_constraint \<Rightarrow> bool" where
  "refers_to n (ForeignKey _ t _ _) \<longleftrightarrow> t = n"
| "refers_to n _ \<longleftrightarrow> False"

text \<open>Tables, indexes and the indexes of primary and unique keys share one name space.\<close>

definition table_relations :: "table_def \<Rightarrow> string list" where
  "table_relations t = tb_name t # map ix_name (tb_indexes t) @
     map fst (filter (\<lambda>(_, con). is_key con) (tb_constraints t))"

definition relations :: "table_def list \<Rightarrow> string list" where
  "relations ts = concat (map table_relations ts)"

definition find_table :: "string \<Rightarrow> table_def list \<Rightarrow> table_def option" where
  "find_table n ts = find (\<lambda>t. tb_name t = n) ts"

definition referred :: "string \<Rightarrow> table_def list \<Rightarrow> bool" where
  "referred n ts \<longleftrightarrow> list_ex (\<lambda>t. tb_name t \<noteq> n \<and> list_ex (\<lambda>(_, con). refers_to n con) (tb_constraints t)) ts"

text \<open>A foreign key depends on the key it refers to.\<close>

fun depends_on :: "string \<Rightarrow> string list \<Rightarrow> table_constraint \<Rightarrow> bool" where
  "depends_on n cs (ForeignKey _ t ds _) \<longleftrightarrow> t = n \<and> ds = cs"
| "depends_on n cs _ \<longleftrightarrow> False"

definition key_in_use :: "string \<Rightarrow> table_constraint \<Rightarrow> table_def list \<Rightarrow> bool" where
  "key_in_use n k ts \<longleftrightarrow> is_key k \<and>
     list_ex (\<lambda>t. list_ex (\<lambda>(_, con). depends_on n (constraint_columns k) con) (tb_constraints t)) ts"

definition index_columns :: "index_def \<Rightarrow> string list" where
  "index_columns ix = map fst (ix_keys ix) @ (case ix_where ix of None \<Rightarrow> [] | Some (c, _) \<Rightarrow> [c])"

fun expr_columns :: "policy_expr \<Rightarrow> string list" where
  "expr_columns (IsCurrentTenant c) = [c]"
| "expr_columns WorkerModeOn = []"

definition policy_columns :: "policy \<Rightarrow> string list" where
  "policy_columns p = expr_columns (pol_using p) @ expr_columns (pol_check p)"

fun computed_columns :: "computed_value \<Rightarrow> string list" where
  "computed_columns (EnglishTsVector c) = [c]"

subsection \<open>Statements\<close>

datatype ddl =
    CreateExtension string
  | DropExtension string
  | CreateTable string "column list" "(string \<times> table_constraint) list"
  | DropTable string
  | AddColumn string column
  | DropColumn string string
  | SetNotNull string string
  | AddConstraint string string table_constraint
  | DropConstraint string string
  | CreateIndex string index_def
  | DropIndex string
  | SetRls string bool
  | SetForceRls string bool
  | CreatePolicy string policy
  | DropPolicy string string

datatype ddl_error =
    DuplicateTable | UndefinedTable | DuplicateColumn | UndefinedColumn | DuplicateObject | UndefinedObject
  | InvalidForeignKey | DependentObjects

definition column_names :: "table_def \<Rightarrow> string list" where
  "column_names t = map col_name (tb_columns t)"

text \<open>A constraint may be added: its columns exist, a foreign key refers to a key.\<close>

definition constraint_error :: "table_def list \<Rightarrow> table_def \<Rightarrow> table_constraint \<Rightarrow> ddl_error option" where
  "constraint_error ts t con =
     (if \<not> list_all (\<lambda>c. c \<in> set (column_names t)) (constraint_columns con) then Some UndefinedColumn
      else case con of
             ForeignKey _ target cs _ \<Rightarrow>
               (case find_table target ts of
                  None \<Rightarrow> Some UndefinedTable
                | Some u \<Rightarrow> if list_ex (\<lambda>(_, k). is_key k \<and> constraint_columns k = cs) (tb_constraints u) then None
                           else Some InvalidForeignKey)
           | _ \<Rightarrow> None)"

definition vector_column :: "column \<Rightarrow> bool" where
  "vector_column c \<longleftrightarrow> (case col_type c of VectorType _ \<Rightarrow> True | _ \<Rightarrow> False)"

definition uses_vector :: "table_def \<Rightarrow> bool" where
  "uses_vector t \<longleftrightarrow> list_ex vector_column (tb_columns t)"

definition set_tables :: "catalog \<Rightarrow> table_def list \<Rightarrow> catalog" where
  "set_tables cat ts = cat \<lparr>cat_tables := ts\<rparr>"

definition change_table ::
  "string \<Rightarrow> (table_def \<Rightarrow> (ddl_error, table_def) outcome) \<Rightarrow> catalog \<Rightarrow> (ddl_error, catalog) outcome" where
  "change_table n f cat =
     (case find_table n (cat_tables cat) of
        None \<Rightarrow> Inl UndefinedTable
      | Some t \<Rightarrow> (case f t of
                     Inl e \<Rightarrow> Inl e
                   | Inr t' \<Rightarrow> Inr (set_tables cat (map (\<lambda>u. if tb_name u = n then t' else u) (cat_tables cat)))))"

definition create_table_error :: "catalog \<Rightarrow> table_def \<Rightarrow> ddl_error option" where
  "create_table_error cat t =
     (if \<not> list_all (\<lambda>r. r \<notin> set (relations (cat_tables cat))) (table_relations t) then Some DuplicateTable
      else if \<not> distinct (column_names t) then Some DuplicateColumn
      else if uses_vector t \<and> ''vector'' \<notin> set (cat_extensions cat) then Some UndefinedObject
      else find (\<lambda>_. True) (List.map_filter (\<lambda>(_, con). constraint_error (cat_tables cat @ [t]) t con) (tb_constraints t)))"

definition drop_column_from :: "table_def list \<Rightarrow> string \<Rightarrow> table_def \<Rightarrow> (ddl_error, table_def) outcome" where
  "drop_column_from ts c t =
     (if c \<notin> set (column_names t) then Inl UndefinedColumn
      else if list_ex (\<lambda>p. c \<in> set (policy_columns p)) (tb_policies t) \<or>
              list_ex (\<lambda>col. case col_generated col of None \<Rightarrow> False | Some e \<Rightarrow> c \<in> set (computed_columns e)) (tb_columns t) \<or>
              list_ex (\<lambda>(_, k). c \<in> set (constraint_columns k) \<and> key_in_use (tb_name t) k ts) (tb_constraints t)
           then Inl DependentObjects
      else Inr (t \<lparr>tb_columns := filter (\<lambda>col. col_name col \<noteq> c) (tb_columns t),
                   tb_constraints := filter (\<lambda>(_, k). c \<notin> set (constraint_columns k)) (tb_constraints t),
                   tb_indexes := filter (\<lambda>ix. c \<notin> set (index_columns ix)) (tb_indexes t)\<rparr>))"

fun exec :: "ddl \<Rightarrow> catalog \<Rightarrow> (ddl_error, catalog) outcome" where
  "exec (CreateExtension x) cat =
     Inr (if x \<in> set (cat_extensions cat) then cat else cat \<lparr>cat_extensions := cat_extensions cat @ [x]\<rparr>)"
| "exec (DropExtension x) cat =
     (if x = ''vector'' \<and> list_ex uses_vector (cat_tables cat) then Inl DependentObjects
      else Inr (cat \<lparr>cat_extensions := filter (\<lambda>y. y \<noteq> x) (cat_extensions cat)\<rparr>))"
| "exec (CreateTable n cols cons) cat =
     (let t = \<lparr>tb_name = n, tb_columns = cols, tb_constraints = cons, tb_indexes = [], tb_rls = False,
               tb_force_rls = False, tb_policies = []\<rparr>
      in case create_table_error cat t of
           Some e \<Rightarrow> Inl e
         | None \<Rightarrow> Inr (set_tables cat (cat_tables cat @ [t])))"
| "exec (DropTable n) cat =
     (if find_table n (cat_tables cat) = None then Inl UndefinedTable
      else if referred n (cat_tables cat) then Inl DependentObjects
      else Inr (set_tables cat (filter (\<lambda>t. tb_name t \<noteq> n) (cat_tables cat))))"
| "exec (AddColumn n col) cat = change_table n (\<lambda>t.
     if col_name col \<in> set (column_names t) then Inl DuplicateColumn
     else Inr (t \<lparr>tb_columns := tb_columns t @ [col]\<rparr>)) cat"
| "exec (DropColumn n c) cat = change_table n (drop_column_from (cat_tables cat) c) cat"
| "exec (SetNotNull n c) cat = change_table n (\<lambda>t.
     if c \<notin> set (column_names t) then Inl UndefinedColumn
     else Inr (t \<lparr>tb_columns := map (\<lambda>col. if col_name col = c then col \<lparr>col_nullable := False\<rparr> else col) (tb_columns t)\<rparr>)) cat"
| "exec (AddConstraint n k con) cat = change_table n (\<lambda>t.
     if k \<in> set (map fst (tb_constraints t)) then Inl DuplicateObject
     else if is_key con \<and> k \<in> set (relations (cat_tables cat)) then Inl DuplicateTable
     else case constraint_error (cat_tables cat) t con of
            Some e \<Rightarrow> Inl e
          | None \<Rightarrow> Inr (t \<lparr>tb_constraints := tb_constraints t @ [(k, con)]\<rparr>)) cat"
| "exec (DropConstraint n k) cat = change_table n (\<lambda>t.
     case map_of (tb_constraints t) k of
       None \<Rightarrow> Inl UndefinedObject
     | Some con \<Rightarrow>
         if key_in_use n con (cat_tables cat) then Inl DependentObjects
         else Inr (t \<lparr>tb_constraints := filter (\<lambda>(j, _). j \<noteq> k) (tb_constraints t)\<rparr>)) cat"
| "exec (CreateIndex n ix) cat = change_table n (\<lambda>t.
     if ix_name ix \<in> set (relations (cat_tables cat)) then Inl DuplicateTable
     else if \<not> list_all (\<lambda>c. c \<in> set (column_names t)) (index_columns ix) then Inl UndefinedColumn
     else Inr (t \<lparr>tb_indexes := tb_indexes t @ [ix]\<rparr>)) cat"
| "exec (DropIndex i) cat =
     (if \<not> list_ex (\<lambda>t. list_ex (\<lambda>ix. ix_name ix = i) (tb_indexes t)) (cat_tables cat) then Inl UndefinedObject
      else Inr (set_tables cat
             (map (\<lambda>t. t \<lparr>tb_indexes := filter (\<lambda>ix. ix_name ix \<noteq> i) (tb_indexes t)\<rparr>) (cat_tables cat))))"
| "exec (SetRls n b) cat = change_table n (\<lambda>t. Inr (t \<lparr>tb_rls := b\<rparr>)) cat"
| "exec (SetForceRls n b) cat = change_table n (\<lambda>t. Inr (t \<lparr>tb_force_rls := b\<rparr>)) cat"
| "exec (CreatePolicy n p) cat = change_table n (\<lambda>t.
     if pol_name p \<in> set (map pol_name (tb_policies t)) then Inl DuplicateObject
     else if \<not> list_all (\<lambda>c. c \<in> set (column_names t)) (policy_columns p) then Inl UndefinedColumn
     else Inr (t \<lparr>tb_policies := tb_policies t @ [p]\<rparr>)) cat"
| "exec (DropPolicy n p) cat =
     Inr (set_tables cat (map (\<lambda>t. if tb_name t = n
            then t \<lparr>tb_policies := filter (\<lambda>q. pol_name q \<noteq> p) (tb_policies t)\<rparr> else t) (cat_tables cat)))"

fun run_ddl :: "ddl list \<Rightarrow> catalog \<Rightarrow> (ddl_error, catalog) outcome" where
  "run_ddl [] cat = Inr cat"
| "run_ddl (op # ops) cat = try_bind (exec op cat) (run_ddl ops)"

lemma run_ddl_append: "run_ddl (xs @ ys) cat = try_bind (run_ddl xs cat) (run_ddl ys)"
  by (induction xs arbitrary: cat) (simp_all add: try_bind_def split: sum.splits)

subsection \<open>Names and tables the way SQLAlchemy writes them\<close>

text \<open>
  The naming convention: a primary key, foreign key or unique constraint without a name gets one
  from the table and its first column; the name of a \<open>CHECK\<close> is put behind its table's.
\<close>

definition uq_name :: "string \<Rightarrow> string \<Rightarrow> string" where
  "uq_name table c = ''uq_'' @ table @ ''_'' @ c"

definition ck_name :: "string \<Rightarrow> string \<Rightarrow> string" where
  "ck_name table constraint_name = ''ck_'' @ table @ ''_'' @ constraint_name"

definition fk_name :: "string \<Rightarrow> string \<Rightarrow> string \<Rightarrow> string" where
  "fk_name table c referred_table = ''fk_'' @ table @ ''_'' @ c @ ''_'' @ referred_table"

definition pk_name :: "string \<Rightarrow> string" where
  "pk_name table = ''pk_'' @ table"

definition not_null :: "string \<Rightarrow> column_type \<Rightarrow> column" where
  "not_null n ty = \<lparr>col_name = n, col_type = ty, col_nullable = False, col_default = None, col_generated = None\<rparr>"

definition nullable :: "string \<Rightarrow> column_type \<Rightarrow> column" where
  "nullable n ty = \<lparr>col_name = n, col_type = ty, col_nullable = True, col_default = None, col_generated = None\<rparr>"

definition server_default :: "default_value \<Rightarrow> column \<Rightarrow> column" where
  "server_default d c = c \<lparr>col_default := Some d\<rparr>"

definition computed :: "computed_value \<Rightarrow> column \<Rightarrow> column" where
  "computed e c = c \<lparr>col_generated := Some e\<rparr>"

text \<open>
  The items of a table: a column, one with \<open>primary_key=True\<close>, one with a \<open>ForeignKey\<close> to the key
  \<open>id\<close> of a table, one with \<open>unique=True\<close>, a named unique constraint, a \<open>CHECK (c IN ...)\<close> whose
  name the convention completes, and a constraint with a final name.
\<close>

datatype table_item =
    Col column
  | Key column
  | Ref column string on_delete
  | Unique column
  | UniqueConstraint string "string list"
  | CheckConstraint string string "string list"
  | NamedConstraint string table_constraint

fun item_columns :: "table_item \<Rightarrow> column list" where
  "item_columns (Col c) = [c]"
| "item_columns (Key c) = [c]"
| "item_columns (Ref c _ _) = [c]"
| "item_columns (Unique c) = [c]"
| "item_columns (UniqueConstraint _ _) = []"
| "item_columns (CheckConstraint _ _ _) = []"
| "item_columns (NamedConstraint _ _) = []"

fun item_constraints :: "string \<Rightarrow> table_item \<Rightarrow> (string \<times> table_constraint) list" where
  "item_constraints t (Col c) = []"
| "item_constraints t (Key c) = [(pk_name t, PrimaryKey [col_name c])]"
| "item_constraints t (Ref c u d) = [(fk_name t (col_name c) u, ForeignKey [col_name c] u [''id''] d)]"
| "item_constraints t (Unique c) = [(uq_name t (col_name c), UniqueKey [col_name c])]"
| "item_constraints t (UniqueConstraint n cs) = [(n, UniqueKey cs)]"
| "item_constraints t (CheckConstraint n c vs) = [(ck_name t n, CheckIn c vs)]"
| "item_constraints t (NamedConstraint n k) = [(n, k)]"

definition create_table :: "string \<Rightarrow> table_item list \<Rightarrow> ddl" where
  "create_table n items = CreateTable n (concat (map item_columns items)) (concat (map (item_constraints n) items))"

definition id_column :: table_item where
  "id_column = Key (server_default GenRandomUuid (not_null ''id'' UuidType))"

definition now_column :: "string \<Rightarrow> table_item" where
  "now_column n = Col (server_default Now (not_null n TimestampTz))"

definition btree :: "string \<Rightarrow> string list \<Rightarrow> index_def" where
  "btree n cs = \<lparr>ix_name = n, ix_method = Btree, ix_keys = map (\<lambda>c. (c, Asc)) cs, ix_where = None, ix_with = []\<rparr>"

end
