(* ===== verification/Migrations.thy ===== *)
theory Migrations
  imports Schema
begin

section \<open>The migrations\<close>

text \<open>
  The revisions under \<open>alembic/versions/\<close>: \<open>0001_initial_schema.py\<close>, \<open>0002_multi_tenant_rls.py\<close>,
  \<open>2ed4dbd5ebc0_add_organization_invites.py\<close> and \<open>3a233bd1a8c1_remove_password_hash.py\<close>, as lists of
  statements, in the order of the code.  The statements of \<open>0002\<close> that move data are in
  \<open>Migration\<close>.  \<open>alembic/env.py\<close> runs the revisions of one command in one transaction.
\<close>

subsection \<open>0001: the initial schema\<close>

definition create_users :: "ddl list" where
  "create_users =
    [create_table ''users''
      [id_column,
       Col (not_null ''email'' (VarChar 255)),
       Col (not_null ''password_hash'' (VarChar 255)),
       Col (server_default (Literal ''true'') (not_null ''is_active'' BooleanType)),
       now_column ''created_at'',
       now_column ''updated_at'',
       UniqueConstraint ''uq_users_email'' [''email'']],
     CreateIndex ''users'' (btree ''ix_users_email'' [''email''])]"

definition create_api_keys :: "ddl list" where
  "create_api_keys =
    [create_table ''api_keys''
      [id_column,
       Ref (not_null ''user_id'' UuidType) ''users'' OnDeleteCascade,
       Col (not_null ''key_prefix'' (VarChar 12)),
       Col (not_null ''key_hash'' (VarChar 255)),
       Col (not_null ''name'' (VarChar 100)),
       Col (server_default (Literal ''true'') (not_null ''is_active'' BooleanType)),
       Col (nullable ''expires_at'' TimestampTz),
       Col (nullable ''last_used_at'' TimestampTz),
       now_column ''created_at''],
     CreateIndex ''api_keys''
       (btree ''ix_api_keys_prefix_active'' [''key_prefix''] \<lparr>ix_where := Some (''is_active'', EqualTo ''true'')\<rparr>)]"

definition create_refresh_tokens :: "ddl list" where
  "create_refresh_tokens =
    [create_table ''refresh_tokens''
      [id_column,
       Ref (not_null ''user_id'' UuidType) ''users'' OnDeleteCascade,
       Col (not_null ''token_hash'' (VarChar 64)),
       Col (not_null ''expires_at'' TimestampTz),
       now_column ''created_at'',
       UniqueConstraint ''uq_refresh_tokens_token_hash'' [''token_hash'']]]"

definition create_documents :: "ddl list" where
  "create_documents =
    [create_table ''documents''
      [id_column,
       Ref (not_null ''user_id'' UuidType) ''users'' OnDeleteCascade,
       Col (not_null ''filename'' (VarChar 500)),
       Col (not_null ''content_hash'' (VarChar 64)),
       Col (not_null ''size_bytes'' BigIntegerType),
       Col (nullable ''mime_type'' (VarChar 100)),
       Col (nullable ''storage_key'' (VarChar 500)),
       Col (server_default (Literal ''pending'') (not_null ''status'' (VarChar 20))),
       Col (server_default (Literal ''0'') (not_null ''chunk_count'' IntegerType)),
       Col (nullable ''error_message'' TextType),
       now_column ''created_at'',
       now_column ''updated_at'',
       Col (nullable ''deleted_at'' TimestampTz),
       UniqueConstraint ''uq_documents_user_content'' [''user_id'', ''content_hash''],
       CheckConstraint ''ck_documents_status_valid'' ''status'' [''pending'', ''processing'', ''ready'', ''failed'']],
     CreateIndex ''documents''
       \<lparr>ix_name = ''ix_documents_user_active'', ix_method = Btree,
        ix_keys = [(''user_id'', Asc), (''created_at'', Desc)], ix_where = Some (''deleted_at'', IsNull), ix_with = []\<rparr>,
     CreateIndex ''documents''
       (btree ''ix_documents_status'' [''status''] \<lparr>ix_where := Some (''deleted_at'', IsNull)\<rparr>)]"

definition create_chunks :: "ddl list" where
  "create_chunks =
    [create_table ''chunks''
      [id_column,
       Ref (not_null ''document_id'' UuidType) ''documents'' OnDeleteCascade,
       Ref (not_null ''user_id'' UuidType) ''users'' NoAction,
       Col (not_null ''content'' TextType),
       Col (nullable ''page_number'' IntegerType),
       Col (not_null ''chunk_index'' IntegerType),
       Col (not_null ''embedding'' (VectorType 384)),
       Col (server_default (Literal ''{}'') (not_null ''metadata'' JsonbType)),
       now_column ''created_at''],
     AddColumn ''chunks''
       (computed (EnglishTsVector ''content'') (nullable ''tsv'' TsVectorType)),
     CreateIndex ''chunks'' (btree ''ix_chunks_document_id'' [''document_id'']),
     CreateIndex ''chunks'' (btree ''ix_chunks_user_id'' [''user_id'']),
     CreateIndex ''chunks''
       \<lparr>ix_name = ''ix_chunks_embedding'', ix_method = Hnsw, ix_keys = [(''embedding'', Asc)], ix_where = None,
        ix_with = [(''m'', 16), (''ef_construction'', 64)]\<rparr>,
     CreateIndex ''chunks''
       \<lparr>ix_name = ''ix_chunks_tsv'', ix_method = Gin, ix_keys = [(''tsv'', Asc)], ix_where = None, ix_with = []\<rparr>]"

definition create_ingestion_jobs :: "ddl list" where
  "create_ingestion_jobs =
    [create_table ''ingestion_jobs''
      [id_column,
       Ref (not_null ''document_id'' UuidType) ''documents'' OnDeleteCascade,
       Ref (not_null ''user_id'' UuidType) ''users'' NoAction,
       Col (server_default (Literal ''queued'') (not_null ''status'' (VarChar 20))),
       Col (not_null ''idempotency_key'' (VarChar 255)),
       Col (nullable ''worker_id'' (VarChar 100)),
       Col (server_default (Literal ''0'') (not_null ''attempt_count'' IntegerType)),
       Col (server_default (Literal ''3'') (not_null ''max_attempts'' IntegerType)),
       Col (server_default (Literal ''1'') (not_null ''version'' IntegerType)),
       Col (nullable ''error_message'' TextType),
       Col (nullable ''claimed_at'' TimestampTz),
       Col (nullable ''started_at'' TimestampTz),
       Col (nullable ''completed_at'' TimestampTz),
       now_column ''created_at'',
       UniqueConstraint ''uq_jobs_user_idempotency'' [''user_id'', ''idempotency_key''],
       CheckConstraint ''ck_jobs_status_valid'' ''status''
         [''queued'', ''claimed'', ''running'', ''completed'', ''failed'', ''dead'']],
     CreateIndex ''ingestion_jobs''
       (btree ''ix_jobs_dequeue'' [''created_at''] \<lparr>ix_where := Some (''status'', EqualTo ''queued'')\<rparr>),
     CreateIndex ''ingestion_jobs'' (btree ''ix_jobs_document_id'' [''document_id''])]"

definition initial_upgrade :: "ddl list" where
  "initial_upgrade =
     [CreateExtension ''pgcrypto'', CreateExtension ''vector''] @ create_users @ create_api_keys @
     create_refresh_tokens @ create_documents @ create_chunks @ create_ingestion_jobs"

definition initial_downgrade :: "ddl list" where
  "initial_downgrade =
     [DropTable ''ingestion_jobs'', DropTable ''chunks'', DropTable ''documents'', DropTable ''refresh_tokens'',
      DropTable ''api_keys'', DropTable ''users'', DropExtension ''vector'', DropExtension ''pgcrypto'']"

subsection \<open>0002: tenants and row-level security\<close>

definition tenant_policy :: policy where
  "tenant_policy = \<lparr>pol_name = ''tenant_isolation'', pol_using = IsCurrentTenant ''tenant_id'', pol_check = IsCurrentTenant ''tenant_id''\<rparr>"

definition worker_policy :: policy where
  "worker_policy = \<lparr>pol_name = ''worker_access'', pol_using = WorkerModeOn, pol_check = WorkerModeOn\<rparr>"

definition enable_rls :: "string \<Rightarrow> ddl list" where
  "enable_rls table =
     [SetRls table True, SetForceRls table True, CreatePolicy table tenant_policy, CreatePolicy table worker_policy]"

definition disable_rls :: "string \<Rightarrow> ddl list" where
  "disable_rls table =
     [DropPolicy table ''worker_access'', DropPolicy table ''tenant_isolation'', SetForceRls table False, SetRls table False]"

definition create_organizations :: "ddl list" where
  "create_organizations =
    [create_table ''organizations''
      [id_column,
       Col (not_null ''name'' (VarChar 255)),
       Col (not_null ''slug'' (VarChar 100)),
       now_column ''created_at'',
       UniqueConstraint ''uq_organizations_slug'' [''slug'']],
     CreateIndex ''organizations'' (btree ''ix_organizations_slug'' [''slug''])]"

definition create_org_memberships :: "ddl list" where
  "create_org_memberships =
    [create_table ''org_memberships''
      [id_column,
       Ref (not_null ''org_id'' UuidType) ''organizations'' OnDeleteCascade,
       Ref (not_null ''user_id'' UuidType) ''users'' OnDeleteCascade,
       Col (server_default (Literal ''admin'') (not_null ''role'' (VarChar 20))),
       now_column ''created_at'',
       CheckConstraint ''ck_org_memberships_role_valid'' ''role'' [''admin'', ''editor'', ''viewer''],
       UniqueConstraint ''uq_org_memberships_org_user'' [''org_id'', ''user_id'']],
     CreateIndex ''org_memberships'' (btree ''ix_org_memberships_user'' [''user_id''])]"

definition add_tenant_columns :: "ddl list" where
  "add_tenant_columns =
    [AddColumn ''documents'' (nullable ''tenant_id'' UuidType),
     AddColumn ''chunks'' (nullable ''tenant_id'' UuidType),
     AddColumn ''ingestion_jobs'' (nullable ''tenant_id'' UuidType)]"

definition require_tenants :: "ddl list" where
  "require_tenants =
    [SetNotNull ''documents'' ''tenant_id'', SetNotNull ''chunks'' ''tenant_id'', SetNotNull ''ingestion_jobs'' ''tenant_id'',
     AddConstraint ''documents'' ''fk_documents_tenant_id_organizations''
       (ForeignKey [''tenant_id''] ''organizations'' [''id''] NoAction),
     AddConstraint ''chunks'' ''fk_chunks_tenant_id_organizations''
       (ForeignKey [''tenant_id''] ''organizations'' [''id''] NoAction),
     AddConstraint ''ingestion_jobs'' ''fk_ingestion_jobs_tenant_id_organizations''
       (ForeignKey [''tenant_id''] ''organizations'' [''id''] NoAction),
     DropConstraint ''documents'' ''uq_documents_user_content'',
     DropConstraint ''ingestion_jobs'' ''uq_jobs_user_idempotency'',
     AddConstraint ''documents'' ''uq_documents_tenant_content'' (UniqueKey [''tenant_id'', ''content_hash'']),
     AddConstraint ''ingestion_jobs'' ''uq_jobs_tenant_idempotency'' (UniqueKey [''tenant_id'', ''idempotency_key'']),
     CreateIndex ''documents''
       \<lparr>ix_name = ''ix_documents_tenant_active'', ix_method = Btree,
        ix_keys = [(''tenant_id'', Asc), (''created_at'', Desc)], ix_where = Some (''deleted_at'', IsNull), ix_with = []\<rparr>,
     CreateIndex ''chunks'' (btree ''ix_chunks_tenant_id'' [''tenant_id''])]"

text \<open>
  The statements of 0002 on the catalogue.  Between \<open>add_tenant_columns\<close> and \<open>require_tenants\<close> the script fills in
  the tenants; what that does to the rows, and the errors it may meet, is \<open>upgrade_0002\<close> of \<open>Migration\<close>, and
  \<open>MigrationRuns\<close> runs both.
\<close>

definition tenants_upgrade :: "ddl list" where
  "tenants_upgrade =
     create_organizations @ create_org_memberships @ add_tenant_columns @ require_tenants @
     enable_rls ''documents'' @ enable_rls ''chunks'' @ enable_rls ''ingestion_jobs''"

definition tenants_downgrade :: "ddl list" where
  "tenants_downgrade =
     disable_rls ''ingestion_jobs'' @ disable_rls ''chunks'' @ disable_rls ''documents'' @
     [DropIndex ''ix_chunks_tenant_id'', DropIndex ''ix_documents_tenant_active'',
      DropConstraint ''ingestion_jobs'' ''uq_jobs_tenant_idempotency'',
      DropConstraint ''documents'' ''uq_documents_tenant_content'',
      AddConstraint ''ingestion_jobs'' ''uq_jobs_user_idempotency'' (UniqueKey [''user_id'', ''idempotency_key'']),
      AddConstraint ''documents'' ''uq_documents_user_content'' (UniqueKey [''user_id'', ''content_hash'']),
      DropConstraint ''ingestion_jobs'' ''fk_ingestion_jobs_tenant_id_organizations'',
      DropConstraint ''chunks'' ''fk_chunks_tenant_id_organizations'',
      DropConstraint ''documents'' ''fk_documents_tenant_id_organizations'',
      DropColumn ''ingestion_jobs'' ''tenant_id'', DropColumn ''chunks'' ''tenant_id'', DropColumn ''documents'' ''tenant_id'',
      DropIndex ''ix_org_memberships_user'', DropTable ''org_memberships'',
      DropIndex ''ix_organizations_slug'', DropTable ''organizations'']"

subsection \<open>2ed4dbd5ebc0: invitations\<close>

definition invites_upgrade :: "ddl list" where
  "invites_upgrade =
    [create_table ''organization_invites''
      [Col (server_default GenRandomUuid (not_null ''id'' UuidType)),
       Col (not_null ''org_id'' UuidType),
       Col (not_null ''email'' (VarChar 255)),
       Col (not_null ''role'' (VarChar 20)),
       Col (not_null ''token_hash'' (VarChar 64)),
       Col (not_null ''status'' (VarChar 20)),
       Col (not_null ''expires_at'' TimestampTz),
       now_column ''created_at'',
       Col (nullable ''accepted_at'' TimestampTz),
       Col (nullable ''created_by'' UuidType),
       NamedConstraint ''ck_organization_invites_ck_org_invites_role_valid'' (CheckIn ''role'' [''admin'', ''editor'', ''viewer'']),
       NamedConstraint ''ck_organization_invites_ck_org_invites_status_valid''
         (CheckIn ''status'' [''pending'', ''accepted'', ''rejected'', ''revoked'']),
       NamedConstraint ''fk_organization_invites_created_by_users'' (ForeignKey [''created_by''] ''users'' [''id''] OnDeleteSetNull),
       NamedConstraint ''fk_organization_invites_org_id_organizations'' (ForeignKey [''org_id''] ''organizations'' [''id''] OnDeleteCascade),
       NamedConstraint ''pk_organization_invites'' (PrimaryKey [''id'']),
       NamedConstraint ''uq_organization_invites_token_hash'' (UniqueKey [''token_hash''])],
     CreateIndex ''organization_invites'' (btree ''ix_org_invites_email_status'' [''email'', ''status''])]"

definition invites_downgrade :: "ddl list" where
  "invites_downgrade = [DropIndex ''ix_org_invites_email_status'', DropTable ''organization_invites'']"

subsection \<open>3a233bd1a8c1: no password hash\<close>

definition password_upgrade :: "ddl list" where
  "password_upgrade = [DropColumn ''users'' ''password_hash'']"

definition password_downgrade :: "ddl list" where
  "password_downgrade = [AddColumn ''users'' (nullable ''password_hash'' (VarChar 255))]"

end
