(* ===== verification/MigrationHistory.thy ===== *)
theory MigrationHistory
  imports Migrations
begin

section \<open>The history of the schema\<close>

text \<open>
  The revisions in the order of their \<open>down_revision\<close>s, the scripts that lead from one to another,
  and what their statements do to the catalogue of a database that may hold other tables: they build
  the schema of the target, and back again, except that the removal of the password hash cannot be
  undone.  What the revisions do to the rows is in \<open>MigrationRuns\<close>.
\<close>

subsection \<open>Revisions\<close>

datatype revision = R0001 | R0002 | R2ed4dbd5ebc0 | R3a233bd1a8c1

fun down_revision :: "revision \<Rightarrow> revision option" where
  "down_revision R0001 = None"
| "down_revision R0002 = Some R0001"
| "down_revision R2ed4dbd5ebc0 = Some R0002"
| "down_revision R3a233bd1a8c1 = Some R2ed4dbd5ebc0"

fun upgrade :: "revision \<Rightarrow> ddl list" where
  "upgrade R0001 = initial_upgrade"
| "upgrade R0002 = tenants_upgrade"
| "upgrade R2ed4dbd5ebc0 = invites_upgrade"
| "upgrade R3a233bd1a8c1 = password_upgrade"

fun downgrade :: "revision \<Rightarrow> ddl list" where
  "downgrade R0001 = initial_downgrade"
| "downgrade R0002 = tenants_downgrade"
| "downgrade R2ed4dbd5ebc0 = invites_downgrade"
| "downgrade R3a233bd1a8c1 = password_downgrade"

text \<open>The revisions up to one, oldest first: the walk along \<open>down_revision\<close>, which ends.\<close>

fun revision_number :: "revision \<Rightarrow> nat" where
  "revision_number R0001 = 0"
| "revision_number R0002 = 1"
| "revision_number R2ed4dbd5ebc0 = 2"
| "revision_number R3a233bd1a8c1 = 3"

lemma down_revision_number: "down_revision r = Some p \<Longrightarrow> revision_number p < revision_number r"
  by (cases r) auto

function history :: "revision \<Rightarrow> revision list" where
  "history r = (case down_revision r of None \<Rightarrow> [r] | Some p \<Rightarrow> history p @ [r])"
  by pat_completeness auto

termination
  by (relation "measure revision_number") (auto dest: down_revision_number)

declare history.simps [simp del]

lemma history_simps [simp]:
  "history R0001 = [R0001]"
  "history R0002 = [R0001, R0002]"
  "history R2ed4dbd5ebc0 = [R0001, R0002, R2ed4dbd5ebc0]"
  "history R3a233bd1a8c1 = [R0001, R0002, R2ed4dbd5ebc0, R3a233bd1a8c1]"
  by (simp_all add: history.simps)

text \<open>Older revisions are smaller.\<close>

instantiation revision :: linorder
begin

definition less_eq_revision :: "revision \<Rightarrow> revision \<Rightarrow> bool" where
  "less_eq_revision r s \<longleftrightarrow> r \<in> set (history s)"

definition less_revision :: "revision \<Rightarrow> revision \<Rightarrow> bool" where
  "less_revision r s \<longleftrightarrow> r \<noteq> s \<and> r \<in> set (history s)"

lemma revision_le_number: "r \<le> s \<longleftrightarrow> revision_number r \<le> revision_number s"
  by (cases r; cases s) (simp_all add: less_eq_revision_def)

lemma revision_number_inj: "revision_number r = revision_number s \<longleftrightarrow> r = s"
  by (cases r; cases s) simp_all

instance
proof
  fix r s t :: revision
  show "(r < s) = (r \<le> s \<and> \<not> s \<le> r)"
    by (cases r; cases s) (simp_all add: less_revision_def less_eq_revision_def)
  show "r \<le> r" by (simp add: revision_le_number)
  show "r \<le> s \<Longrightarrow> s \<le> t \<Longrightarrow> r \<le> t" by (simp add: revision_le_number)
  show "r \<le> s \<Longrightarrow> s \<le> r \<Longrightarrow> r = s" by (simp add: revision_le_number flip: revision_number_inj)
  show "r \<le> s \<or> s \<le> r" by (auto simp: revision_le_number)
qed

end

subsection \<open>Scripts\<close>

text \<open>The revision of a database; \<open>None\<close> is a database before the first.\<close>

definition newer :: "revision option \<Rightarrow> revision \<Rightarrow> bool" where
  "newer c r \<longleftrightarrow> (case c of None \<Rightarrow> True | Some p \<Rightarrow> p < r)"

definition upgrade_script :: "revision option \<Rightarrow> revision \<Rightarrow> ddl list" where
  "upgrade_script c r = concat (map upgrade (filter (newer c) (history r)))"

definition downgrade_script :: "revision \<Rightarrow> revision option \<Rightarrow> ddl list" where
  "downgrade_script r c = concat (map downgrade (rev (filter (newer c) (history r))))"

subsection \<open>Schemas up to order\<close>

definition same_table :: "table_def \<Rightarrow> table_def \<Rightarrow> bool" where
  "same_table t u \<longleftrightarrow> tb_name t = tb_name u \<and> set (tb_columns t) = set (tb_columns u) \<and>
     set (tb_constraints t) = set (tb_constraints u) \<and> set (tb_indexes t) = set (tb_indexes u) \<and>
     tb_rls t = tb_rls u \<and> tb_force_rls t = tb_force_rls u \<and> set (tb_policies t) = set (tb_policies u)"

definition same_schema :: "catalog \<Rightarrow> catalog \<Rightarrow> bool" where
  "same_schema c d \<longleftrightarrow> cat_extensions c = cat_extensions d \<and> list_all2 same_table (cat_tables c) (cat_tables d)"

text \<open>The schema of a revision.\<close>

definition schema_at :: "revision option \<Rightarrow> catalog" where
  "schema_at c = (case c of
     None \<Rightarrow> empty_catalog
   | Some r \<Rightarrow> (case run_ddl (upgrade_script None r) empty_catalog of Inl _ \<Rightarrow> empty_catalog | Inr cat \<Rightarrow> cat))"

subsection \<open>Other tables in the database\<close>

definition beside :: "table_def list \<Rightarrow> catalog \<Rightarrow> catalog" where
  "beside others cat = set_tables cat (others @ cat_tables cat)"

fun constraint_names :: "string \<times> table_constraint \<Rightarrow> string list" where
  "constraint_names (k, ForeignKey _ u _ _) = [u]"
| "constraint_names (k, con) = (if is_key con then [k] else [])"

text \<open>The tables and relations a statement mentions.\<close>

fun ddl_names :: "ddl \<Rightarrow> string list" where
  "ddl_names (CreateExtension _) = []"
| "ddl_names (DropExtension _) = []"
| "ddl_names (CreateTable n _ cons) = n # concat (map constraint_names cons)"
| "ddl_names (DropTable n) = [n]"
| "ddl_names (AddColumn n _) = [n]"
| "ddl_names (DropColumn n _) = [n]"
| "ddl_names (SetNotNull n _) = [n]"
| "ddl_names (AddConstraint n k con) = n # constraint_names (k, con)"
| "ddl_names (DropConstraint n _) = [n]"
| "ddl_names (CreateIndex n ix) = [n, ix_name ix]"
| "ddl_names (DropIndex i) = [i]"
| "ddl_names (SetRls n _) = [n]"
| "ddl_names (SetForceRls n _) = [n]"
| "ddl_names (CreatePolicy n _) = [n]"
| "ddl_names (DropPolicy n _) = [n]"

text \<open>A table that shares no name, has no reference to one and no vectors.\<close>

definition apart :: "string list \<Rightarrow> table_def \<Rightarrow> bool" where
  "apart ns t \<longleftrightarrow> list_all (\<lambda>r. r \<notin> set ns) (table_relations t) \<and>
     list_all (\<lambda>(_, con). list_all (\<lambda>n. \<not> refers_to n con) ns) (tb_constraints t) \<and> \<not> uses_vector t"

definition platform_names :: "string list" where
  "platform_names = concat (map ddl_names (concat (map upgrade (history R3a233bd1a8c1)) @
     concat (map downgrade (history R3a233bd1a8c1))))"

subsection \<open>A script leaves other tables alone\<close>

lemma apart_name: "apart ns t \<Longrightarrow> n \<in> set ns \<Longrightarrow> tb_name t \<noteq> n"
  by (auto simp: apart_def table_relations_def)

lemma apart_refers: "apart ns t \<Longrightarrow> n \<in> set ns \<Longrightarrow> (k, con) \<in> set (tb_constraints t) \<Longrightarrow> \<not> refers_to n con"
  by (auto simp: apart_def list_all_iff)

lemma find_table_beside:
  "list_all (apart ns) others \<Longrightarrow> n \<in> set ns \<Longrightarrow> find_table n (others @ ts) = find_table n ts"
  unfolding find_table_def by (induction others) (auto dest: apart_name)

lemma relations_beside:
  "list_all (apart ns) others \<Longrightarrow> r \<in> set ns \<Longrightarrow> r \<in> set (relations (others @ ts)) \<longleftrightarrow> r \<in> set (relations ts)"
  by (induction others) (auto simp: relations_def apart_def list_all_iff)

lemma referred_beside:
  "list_all (apart ns) others \<Longrightarrow> n \<in> set ns \<Longrightarrow> referred n (others @ ts) = referred n ts"
  unfolding referred_def list_ex_append using apart_refers by (fastforce simp: list_all_iff list_ex_iff)

lemma depends_refers: "depends_on n cs con \<Longrightarrow> refers_to n con"
  by (cases con) auto

lemma key_in_use_beside:
  "list_all (apart ns) others \<Longrightarrow> n \<in> set ns \<Longrightarrow> key_in_use n k (others @ ts) = key_in_use n k ts"
  unfolding key_in_use_def list_ex_append using apart_refers
  by (fastforce simp: list_all_iff list_ex_iff dest: depends_refers)

lemma change_table_beside:
  assumes "list_all (apart ns) others" and "n \<in> set ns"
    and "change_table n f cat = Inr cat'" and "\<And>t. tb_name t = n \<Longrightarrow> g t = f t"
  shows "change_table n g (beside others cat) = Inr (beside others cat')"
proof -
  have others: "map (\<lambda>u. if tb_name u = n then t' else u) others = others" for t'
    using assms(1,2) by (intro map_idI) (auto simp: list_all_iff dest: apart_name)
  from assms(3) obtain t t' where t: "find_table n (cat_tables cat) = Some t" "f t = Inr t'"
    "cat' = set_tables cat (map (\<lambda>u. if tb_name u = n then t' else u) (cat_tables cat))"
    by (auto simp: change_table_def split: option.splits sum.splits)
  have "tb_name t = n" using t(1) by (auto simp: find_table_def find_Some_iff)
  with t assms(4) show ?thesis
    by (simp add: change_table_def beside_def set_tables_def find_table_beside [OF assms(1,2)] others)
qed

lemma constraint_error_beside:
  assumes "list_all (apart ns) others" and "set (constraint_names (k, con)) \<subseteq> set ns"
  shows "constraint_error (others @ ts) t con = constraint_error ts t con"
  using assms by (cases con) (simp_all add: constraint_error_def find_table_beside)

lemma create_table_error_beside:
  assumes "list_all (apart ns) others" and "set (n # concat (map constraint_names cons)) \<subseteq> set ns"
    and "tb_name t = n" "tb_constraints t = cons" "tb_indexes t = []"
  shows "create_table_error (cat \<lparr>cat_tables := others @ cat_tables cat\<rparr>) t = create_table_error cat t"
proof -
  have rel: "r \<in> set ns" if "r \<in> set (table_relations t)" for r
  proof -
    have "is_key con \<Longrightarrow> k \<in> set (constraint_names (k, con))" for k con by (cases con) auto
    then show ?thesis using that assms(2-5) unfolding table_relations_def by fastforce
  qed
  have rels: "list_all (\<lambda>r. r \<notin> set (relations (others @ cat_tables cat))) (table_relations t) =
      list_all (\<lambda>r. r \<notin> set (relations (cat_tables cat))) (table_relations t)"
    unfolding list_all_iff using relations_beside [OF assms(1) rel] by blast
  have con: "List.map_filter (\<lambda>(_, con). constraint_error ((others @ cat_tables cat) @ [t]) t con) xs =
      List.map_filter (\<lambda>(_, con). constraint_error (cat_tables cat @ [t]) t con) xs" if "set xs \<subseteq> set cons" for xs
    using that
  proof (induction xs)
    case (Cons x xs)
    obtain k con where x: "x = (k, con)" by fastforce
    have "set (constraint_names (k, con)) \<subseteq> set ns" using Cons.prems assms(2) x by auto
    from constraint_error_beside [OF assms(1) this, of "cat_tables cat @ [t]" t] Cons x show ?case
      by (simp add: List.map_filter_simps split: option.split)
  qed (simp add: List.map_filter_simps)
  show ?thesis
    unfolding create_table_error_def using con [of cons] assms(4) rels by simp
qed

lemma apart_other:
  "list_all (apart ns) others \<Longrightarrow> n \<in> set ns \<Longrightarrow> filter (\<lambda>t. tb_name t \<noteq> n) others = others"
  "list_all (apart ns) others \<Longrightarrow> n \<in> set ns \<Longrightarrow> map (\<lambda>t. if tb_name t = n then f t else t) others = others"
proof -
  assume a: "list_all (apart ns) others" "n \<in> set ns"
  then have ne: "tb_name t \<noteq> n" if "t \<in> set others" for t using that by (auto simp: list_all_iff dest: apart_name)
  then show "filter (\<lambda>t. tb_name t \<noteq> n) others = others" by (simp add: filter_id_conv)
  show "map (\<lambda>t. if tb_name t = n then f t else t) others = others" using ne by (simp add: map_idI)
qed

lemma drop_index_other:
  assumes "list_all (apart ns) others" and "i \<in> set ns"
  shows "map (\<lambda>t. t \<lparr>tb_indexes := filter (\<lambda>ix. ix_name ix \<noteq> i) (tb_indexes t)\<rparr>) others = others"
    and "\<not> list_ex (\<lambda>t. list_ex (\<lambda>ix. ix_name ix = i) (tb_indexes t)) others"
proof -
  have "ix_name ix \<noteq> i" if "t \<in> set others" "ix \<in> set (tb_indexes t)" for t ix
    using assms that by (auto simp: list_all_iff apart_def table_relations_def)
  then show "map (\<lambda>t. t \<lparr>tb_indexes := filter (\<lambda>ix. ix_name ix \<noteq> i) (tb_indexes t)\<rparr>) others = others"
    and "\<not> list_ex (\<lambda>t. list_ex (\<lambda>ix. ix_name ix = i) (tb_indexes t)) others"
    by (auto intro!: map_idI simp: filter_id_conv list_ex_iff)
qed

lemma drop_column_beside:
  "list_all (apart ns) others \<Longrightarrow> tb_name t \<in> set ns \<Longrightarrow> drop_column_from (others @ ts) c t = drop_column_from ts c t"
  by (simp add: drop_column_from_def key_in_use_beside)

lemma exec_beside:
  assumes ap: "list_all (apart ns) others" and names: "set (ddl_names op) \<subseteq> set ns" and run: "exec op cat = Inr cat'"
  shows "exec op (beside others cat) = Inr (beside others cat')"
proof -
  have no_vector: "\<not> list_ex uses_vector others" using ap by (auto simp: list_all_iff list_ex_iff apart_def)
  have tables: "cat_tables (beside others cat) = others @ cat_tables cat" by (simp add: beside_def set_tables_def)
  show ?thesis
  proof (cases op)
    case (CreateTable n cols cons)
    with run names show ?thesis
      by (auto simp: create_table_error_beside [OF ap, of n cons] Let_def beside_def set_tables_def split: option.splits)
  next
    case (DropTable n)
    then show ?thesis using run names
      by (auto simp: referred_beside [OF ap] find_table_beside [OF ap] apart_other [OF ap] beside_def set_tables_def
          split: if_splits)
  next
    case (AddConstraint n k con)
    then have con: "set (constraint_names (k, con)) \<subseteq> set ns" using names by simp
    have key: "is_key con \<Longrightarrow> k \<in> set ns" using con by (cases con) auto
    show ?thesis unfolding AddConstraint exec.simps using names
      by (intro change_table_beside [OF ap _ run [unfolded AddConstraint exec.simps]])
        (auto simp: AddConstraint tables constraint_error_beside [OF ap con] relations_beside [OF ap key] cong: conj_cong)
  next
    case (DropConstraint n k)
    then show ?thesis unfolding DropConstraint exec.simps using names
      by (intro change_table_beside [OF ap _ run [unfolded DropConstraint exec.simps]])
        (auto simp: DropConstraint tables key_in_use_beside [OF ap] split: option.splits)
  next
    case (DropColumn n c)
    then show ?thesis unfolding DropColumn exec.simps using names
      by (intro change_table_beside [OF ap _ run [unfolded DropColumn exec.simps]])
        (auto simp: DropColumn tables drop_column_beside [OF ap])
  next
    case (CreateIndex n ix)
    then show ?thesis unfolding CreateIndex exec.simps using names
      by (intro change_table_beside [OF ap _ run [unfolded CreateIndex exec.simps]])
        (auto simp: CreateIndex tables relations_beside [OF ap])
  next
    case (DropIndex i)
    then show ?thesis using run names
      by (auto simp: drop_index_other [OF ap] beside_def set_tables_def split: if_splits)
  next
    case (DropPolicy n p)
    then show ?thesis using run names by (auto simp: apart_other [OF ap] beside_def set_tables_def)
  next
    case (CreateExtension x)
    then show ?thesis using run by (auto simp: beside_def set_tables_def split: if_splits)
  next
    case (DropExtension x)
    then show ?thesis using run no_vector by (auto simp: beside_def set_tables_def split: if_splits)
  qed (use run names in \<open>auto intro!: change_table_beside [OF ap]\<close>)
qed

lemma run_ddl_beside:
  assumes "list_all (apart ns) others" and "set (concat (map ddl_names ops)) \<subseteq> set ns" and "run_ddl ops cat = Inr cat'"
  shows "run_ddl ops (beside others cat) = Inr (beside others cat')"
  using assms(2,3)
proof (induction ops arbitrary: cat)
  case (Cons op ops)
  from Cons.prems obtain c where "exec op cat = Inr c" "run_ddl ops c = Inr cat'"
    by (auto dest: try_bind_InrD)
  with Cons exec_beside [OF assms(1), of op cat c] show ?case by auto
qed simp

subsection \<open>What the scripts do\<close>

lemma names_platform:
  "set (concat (map ddl_names (upgrade_script c r))) \<subseteq> set platform_names"
  "set (concat (map ddl_names (downgrade_script r c))) \<subseteq> set platform_names"
proof -
  have "set (history r) \<subseteq> set (history R3a233bd1a8c1)" by (cases r) auto
  then show "set (concat (map ddl_names (upgrade_script c r))) \<subseteq> set platform_names"
    "set (concat (map ddl_names (downgrade_script r c))) \<subseteq> set platform_names"
    unfolding upgrade_script_def downgrade_script_def platform_names_def by fastforce+
qed

text \<open>
  One evaluation of the history: every upgrade from the empty catalogue, and every downgrade from
  the schema of its revision.
\<close>

definition password_column :: "catalog \<Rightarrow> bool \<Rightarrow> bool" where
  "password_column cat null = (case find_table ''users'' (cat_tables cat) of None \<Rightarrow> False
     | Some t \<Rightarrow> (if null then nullable else not_null) ''password_hash'' (VarChar 255) \<in> set (tb_columns t))"

lemma history_evaluates:
  "case run_ddl initial_upgrade empty_catalog of Inl _ \<Rightarrow> False | Inr c1 \<Rightarrow>
     run_ddl initial_downgrade c1 = Inr empty_catalog \<and>
     (case run_ddl tenants_upgrade c1 of Inl _ \<Rightarrow> False | Inr c2 \<Rightarrow>
       (case run_ddl tenants_downgrade c2 of Inl _ \<Rightarrow> False | Inr c \<Rightarrow>
          same_schema c c1 \<and> run_ddl initial_downgrade c = Inr empty_catalog) \<and>
       (case run_ddl invites_upgrade c2 of Inl _ \<Rightarrow> False | Inr c3 \<Rightarrow>
          run_ddl invites_downgrade c3 = Inr c2 \<and> password_column c3 False \<and>
          (case run_ddl password_upgrade c3 of Inl _ \<Rightarrow> False | Inr c4 \<Rightarrow>
             (case run_ddl password_downgrade c4 of Inl _ \<Rightarrow> False | Inr c \<Rightarrow> password_column c True))))"
  by code_simp

lemma schemas:
  "run_ddl initial_upgrade empty_catalog = Inr (schema_at (Some R0001))"
  "run_ddl tenants_upgrade (schema_at (Some R0001)) = Inr (schema_at (Some R0002))"
  "run_ddl invites_upgrade (schema_at (Some R0002)) = Inr (schema_at (Some R2ed4dbd5ebc0))"
  "run_ddl password_upgrade (schema_at (Some R2ed4dbd5ebc0)) = Inr (schema_at (Some R3a233bd1a8c1))"
proof -
  from history_evaluates obtain c1 c2 c3 c4 where run: "run_ddl initial_upgrade empty_catalog = Inr c1"
    "run_ddl tenants_upgrade c1 = Inr c2" "run_ddl invites_upgrade c2 = Inr c3" "run_ddl password_upgrade c3 = Inr c4"
    by (auto split: sum.splits)
  then have "schema_at (Some R0001) = c1" "schema_at (Some R0002) = c2" "schema_at (Some R2ed4dbd5ebc0) = c3"
    "schema_at (Some R3a233bd1a8c1) = c4"
    by (simp_all add: schema_at_def upgrade_script_def newer_def run_ddl_append)
  with run show "run_ddl initial_upgrade empty_catalog = Inr (schema_at (Some R0001))"
    "run_ddl tenants_upgrade (schema_at (Some R0001)) = Inr (schema_at (Some R0002))"
    "run_ddl invites_upgrade (schema_at (Some R0002)) = Inr (schema_at (Some R2ed4dbd5ebc0))"
    "run_ddl password_upgrade (schema_at (Some R2ed4dbd5ebc0)) = Inr (schema_at (Some R3a233bd1a8c1))"
    by simp_all
qed

lemma schemas_undone:
  "run_ddl initial_downgrade (schema_at (Some R0001)) = Inr empty_catalog"
  "run_ddl invites_downgrade (schema_at (Some R2ed4dbd5ebc0)) = Inr (schema_at (Some R0002))"
  "case run_ddl tenants_downgrade (schema_at (Some R0002)) of Inl _ \<Rightarrow> False
   | Inr cat \<Rightarrow> same_schema cat (schema_at (Some R0001)) \<and> run_ddl initial_downgrade cat = Inr empty_catalog"
  using history_evaluates by (simp_all add: schemas split: sum.splits)

lemma newer_simps [simp]: "newer None r" "newer (Some p) r \<longleftrightarrow> p < r"
  by (simp_all add: newer_def)

lemma revision_less_number: "r < s \<longleftrightarrow> revision_number r < revision_number s"
  by (cases r; cases s) (simp_all add: less_revision_def)

lemma upgrade_script_split:
  assumes "newer c r"
  shows "upgrade_script None r = (case c of None \<Rightarrow> [] | Some p \<Rightarrow> upgrade_script None p) @ upgrade_script c r"
proof (cases c)
  case (Some p)
  with assms have "p < r" by simp
  then have "upgrade_script None r = upgrade_script None p @ upgrade_script (Some p) r"
    unfolding revision_less_number upgrade_script_def by (cases p; cases r) (simp_all add: revision_less_number)
  with Some show ?thesis by simp
qed simp

lemma schema_at_run: "run_ddl (upgrade_script None r) empty_catalog = Inr (schema_at (Some r))"
  by (cases r) (simp_all add: upgrade_script_def run_ddl_append schemas)

lemma upgrade_run: "newer c r \<Longrightarrow> run_ddl (upgrade_script c r) (schema_at c) = Inr (schema_at (Some r))"
proof (cases c)
  case None
  then show ?thesis using schema_at_run [of r] by (simp add: schema_at_def)
next
  case (Some p)
  assume "newer c r"
  from upgrade_script_split [OF this] have "upgrade_script None r = upgrade_script None p @ upgrade_script c r"
    by (simp add: Some)
  then show ?thesis using schema_at_run [of r] schema_at_run [of p] by (simp add: Some run_ddl_append)
qed

lemma downgrade_run:
  assumes "newer c r" and "r < R3a233bd1a8c1"
  shows "\<exists>cat. run_ddl (downgrade_script r c) (schema_at (Some r)) = Inr cat \<and> same_schema cat (schema_at c)"
proof -
  obtain cat where cat: "run_ddl tenants_downgrade (schema_at (Some R0002)) = Inr cat"
    "same_schema cat (schema_at (Some R0001))" "run_ddl initial_downgrade cat = Inr empty_catalog"
    using schemas_undone(3) by (auto split: sum.splits)
  have same: "same_schema x x" for x by (simp add: same_schema_def same_table_def list_all2_refl)
  have base: "schema_at None = empty_catalog" by (simp add: schema_at_def)
  have "c = None \<or> c = Some R0001 \<or> c = Some R0002"
    using assms by (cases c; cases r; auto simp: revision_less_number; rename_tac p; case_tac p; simp)
  then consider "r = R0001" "c = None" | "r = R0002" "c = None" | "r = R0002" "c = Some R0001"
    | "r = R2ed4dbd5ebc0" "c = None" | "r = R2ed4dbd5ebc0" "c = Some R0001" | "r = R2ed4dbd5ebc0" "c = Some R0002"
    using assms by (cases r) (auto simp: revision_less_number)
  then show ?thesis
    by cases (simp_all add: downgrade_script_def revision_less_number run_ddl_append cat same schemas_undone(1,2) base)
qed

subsection \<open>Upgrade and downgrade\<close>

text \<open>
  In a database with any other tables that share no names with the platform and do not refer to it,
  an upgrade builds the schema of its target; below the last revision a downgrade then gives the
  schema of the start back, with the other tables untouched.
\<close>

lemma run_upgrade:
  assumes "list_all (apart platform_names) others" and "newer c r"
  shows "run_ddl (upgrade_script c r) (beside others (schema_at c)) = Inr (beside others (schema_at (Some r)))"
  by (rule run_ddl_beside [OF assms(1) names_platform(1) upgrade_run [OF assms(2)]])

lemma run_downgrade:
  assumes "list_all (apart platform_names) others" and "newer c r" and "r < R3a233bd1a8c1"
  shows "\<exists>cat. same_schema cat (schema_at c) \<and>
    run_ddl (downgrade_script r c) (beside others (schema_at (Some r))) = Inr (beside others cat)"
  using downgrade_run [OF assms(2,3)] run_ddl_beside [OF assms(1) names_platform(2) [of r c]] by blast

definition alembic_version :: table_def where
  "alembic_version = \<lparr>tb_name = ''alembic_version'', tb_columns = [not_null ''version_num'' (VarChar 32)],
     tb_constraints = [(''alembic_version_pkc'', PrimaryKey [''version_num''])], tb_indexes = [], tb_rls = False,
     tb_force_rls = False, tb_policies = []\<rparr>"

lemma alembic_version_apart: "list_all (apart platform_names) [alembic_version]"
  by code_simp

text \<open>
  The last revision drops the password hashes, which \<open>0001\<close> declares \<open>NOT NULL\<close>; its downgrade adds
  the column as a nullable one.
\<close>

lemma password_downgrade_nullable:
  "case run_ddl password_downgrade (schema_at (Some R3a233bd1a8c1)) of Inl _ \<Rightarrow> False | Inr cat \<Rightarrow> password_column cat True"
  "password_column (schema_at (Some R2ed4dbd5ebc0)) False"
  using history_evaluates by (simp_all add: schemas split: sum.splits)

end
