(* ===== verification/Migration.thy ===== *)
theory Migration
  imports PlatformInvariant
begin

section \<open>The migration to tenants\<close>

text \<open>
  \<open>alembic/versions/0002_multi_tenant_rls.py\<close>: every user gets an organization, and the rows of
  the users' documents, chunks and jobs get its tenant.  Before the migration there are no
  organizations, memberships and invitations, and the tenant fields of the rows do not exist; the
  model keeps them at 0 there.  Parameters: the ids that the database draws, per user, and the
  time of the transaction.
\<close>

subsection \<open>Upgrade\<close>

definition personal_slug :: "uuid \<Rightarrow> string" where
  "personal_slug user_id = ''user-'' @ uuid_str user_id"

definition workspace_name :: "string \<Rightarrow> string" where
  "workspace_name email = takeWhile (\<lambda>c. c \<noteq> CHR ''@'') email @ [CHR 0x27] @ ''s Workspace''"

definition personal_orgs :: "(uuid \<Rightarrow> uuid) \<Rightarrow> timestamp \<Rightarrow> user list \<Rightarrow> organization list" where
  "personal_orgs new_org_id tx_now us =
     map (\<lambda>u. \<lparr>o_id = new_org_id (u_id u), o_name = workspace_name (u_email u), o_slug = personal_slug (u_id u),
               o_created_at = tx_now\<rparr>) us"

definition personal_members :: "(uuid \<Rightarrow> uuid) \<Rightarrow> timestamp \<Rightarrow> organization list \<Rightarrow> user list \<Rightarrow> membership list" where
  "personal_members new_membership_id tx_now gs us =
     [\<lparr>m_id = new_membership_id (u_id u), m_org_id = o_id g, m_user_id = u_id u, m_role = Admin,
       m_created_at = tx_now\<rparr>. u \<leftarrow> us, g \<leftarrow> gs, o_slug g = personal_slug (u_id u)]"

text \<open>The new column of a document, and of a row that refers to a document; \<open>None\<close> is NULL.\<close>

definition document_tenant :: "organization list \<Rightarrow> document \<Rightarrow> uuid option" where
  "document_tenant gs d = map_option o_id (find (\<lambda>g. o_slug g = personal_slug (d_user_id d)) gs)"

definition owner_tenant :: "organization list \<Rightarrow> document list \<Rightarrow> uuid \<Rightarrow> uuid option" where
  "owner_tenant gs ds document_id = Option.bind (find (\<lambda>d. d_id d = document_id) ds) (document_tenant gs)"

definition upgrade_0002 ::
  "(uuid \<Rightarrow> uuid) \<Rightarrow> (uuid \<Rightarrow> uuid) \<Rightarrow> timestamp \<Rightarrow> database \<Rightarrow> (exn, database) outcome" where
  "upgrade_0002 new_org_id new_membership_id tx_now db =
     (let gs = personal_orgs new_org_id tx_now (users db);
          ms = personal_members new_membership_id tx_now gs (users db);
          of_document = owner_tenant gs (documents db);
          ds = map (\<lambda>d. d \<lparr>d_tenant_id := the (document_tenant gs d)\<rparr>) (documents db);
          cs = map (\<lambda>c. c \<lparr>c_tenant_id := the (of_document (c_document_id c))\<rparr>) (chunks db);
          js = map (\<lambda>j. j \<lparr>j_tenant_id := the (of_document (j_document_id j))\<rparr>) (jobs db)
      in if \<not> list_all (\<lambda>g. fits 255 (o_name g) \<and> fits 100 (o_slug g)) gs then Inl DataError
         else if \<not> (distinct (map o_id gs) \<and> distinct (map o_slug gs) \<and> distinct (map m_id ms) \<and>
                    distinct (map (\<lambda>m. (m_org_id m, m_user_id m)) ms)) then Inl IntegrityError
         else if \<not> (list_all (\<lambda>d. document_tenant gs d \<noteq> None) (documents db) \<and>
                    list_all (\<lambda>c. of_document (c_document_id c) \<noteq> None) (chunks db) \<and>
                    list_all (\<lambda>j. of_document (j_document_id j) \<noteq> None) (jobs db)) then Inl IntegrityError
         else if \<not> (distinct (map (\<lambda>d. (d_tenant_id d, d_content_hash d)) ds) \<and>
                    distinct (map (\<lambda>j. (j_tenant_id j, j_idempotency_key j)) js)) then Inl IntegrityError
         else Inr (db \<lparr>organizations := gs, memberships := ms, documents := ds, chunks := cs, jobs := js\<rparr>))"

subsection \<open>Downgrade\<close>

text \<open>The unique keys go back to the user; tenants, memberships and organizations are dropped.\<close>

definition downgrade_0002 :: "database \<Rightarrow> (exn, database) outcome" where
  "downgrade_0002 db =
     (if \<not> (distinct (map (\<lambda>j. (j_user_id j, j_idempotency_key j)) (jobs db)) \<and>
             distinct (map (\<lambda>d. (d_user_id d, d_content_hash d)) (documents db))) then Inl IntegrityError
      else Inr (db \<lparr>organizations := [], memberships := [],
             documents := map (\<lambda>d. d \<lparr>d_tenant_id := 0\<rparr>) (documents db),
             chunks := map (\<lambda>c. c \<lparr>c_tenant_id := 0\<rparr>) (chunks db),
             jobs := map (\<lambda>j. j \<lparr>j_tenant_id := 0\<rparr>) (jobs db)\<rparr>))"

subsection \<open>The database before the migration\<close>

text \<open>
  The keys and references of migration \<open>0001\<close>, and that a job belongs to the user of its document,
  which is how uploads create them.
\<close>

definition legacy_wf :: "database \<Rightarrow> bool" where
  "legacy_wf db \<longleftrightarrow> organizations db = [] \<and> memberships db = [] \<and>
     user_ids.keyed db \<and> document_ids.keyed db \<and> job_ids.keyed db \<and> (\<forall>u \<in> set (users db). u_id u < 2 ^ 128) \<and>
     distinct (map (\<lambda>d. (d_user_id d, d_content_hash d)) (documents db)) \<and>
     distinct (map (\<lambda>j. (j_user_id j, j_idempotency_key j)) (jobs db)) \<and>
     (\<forall>d \<in> set (documents db). user_exists db (d_user_id d) \<and> d_tenant_id d = 0) \<and>
     (\<forall>c \<in> set (chunks db). document_exists db (c_document_id c) \<and> c_tenant_id c = 0) \<and>
     (\<forall>j \<in> set (jobs db). j_tenant_id j = 0 \<and>
        (\<exists>d \<in> set (documents db). d_id d = j_document_id j \<and> d_user_id d = j_user_id j))"

lemma legacy_wfD:
  assumes "legacy_wf db"
  shows "organizations db = []" "memberships db = []" "user_ids.keyed db" "document_ids.keyed db" "job_ids.keyed db"
    "distinct (map (\<lambda>d. (d_user_id d, d_content_hash d)) (documents db))"
    "distinct (map (\<lambda>j. (j_user_id j, j_idempotency_key j)) (jobs db))"
    "\<And>u. u \<in> set (users db) \<Longrightarrow> u_id u < 2 ^ 128"
    "\<And>d. d \<in> set (documents db) \<Longrightarrow> user_exists db (d_user_id d)"
    "\<And>d. d \<in> set (documents db) \<Longrightarrow> d_tenant_id d = 0"
    "\<And>c. c \<in> set (chunks db) \<Longrightarrow> document_exists db (c_document_id c)"
    "\<And>c. c \<in> set (chunks db) \<Longrightarrow> c_tenant_id c = 0"
    "\<And>j. j \<in> set (jobs db) \<Longrightarrow> j_tenant_id j = 0"
    "\<And>j. j \<in> set (jobs db) \<Longrightarrow> \<exists>d \<in> set (documents db). d_id d = j_document_id j \<and> d_user_id d = j_user_id j"
  using assms unfolding legacy_wf_def by blast+

subsection \<open>The organization of a user\<close>

lemma personal_slug_eq: "u < 2 ^ 128 \<Longrightarrow> v < 2 ^ 128 \<Longrightarrow> personal_slug u = personal_slug v \<longleftrightarrow> u = v"
  by (auto simp: personal_slug_def dest: uuid_str_inj)

lemma personal_org_lookup:
  assumes "uid \<in> u_id ` set us" and "uid < 2 ^ 128" and "\<And>u. u \<in> set us \<Longrightarrow> u_id u < 2 ^ 128"
  shows "map_option o_id (find (\<lambda>g. o_slug g = personal_slug uid) (personal_orgs n tx us)) = Some (n uid)"
  using assms
proof (induction us)
  case (Cons u us)
  then show ?case by (cases "u_id u = uid") (auto simp: personal_orgs_def personal_slug_eq)
qed simp

lemma concat_singletons: "concat (map (\<lambda>x. if P x then [f x] else []) xs) = map f (filter P xs)"
  by (induction xs) auto

definition personal_member :: "(uuid \<Rightarrow> uuid) \<Rightarrow> (uuid \<Rightarrow> uuid) \<Rightarrow> timestamp \<Rightarrow> user \<Rightarrow> membership" where
  "personal_member n new_membership_id tx_now u =
     \<lparr>m_id = new_membership_id (u_id u), m_org_id = n (u_id u), m_user_id = u_id u, m_role = Admin, m_created_at = tx_now\<rparr>"

lemma personal_orgs_slugs:
  assumes "distinct (map u_id us)" and "\<And>u. u \<in> set us \<Longrightarrow> u_id u < 2 ^ 128"
  shows "distinct (map o_slug (personal_orgs n tx us))"
proof -
  have "inj_on personal_slug (u_id ` set us)" using assms(2) by (auto intro!: inj_onI simp: personal_slug_eq)
  with assms(1) have "distinct (map personal_slug (map u_id us))" unfolding distinct_map by (simp add: distinct_map)
  then show ?thesis by (simp add: personal_orgs_def comp_def)
qed

lemma personal_members_eq:
  assumes "distinct (map u_id us)" and "\<And>u. u \<in> set us \<Longrightarrow> u_id u < 2 ^ 128"
  shows "personal_members mid tx (personal_orgs n tx us) us = map (personal_member n mid tx) us"
proof -
  let ?gs = "personal_orgs n tx us"
  let ?g = "\<lambda>u. \<lparr>o_id = n (u_id u), o_name = workspace_name (u_email u), o_slug = personal_slug (u_id u), o_created_at = tx\<rparr> :: organization"
  have "filter (\<lambda>g. o_slug g = personal_slug (u_id u)) ?gs = [?g u]" if "u \<in> set us" for u
  proof -
    have "?g u \<in> set ?gs" using that by (simp add: personal_orgs_def)
    from filter_unique_key [OF personal_orgs_slugs [OF assms] this] show ?thesis by simp
  qed
  then have "concat (map (\<lambda>u. map (\<lambda>g. \<lparr>m_id = mid (u_id u), m_org_id = o_id g, m_user_id = u_id u, m_role = Admin,
      m_created_at = tx\<rparr>) (filter (\<lambda>g. o_slug g = personal_slug (u_id u)) ?gs)) vs) = map (personal_member n mid tx) vs"
    if "set vs \<subseteq> set us" for vs
    using that by (induction vs) (simp_all add: personal_member_def)
  then show ?thesis by (simp add: personal_members_def concat_singletons)
qed

lemma find_key: "distinct (map key xs) \<Longrightarrow> x \<in> set xs \<Longrightarrow> find (\<lambda>y. key y = key x) xs = Some x"
  by (induction xs) (auto simp: rev_image_eqI)

lemma distinct_pairs:
  assumes "distinct (map (\<lambda>x. (f x, h x)) xs)" and "inj_on n (f ` set xs)"
  shows "distinct (map (\<lambda>x. (n (f x), h x)) xs)"
proof -
  have "inj_on (map_prod n id) (set (map (\<lambda>x. (f x, h x)) xs))"
    by (auto intro!: inj_onI simp: inj_on_eq_iff [OF assms(2)])
  with assms(1) have "distinct (map (map_prod n id) (map (\<lambda>x. (f x, h x)) xs))"
    by (rule iffD2 [OF distinct_map, OF conjI])
  then show ?thesis by (simp add: comp_def)
qed

lemma document_tenant_eq:
  assumes "legacy_wf db" and "d \<in> set (documents db)"
  shows "document_tenant (personal_orgs n tx (users db)) d = Some (n (d_user_id d))"
  unfolding document_tenant_def
  using legacy_wfD(8,9) [OF assms(1)] assms(2) by (intro personal_org_lookup) (auto dest!: legacy_wfD(9) [OF assms(1)])

lemma owner_tenant_eq:
  assumes "legacy_wf db" and "d \<in> set (documents db)"
  shows "owner_tenant (personal_orgs n tx (users db)) (documents db) (d_id d) = Some (n (d_user_id d))"
  using document_tenant_eq [OF assms] find_key [OF legacy_wfD(4) [OF assms(1), unfolded document_ids.keyed_def] assms(2)]
  by (simp add: owner_tenant_def)

subsection \<open>What the migration does\<close>

lemma personal_rows_distinct:
  assumes "distinct (map u_id us)" and "inj_on n (u_id ` set us)" and "inj_on mid (u_id ` set us)"
  shows "distinct (map m_id (map (personal_member n mid tx) us))"
    and "distinct (map (\<lambda>m. (m_org_id m, m_user_id m)) (map (personal_member n mid tx) us))"
    and "distinct (map o_id (personal_orgs n tx us))"
  using assms comp_inj_on [of u_id "set us" mid] comp_inj_on [of u_id "set us" n]
  by (auto simp: distinct_map personal_member_def personal_orgs_def comp_def inj_on_def)

text \<open>The upgrade of the rows, and what the downgrade makes of it.\<close>

lemma upgrade_0002_rows:
  assumes wf: "legacy_wf db" and n: "inj_on n (u_id ` set (users db))" and mid: "inj_on mid (u_id ` set (users db))"
    and names: "\<forall>u \<in> set (users db). fits 255 (workspace_name (u_email u))"
  shows "\<exists>db'. upgrade_0002 n mid tx db = Inr db' \<and> documents_wf db' \<and> tenants_agree db' \<and>
    (\<forall>d \<in> set (documents db'). \<exists>m \<in> set (memberships db').
       m_user_id m = d_user_id d \<and> m_org_id m = d_tenant_id d \<and> m_role m = Admin) \<and>
    downgrade_0002 db' = Inr db \<and> invites db' = invites db"
proof -
  note old = legacy_wfD [OF wf]
  let ?gs = "personal_orgs n tx (users db)"
  let ?ms = "map (personal_member n mid tx) (users db)"
  let ?ds = "map (\<lambda>d. d \<lparr>d_tenant_id := n (d_user_id d)\<rparr>) (documents db)"
  let ?of = "owner_tenant ?gs (documents db)"
  let ?cs = "map (\<lambda>c. c \<lparr>c_tenant_id := the (?of (c_document_id c))\<rparr>) (chunks db)"
  let ?js = "map (\<lambda>j. j \<lparr>j_tenant_id := n (j_user_id j)\<rparr>) (jobs db)"
  let ?db' = "db \<lparr>organizations := ?gs, memberships := ?ms, documents := ?ds, chunks := ?cs, jobs := ?js\<rparr>"
  have keyed: "distinct (map u_id (users db))" using old(3) by (simp add: user_ids.keyed_def)
  have ms: "personal_members mid tx ?gs (users db) = ?ms" by (rule personal_members_eq [OF keyed old(8)])
  have ds: "map (\<lambda>d. d \<lparr>d_tenant_id := the (document_tenant ?gs d)\<rparr>) (documents db) = ?ds"
    by (simp add: document_tenant_eq [OF wf])
  have job_owner: "?of (j_document_id j) = Some (n (j_user_id j))" if "j \<in> set (jobs db)" for j
    using old(14) [OF that] owner_tenant_eq [OF wf] by metis
  then have js: "map (\<lambda>j. j \<lparr>j_tenant_id := the (?of (j_document_id j))\<rparr>) (jobs db) = ?js" by simp
  have chunk_owner: "\<exists>d \<in> set (documents db). d_id d = c_document_id c \<and> ?of (c_document_id c) = Some (n (d_user_id d))"
    if "c \<in> set (chunks db)" for c
    using old(11) [OF that] owner_tenant_eq [OF wf] by (metis imageE)
  have "user_exists db (j_user_id j)" if "j \<in> set (jobs db)" for j using old(14) [OF that] old(9) by metis
  then have users_of: "d_user_id ` set (documents db) \<subseteq> u_id ` set (users db)" "j_user_id ` set (jobs db) \<subseteq> u_id ` set (users db)"
    using old(9) by blast+
  have hashes: "distinct (map (\<lambda>d. (n (d_user_id d), d_content_hash d)) (documents db))"
    using distinct_pairs [OF old(6) inj_on_subset [OF n users_of(1)]] .
  have keys: "distinct (map (\<lambda>j. (n (j_user_id j), j_idempotency_key j)) (jobs db))"
    using distinct_pairs [OF old(7) inj_on_subset [OF n users_of(2)]] .
  note members = personal_rows_distinct [OF keyed n mid, of tx]
  have fit: "list_all (\<lambda>g. fits 255 (o_name g) \<and> fits 100 (o_slug g)) ?gs"
    using names by (auto simp: list_all_iff personal_orgs_def personal_slug_def fits_def length_uuid_str uuid_str_nonzero)
  have null: "list_all (\<lambda>d. document_tenant ?gs d \<noteq> None) (documents db)" "list_all (\<lambda>c. ?of (c_document_id c) \<noteq> None) (chunks db)"
    "list_all (\<lambda>j. ?of (j_document_id j) \<noteq> None) (jobs db)"
    using document_tenant_eq [OF wf] job_owner by (auto simp: list_all_iff) (use chunk_owner in fastforce)
  have up: "upgrade_0002 n mid tx db = Inr ?db'"
    unfolding upgrade_0002_def Let_def ms ds js
    using members fit null personal_orgs_slugs [OF keyed old(8)] hashes keys by (simp add: comp_def)
  have "documents_wf ?db'"
    using old(4,5) hashes keys
    by (simp add: documents_wf_def document_ids.keyed_def document_hashes.keyed_def job_ids.keyed_def job_keys.keyed_def comp_def)
  moreover have "tenants_agree ?db'"
    unfolding tenants_agree_def using old(14) chunk_owner by fastforce
  moreover have "\<forall>d \<in> set (documents ?db'). \<exists>m \<in> set (memberships ?db').
       m_user_id m = d_user_id d \<and> m_org_id m = d_tenant_id d \<and> m_role m = Admin"
    using old(9) by (fastforce simp: personal_member_def)
  moreover have "downgrade_0002 ?db' = Inr db"
    using old(1,2,6,7,10,12,13) by (simp add: downgrade_0002_def comp_def map_idI)
  moreover have "invites ?db' = invites db" by simp
  ultimately show ?thesis using up by blast
qed

text \<open>
  Claim C22 (roundtrip): the migration gives every row its owner's tenant, and can be undone.  From
  a database as migration \<open>0001\<close> and the uploads leave it, with organization names that fit, the
  upgrade succeeds: documents, jobs and contents are unique per tenant, every job and chunk belongs
  to the tenant of its document, and that is an organization of which the document's user is an
  admin; and the downgrade gives the former database back.
\<close>

theorem migration_assigns_tenants:
  assumes wf: "legacy_wf db" and n: "inj_on n (u_id ` set (users db))" and mid: "inj_on mid (u_id ` set (users db))"
    and names: "\<forall>u \<in> set (users db). fits 255 (workspace_name (u_email u))"
  shows "\<exists>db'. upgrade_0002 n mid tx db = Inr db' \<and> documents_wf db' \<and> tenants_agree db' \<and>
    (\<forall>d \<in> set (documents db'). \<exists>m \<in> set (memberships db').
       m_user_id m = d_user_id d \<and> m_org_id m = d_tenant_id d \<and> m_role m = Admin) \<and>
    downgrade_0002 db' = Inr db"
  using upgrade_0002_rows [OF assms] by blast

abbreviation legacy_database :: database where
  "legacy_database \<equiv> \<lparr>users = [\<lparr>u_id = 3, u_email = ''a@x.y'', u_is_active = True, u_created_at = 0\<rparr>], api_keys = [],
     refresh_tokens = [], organizations = [], memberships = [], invites = [],
     documents = [(Retrieval.sample_document 10 0)], chunks = [(Retrieval.sample_chunk 20 10 0)],
     jobs = [\<lparr>j_id = 30, j_document_id = 10, j_user_id = 3, j_tenant_id = 0, j_status = JobQueued, j_idempotency_key = ''k'',
       j_worker_id = None, j_attempt_count = 0, j_max_attempts = 3, j_version = 1, j_error_message = None,
       j_claimed_at = None, j_started_at = None, j_completed_at = None, j_created_at = 0\<rparr>]\<rparr>"

theorem migration_assigns_tenants_witness:
  "\<exists>db'. upgrade_0002 (\<lambda>u. u + 100) (\<lambda>u. u + 200) 5 legacy_database = Inr db' \<and> tenants_agree db' \<and>
     downgrade_0002 db' = Inr legacy_database"
proof -
  have wf: "legacy_wf legacy_database"
    by (simp add: legacy_wf_def user_ids.keyed_def document_ids.keyed_def job_ids.keyed_def)
  have names: "\<forall>u \<in> set (users legacy_database). fits 255 (workspace_name (u_email u))"
    by (simp add: workspace_name_def fits_def)
  from migration_assigns_tenants [OF wf _ _ names, of "\<lambda>u. u + 100" "\<lambda>u. u + 200" 5] show ?thesis by auto
qed

end
