(* ===== verification/MigrationRuns.thy ===== *)
theory MigrationRuns
  imports MigrationHistory Migration
begin

section \<open>Runs of the migrations\<close>

text \<open>
  A run of Alembic (\<open>alembic/env.py\<close>) on a database with its catalogue and its rows.  Every revision
  executes its statements on the catalogue (\<open>Migrations\<close>) and on the rows: \<open>0002\<close> inserts the
  organizations and fills the tenants, and a constraint that the rows violate stops it (\<open>Migration\<close>);
  the others create empty tables, drop tables with their rows, or change a column that the rows of
  the model do not have.  One transaction is around all revisions of a command: an error leaves
  everything as it was.
\<close>

datatype migration_error = In_Catalog ddl_error | In_Rows exn

text \<open>The ids that \<open>0002\<close> draws for the organization and the membership of a user, and the time.\<close>

record drawn =
  dr_org_id :: "uuid \<Rightarrow> uuid"
  dr_membership_id :: "uuid \<Rightarrow> uuid"
  dr_now :: timestamp

definition no_rows :: database where
  "no_rows = \<lparr>users = [], api_keys = [], refresh_tokens = [], organizations = [], memberships = [], invites = [],
     documents = [], chunks = [], jobs = []\<rparr>"

fun upgrade_rows :: "drawn \<Rightarrow> revision \<Rightarrow> database \<Rightarrow> (exn, database) outcome" where
  "upgrade_rows dr R0002 db = upgrade_0002 (dr_org_id dr) (dr_membership_id dr) (dr_now dr) db"
| "upgrade_rows dr _ db = Inr db"

fun downgrade_rows :: "revision \<Rightarrow> database \<Rightarrow> (exn, database) outcome" where
  "downgrade_rows R0001 db = Inr no_rows"
| "downgrade_rows R0002 db = downgrade_0002 db"
| "downgrade_rows R2ed4dbd5ebc0 db = Inr (db \<lparr>invites := []\<rparr>)"
| "downgrade_rows R3a233bd1a8c1 db = Inr db"

fun run_revisions ::
  "(revision \<Rightarrow> ddl list) \<Rightarrow> (revision \<Rightarrow> database \<Rightarrow> (exn, database) outcome) \<Rightarrow> revision list \<Rightarrow>
     catalog \<times> database \<Rightarrow> (migration_error, catalog \<times> database) outcome" where
  "run_revisions script rows [] s = Inr s"
| "run_revisions script rows (r # rs) (cat, db) =
     (case run_ddl (script r) cat of
        Inl e \<Rightarrow> Inl (In_Catalog e)
      | Inr cat1 \<Rightarrow>
          (case rows r db of
             Inl e \<Rightarrow> Inl (In_Rows e)
           | Inr db1 \<Rightarrow> run_revisions script rows rs (cat1, db1)))"

definition committed ::
  "(migration_error, catalog \<times> database) outcome \<Rightarrow> catalog \<times> database \<Rightarrow>
     (migration_error, unit) outcome \<times> (catalog \<times> database)" where
  "committed res s = (case res of Inl e \<Rightarrow> (Inl e, s) | Inr s' \<Rightarrow> (Inr (), s'))"

definition run_upgrades ::
  "drawn \<Rightarrow> revision option \<Rightarrow> revision \<Rightarrow> catalog \<times> database \<Rightarrow> (migration_error, unit) outcome \<times> (catalog \<times> database)" where
  "run_upgrades dr c r s = committed (run_revisions upgrade (upgrade_rows dr) (filter (newer c) (history r)) s) s"

definition run_downgrades ::
  "revision \<Rightarrow> revision option \<Rightarrow> catalog \<times> database \<Rightarrow> (migration_error, unit) outcome \<times> (catalog \<times> database)" where
  "run_downgrades r c s = committed (run_revisions downgrade downgrade_rows (rev (filter (newer c) (history r))) s) s"

subsection \<open>Catalogue and rows\<close>

fun run_rows :: "(revision \<Rightarrow> database \<Rightarrow> (exn, database) outcome) \<Rightarrow> revision list \<Rightarrow> database \<Rightarrow> (exn, database) outcome" where
  "run_rows rows [] db = Inr db"
| "run_rows rows (r # rs) db = try_bind (rows r db) (run_rows rows rs)"

lemma run_revisions_split:
  assumes "run_ddl (concat (map script rs)) cat = Inr cat'" and "run_rows rows rs db = Inr db'"
  shows "run_revisions script rows rs (cat, db) = Inr (cat', db')"
  using assms
proof (induction rs arbitrary: cat db)
  case (Cons r rs)
  from Cons.prems(1) obtain cat1 where "run_ddl (script r) cat = Inr cat1" "run_ddl (concat (map script rs)) cat1 = Inr cat'"
    by (auto simp: run_ddl_append dest: try_bind_InrD)
  moreover from Cons.prems(2) obtain db1 where "rows r db = Inr db1" "run_rows rows rs db1 = Inr db'"
    by (auto dest: try_bind_InrD)
  ultimately show ?case using Cons.IH by simp
qed simp

text \<open>The rows that a database may hold at a revision, with what its upgrades rely on.\<close>

fun rows_at :: "drawn \<Rightarrow> revision option \<Rightarrow> database \<Rightarrow> bool" where
  "rows_at dr None db \<longleftrightarrow> db = no_rows"
| "rows_at dr (Some R0001) db \<longleftrightarrow> legacy_wf db \<and> invites db = [] \<and> inj_on (dr_org_id dr) (u_id ` set (users db)) \<and>
     inj_on (dr_membership_id dr) (u_id ` set (users db)) \<and>
     (\<forall>u \<in> set (users db). fits 255 (workspace_name (u_email u)))"
| "rows_at dr (Some R0002) db \<longleftrightarrow> invites db = []"
| "rows_at dr (Some _) db \<longleftrightarrow> True"

lemma no_rows_legacy: "rows_at dr (Some R0001) no_rows"
  by (simp add: no_rows_def legacy_wf_def user_ids.keyed_def document_ids.keyed_def job_ids.keyed_def)

lemma tenants_rows:
  assumes "rows_at dr (Some R0001) db"
  shows "\<exists>db'. upgrade_rows dr R0002 db = Inr db' \<and> downgrade_rows R0002 db' = Inr db \<and> invites db' = []"
  using upgrade_0002_rows [of db "dr_org_id dr" "dr_membership_id dr" "dr_now dr"] assms by auto

text \<open>The revisions that lead from one to another, by whether \<open>0002\<close> is among them.\<close>

lemma pending:
  "filter (newer None) (history r) = R0001 # filter (newer (Some R0001)) (history r)"
  "filter (newer (Some R0001)) (history r) =
     (if r = R0001 then [] else R0002 # filter (newer (Some R0002)) (history r))"
  "set (filter (newer (Some R0002)) (history r)) \<subseteq> {R2ed4dbd5ebc0, R3a233bd1a8c1}"
  by (cases r; simp add: revision_less_number)+

lemma run_rows_append: "run_rows rows (rs @ qs) db = try_bind (run_rows rows rs db) (run_rows rows qs)"
  by (induction rs arbitrary: db) (simp_all add: try_bind_def split: sum.splits)

lemma later_rows:
  assumes "set rs \<subseteq> {R2ed4dbd5ebc0, R3a233bd1a8c1}" and "R2ed4dbd5ebc0 \<in> set rs \<longrightarrow> invites db = []"
  shows "run_rows (upgrade_rows dr) rs db = Inr db" and "run_rows downgrade_rows (rev rs) db = Inr db"
proof -
  have same: "downgrade_rows r db = Inr db" if "r \<in> set rs" for r
  proof (cases "r = R2ed4dbd5ebc0")
    case True
    with that assms(2) have "db \<lparr>invites := []\<rparr> = db" by simp
    with True show ?thesis by simp
  qed (use that assms(1) in auto)
  have "run_rows downgrade_rows qs db = Inr db" if "set qs \<subseteq> set rs" for qs
    using that by (induction qs) (simp_all add: same)
  then show "run_rows downgrade_rows (rev rs) db = Inr db" by simp
  show "run_rows (upgrade_rows dr) rs db = Inr db" using assms(1) by (induction rs) auto
qed

lemma legacy_run:
  assumes "rows_at dr (Some R0001) db" and "rs = filter (newer (Some R0001)) (history r)"
  shows "\<exists>db'. run_rows (upgrade_rows dr) rs db = Inr db' \<and> run_rows downgrade_rows (rev rs) db' = Inr db"
proof (cases "r = R0001")
  case False
  from tenants_rows [OF assms(1)] obtain db2 where db2: "upgrade_rows dr R0002 db = Inr db2"
    "downgrade_rows R0002 db2 = Inr db" "invites db2 = []" by blast
  from later_rows [OF pending(3) [of r], of db2] db2 False show ?thesis
    unfolding assms(2) pending(2) by (simp add: run_rows_append del: upgrade_rows.simps(1) downgrade_rows.simps(2))
qed (simp add: assms(2) pending(2))

lemma rows_run:
  assumes "newer c r" and "rows_at dr c db"
  shows "\<exists>db'. run_rows (upgrade_rows dr) (filter (newer c) (history r)) db = Inr db' \<and>
    run_rows downgrade_rows (rev (filter (newer c) (history r))) db' = Inr db"
proof (cases c)
  case None
  with assms(2) legacy_run [OF no_rows_legacy refl, of dr r] show ?thesis
    by (auto simp: pending(1) run_rows_append)
next
  case (Some p)
  have rest: "set (filter (newer (Some p)) (history r)) \<subseteq> {R2ed4dbd5ebc0, R3a233bd1a8c1}" if "p \<noteq> R0001"
    using that by (cases p; cases r) (simp_all add: revision_less_number)
  have open_invites: "R2ed4dbd5ebc0 \<in> set (filter (newer (Some p)) (history r)) \<longrightarrow> p \<in> {R0001, R0002}"
    by (cases p) (simp_all add: revision_less_number)
  show ?thesis
  proof (cases "p = R0001")
    case True
    with assms(2) Some legacy_run [OF _ refl, of dr db r] show ?thesis by blast
  next
    case False
    have "R2ed4dbd5ebc0 \<in> set (filter (newer (Some p)) (history r)) \<longrightarrow> invites db = []"
      using open_invites False assms(2) Some by auto
    with later_rows [OF rest [OF False]] Some show ?thesis by blast
  qed
qed

subsection \<open>Upgrade and downgrade\<close>

text \<open>
  Claim C10 (roundtrip): upgrades succeed and can be undone.  Take a database at any revision (or
  before the first, without rows), with any other tables that share no names with the platform and do not
  refer to it; at \<open>0001\<close> its rows are as that revision and the uploads leave them, and the names of
  the organizations to come fit.  Then the upgrade to any later revision succeeds and builds the schema of its
  target; and below the last revision the downgrade that follows it succeeds and gives the schema
  of the start and all rows back, with the other tables untouched.  (Once organizations have been
  used, two of them may hold the same content of one user, and then the downgrade fails.)
\<close>

theorem migrations_reversible:
  assumes beside: "list_all (apart platform_names) ts" and c: "newer c r" and rows: "rows_at dr c db"
  shows "\<exists>db'. run_upgrades dr c r (beside ts (schema_at c), db) = (Inr (), (beside ts (schema_at (Some r)), db')) \<and>
    (r < R3a233bd1a8c1 \<longrightarrow> (\<exists>cat. same_schema cat (schema_at c) \<and>
       run_downgrades r c (beside ts (schema_at (Some r)), db') = (Inr (), (beside ts cat, db))))"
proof -
  from rows_run [OF c rows] obtain db' where db': "run_rows (upgrade_rows dr) (filter (newer c) (history r)) db = Inr db'"
    "run_rows downgrade_rows (rev (filter (newer c) (history r))) db' = Inr db" by blast
  have "run_upgrades dr c r (beside ts (schema_at c), db) = (Inr (), (beside ts (schema_at (Some r)), db'))"
    using run_revisions_split [OF run_upgrade [OF beside c, unfolded upgrade_script_def] db'(1)]
    by (simp add: run_upgrades_def committed_def)
  moreover have "\<exists>cat. same_schema cat (schema_at c) \<and>
      run_downgrades r c (beside ts (schema_at (Some r)), db') = (Inr (), (beside ts cat, db))"
    if r: "r < R3a233bd1a8c1"
  proof -
    from run_downgrade [OF beside c r] obtain cat where cat: "same_schema cat (schema_at c)"
      "run_ddl (downgrade_script r c) (beside ts (schema_at (Some r))) = Inr (beside ts cat)" by blast
    from run_revisions_split [OF cat(2) [unfolded downgrade_script_def] db'(2)] cat(1) show ?thesis
      by (auto simp: run_downgrades_def committed_def)
  qed
  ultimately show ?thesis by blast
qed

theorem migrations_reversible_witness:
  "\<exists>db' cat. run_upgrades \<lparr>dr_org_id = (\<lambda>u. u + 100), dr_membership_id = (\<lambda>u. u + 200), dr_now = 5\<rparr> (Some R0001) R2ed4dbd5ebc0
       (beside [alembic_version] (schema_at (Some R0001)), legacy_database) =
     (Inr (), (beside [alembic_version] (schema_at (Some R2ed4dbd5ebc0)), db')) \<and>
   run_downgrades R2ed4dbd5ebc0 (Some R0001) (beside [alembic_version] (schema_at (Some R2ed4dbd5ebc0)), db') =
     (Inr (), (beside [alembic_version] cat, legacy_database))"
proof -
  let ?dr = "\<lparr>dr_org_id = (\<lambda>u. u + 100), dr_membership_id = (\<lambda>u. u + 200), dr_now = 5\<rparr>"
  have "rows_at ?dr (Some R0001) legacy_database"
    by (simp add: legacy_wf_def user_ids.keyed_def document_ids.keyed_def job_ids.keyed_def workspace_name_def fits_def)
  from migrations_reversible [OF alembic_version_apart _ this, of R2ed4dbd5ebc0] show ?thesis
    by (auto simp: revision_less_number)
qed

end
