(* ===== verification/OrmSchema.thy ===== *)
theory OrmSchema
  imports MigrationHistory Models
begin

section \<open>The schema that the models declare\<close>

text \<open>
  \<open>Base.metadata\<close>: the tables of \<open>src/auth/models.py\<close>, \<open>src/tenants/models.py\<close>,
  \<open>src/documents/models.py\<close> and \<open>src/ingestion/models.py\<close> as SQLAlchemy collects them, with the
  naming convention of \<open>src/core/database.py\<close>; that the migrations build this schema, up to defaults
  and indexes; and that the inserts of \<open>Models\<close> enforce it.  Whether \<open>Mapped[Any]\<close> declares a
  nullable column depends on the release of SQLAlchemy and is a parameter.
\<close>

subsection \<open>The declared tables\<close>

definition mapped_table :: "string \<Rightarrow> table_item list \<Rightarrow> index_def list \<Rightarrow> table_def" where
  "mapped_table n items ixs =
     \<lparr>tb_name = n, tb_columns = concat (map item_columns items),
      tb_constraints = concat (map (item_constraints n) items), tb_indexes = ixs, tb_rls = False,
      tb_force_rls = False, tb_policies = []\<rparr>"

definition users_table :: table_def where
  "users_table = mapped_table ''users''
    [id_column, Unique (not_null ''email'' (VarChar 255)), Col (not_null ''is_active'' BooleanType),
     now_column ''created_at'', now_column ''updated_at'']
    [btree ''ix_users_email'' [''email'']]"

definition api_keys_table :: table_def where
  "api_keys_table = mapped_table ''api_keys''
    [id_column, Ref (not_null ''user_id'' UuidType) ''users'' OnDeleteCascade,
     Col (not_null ''key_prefix'' (VarChar 12)), Col (not_null ''key_hash'' (VarChar 255)),
     Col (not_null ''name'' (VarChar 100)), Col (not_null ''is_active'' BooleanType),
     Col (nullable ''expires_at'' TimestampTz), Col (nullable ''last_used_at'' TimestampTz),
     now_column ''created_at'']
    [btree ''ix_api_keys_prefix_active'' [''key_prefix''] \<lparr>ix_where := Some (''is_active'', EqualTo ''true'')\<rparr>]"

definition refresh_tokens_table :: table_def where
  "refresh_tokens_table = mapped_table ''refresh_tokens''
    [id_column, Ref (not_null ''user_id'' UuidType) ''users'' OnDeleteCascade,
     Unique (not_null ''token_hash'' (VarChar 64)), Col (not_null ''expires_at'' TimestampTz),
     now_column ''created_at'']
    []"

definition organizations_table :: table_def where
  "organizations_table = mapped_table ''organizations''
    [id_column, Col (not_null ''name'' (VarChar 255)), Unique (not_null ''slug'' (VarChar 100)),
     now_column ''created_at'']
    [btree ''ix_organizations_slug'' [''slug'']]"

definition org_memberships_table :: table_def where
  "org_memberships_table = mapped_table ''org_memberships''
    [id_column, Ref (not_null ''org_id'' UuidType) ''organizations'' OnDeleteCascade,
     Ref (not_null ''user_id'' UuidType) ''users'' OnDeleteCascade, Col (not_null ''role'' (VarChar 20)),
     now_column ''created_at'',
     CheckConstraint ''ck_org_memberships_role_valid'' ''role'' [''admin'', ''editor'', ''viewer''],
     UniqueConstraint ''uq_org_memberships_org_user'' [''org_id'', ''user_id'']]
    [btree ''ix_org_memberships_user'' [''user_id'']]"

definition organization_invites_table :: table_def where
  "organization_invites_table = mapped_table ''organization_invites''
    [id_column, Ref (not_null ''org_id'' UuidType) ''organizations'' OnDeleteCascade,
     Col (not_null ''email'' (VarChar 255)), Col (not_null ''role'' (VarChar 20)),
     Unique (not_null ''token_hash'' (VarChar 64)), Col (not_null ''status'' (VarChar 20)),
     Col (not_null ''expires_at'' TimestampTz), now_column ''created_at'', Col (nullable ''accepted_at'' TimestampTz),
     Ref (nullable ''created_by'' UuidType) ''users'' OnDeleteSetNull,
     CheckConstraint ''ck_org_invites_role_valid'' ''role'' [''admin'', ''editor'', ''viewer''],
     CheckConstraint ''ck_org_invites_status_valid'' ''status'' [''pending'', ''accepted'', ''rejected'', ''revoked'']]
    [btree ''ix_org_invites_email_status'' [''email'', ''status'']]"

definition documents_table :: table_def where
  "documents_table = mapped_table ''documents''
    [id_column, Ref (not_null ''user_id'' UuidType) ''users'' OnDeleteCascade,
     Ref (not_null ''tenant_id'' UuidType) ''organizations'' NoAction,
     Col (not_null ''filename'' (VarChar 500)), Col (not_null ''content_hash'' (VarChar 64)),
     Col (not_null ''size_bytes'' BigIntegerType), Col (nullable ''mime_type'' (VarChar 100)),
     Col (nullable ''storage_key'' (VarChar 500)),
     Col (server_default (Literal ''pending'') (not_null ''status'' (VarChar 20))),
     Col (server_default (Literal ''0'') (not_null ''chunk_count'' IntegerType)),
     Col (nullable ''error_message'' TextType), now_column ''created_at'', now_column ''updated_at'',
     Col (nullable ''deleted_at'' TimestampTz),
     UniqueConstraint ''uq_documents_tenant_content'' [''tenant_id'', ''content_hash''],
     CheckConstraint ''ck_documents_status_valid'' ''status'' [''pending'', ''processing'', ''ready'', ''failed'']]
    [btree ''ix_documents_tenant_active'' [''tenant_id'', ''created_at''] \<lparr>ix_where := Some (''deleted_at'', IsNull)\<rparr>,
     btree ''ix_documents_user_active'' [''user_id'', ''created_at''] \<lparr>ix_where := Some (''deleted_at'', IsNull)\<rparr>,
     btree ''ix_documents_status'' [''status''] \<lparr>ix_where := Some (''deleted_at'', IsNull)\<rparr>]"

definition mapped_any :: "bool \<Rightarrow> string \<Rightarrow> column_type \<Rightarrow> column" where
  "mapped_any any_nullable n ty = (if any_nullable then nullable n ty else not_null n ty)"

definition chunks_table :: "bool \<Rightarrow> table_def" where
  "chunks_table any_nullable = mapped_table ''chunks''
    [id_column, Ref (not_null ''document_id'' UuidType) ''documents'' OnDeleteCascade,
     Ref (not_null ''user_id'' UuidType) ''users'' NoAction,
     Ref (not_null ''tenant_id'' UuidType) ''organizations'' NoAction,
     Col (not_null ''content'' TextType), Col (nullable ''page_number'' IntegerType),
     Col (not_null ''chunk_index'' IntegerType), Col (mapped_any any_nullable ''embedding'' (VectorType 384)),
     Col (computed (EnglishTsVector ''content'') (mapped_any any_nullable ''tsv'' TsVectorType)),
     Col (server_default (Literal ''{}'') (not_null ''metadata'' JsonbType)), now_column ''created_at'']
    [btree ''ix_chunks_document_id'' [''document_id''], btree ''ix_chunks_user_id'' [''user_id''],
     btree ''ix_chunks_tenant_id'' [''tenant_id'']]"

definition ingestion_jobs_table :: table_def where
  "ingestion_jobs_table = mapped_table ''ingestion_jobs''
    [id_column, Ref (not_null ''document_id'' UuidType) ''documents'' OnDeleteCascade,
     Ref (not_null ''user_id'' UuidType) ''users'' NoAction,
     Ref (not_null ''tenant_id'' UuidType) ''organizations'' NoAction,
     Col (server_default (Literal ''queued'') (not_null ''status'' (VarChar 20))),
     Col (not_null ''idempotency_key'' (VarChar 255)), Col (nullable ''worker_id'' (VarChar 100)),
     Col (server_default (Literal ''0'') (not_null ''attempt_count'' IntegerType)),
     Col (server_default (Literal ''3'') (not_null ''max_attempts'' IntegerType)),
     Col (server_default (Literal ''1'') (not_null ''version'' IntegerType)),
     Col (nullable ''error_message'' TextType), Col (nullable ''claimed_at'' TimestampTz),
     Col (nullable ''started_at'' TimestampTz), Col (nullable ''completed_at'' TimestampTz), now_column ''created_at'',
     UniqueConstraint ''uq_jobs_tenant_idempotency'' [''tenant_id'', ''idempotency_key''],
     CheckConstraint ''ck_jobs_status_valid'' ''status''
       [''queued'', ''claimed'', ''running'', ''completed'', ''failed'', ''dead'']]
    [btree ''ix_jobs_dequeue'' [''created_at''] \<lparr>ix_where := Some (''status'', EqualTo ''queued'')\<rparr>,
     btree ''ix_jobs_document_id'' [''document_id'']]"

definition metadata_tables :: "bool \<Rightarrow> table_def list" where
  "metadata_tables any_nullable = [users_table, api_keys_table, refresh_tokens_table, organizations_table, org_memberships_table,
     organization_invites_table, documents_table, chunks_table any_nullable, ingestion_jobs_table]"

subsection \<open>Comparison with the migrated schema\<close>

text \<open>
  What a migrated table and the declared one differ in: the attributes of each column, the
  constraints, the indexes that only the models and only the migrations have, row-level security
  and whether the owner is subject to it, and the policies that only the models and only the migrations have.
\<close>

record table_diff =
  diff_table :: string
  diff_columns :: "(string \<times> string list) list"
  diff_constraints :: bool
  diff_only_declared :: "string list"
  diff_only_migrated :: "string list"
  diff_security :: "bool \<times> bool"
  diff_policies :: "string list \<times> string list"

definition column_diff :: "column \<Rightarrow> column \<Rightarrow> string list" where
  "column_diff c d =
     (if col_type c = col_type d then [] else [''type'']) @
     (if col_nullable c = col_nullable d then [] else [''nullable'']) @
     (if col_default c = col_default d then [] else [''default'']) @
     (if col_generated c = col_generated d then [] else [''computed''])"

definition columns_diff :: "column list \<Rightarrow> column list \<Rightarrow> (string \<times> string list) list" where
  "columns_diff cs ds =
     (if length cs = length ds then [] else [(''columns'', [])]) @
     filter (\<lambda>(_, what). what \<noteq> [])
       (map (\<lambda>c. (col_name c, case find (\<lambda>d. col_name d = col_name c) ds of
                    None \<Rightarrow> [''missing''] | Some d \<Rightarrow> column_diff c d)) cs)"

definition table_diff_of :: "table_def \<Rightarrow> table_def \<Rightarrow> table_diff" where
  "table_diff_of t u =
     \<lparr>diff_table = tb_name t, diff_columns = columns_diff (tb_columns t) (tb_columns u),
      diff_constraints = (set (tb_constraints t) \<noteq> set (tb_constraints u)),
      diff_only_declared = map ix_name (filter (\<lambda>i. i \<notin> set (tb_indexes u)) (tb_indexes t)),
      diff_only_migrated = map ix_name (filter (\<lambda>i. i \<notin> set (tb_indexes t)) (tb_indexes u)),
      diff_security = (tb_rls t \<noteq> tb_rls u, tb_force_rls t \<noteq> tb_force_rls u),
      diff_policies = (map pol_name (filter (\<lambda>p. p \<notin> set (tb_policies u)) (tb_policies t)),
        map pol_name (filter (\<lambda>p. p \<notin> set (tb_policies t)) (tb_policies u)))\<rparr>"

definition schema_diff :: "table_def list \<Rightarrow> catalog \<Rightarrow> table_diff option list" where
  "schema_diff ts cat = map (\<lambda>t. map_option (table_diff_of t) (find_table (tb_name t) (cat_tables cat))) ts"

abbreviation "head_schema \<equiv> schema_at (Some R3a233bd1a8c1)"

definition expected_diff :: "bool \<Rightarrow> table_diff option list" where
  "expected_diff any_nullable =
     map (\<lambda>(n, cols, declared, migrated, secured).
        Some \<lparr>diff_table = n, diff_columns = cols, diff_constraints = False,
              diff_only_declared = declared, diff_only_migrated = migrated,
              diff_security = (secured, secured),
              diff_policies = ([], if secured then [''tenant_isolation'', ''worker_access''] else [])\<rparr>)
       [(''users'', [(''is_active'', [''default''])], [], [], False),
        (''api_keys'', [(''is_active'', [''default''])], [], [], False),
        (''refresh_tokens'', [], [], [], False),
        (''organizations'', [], [], [], False),
        (''org_memberships'', [(''role'', [''default''])], [], [], False),
        (''organization_invites'', [], [], [], False),
        (''documents'', [], [''ix_documents_tenant_active'', ''ix_documents_user_active''],
           [''ix_documents_user_active'', ''ix_documents_tenant_active''], True),
        (''chunks'', [(if any_nullable then ''embedding'' else ''tsv'', [''nullable''])], [],
           [''ix_chunks_embedding'', ''ix_chunks_tsv''], True),
        (''ingestion_jobs'', [], [], [], True)]"

text \<open>
  What the inserts rest on: a migrated table has the columns, defaults aside, and the constraints
  of the declared one.  And what the filters rest on: three tables have the two policies, forced.
\<close>

text \<open>The computed columns are the database's own.\<close>

definition written_columns :: "table_def \<Rightarrow> column list" where
  "written_columns t = filter (\<lambda>c. col_generated c = None) (tb_columns t)"

definition bare :: "column \<Rightarrow> column" where
  "bare c = c \<lparr>col_default := None\<rparr>"

definition agrees :: "table_def \<Rightarrow> table_def \<Rightarrow> bool" where
  "agrees t u \<longleftrightarrow> tb_name t = tb_name u \<and>
     set (map bare (written_columns t)) = set (map bare (written_columns u)) \<and>
     set (tb_constraints t) = set (tb_constraints u)"

definition policies_installed :: "catalog \<Rightarrow> bool" where
  "policies_installed cat \<longleftrightarrow>
     list_all (\<lambda>(n, secured). case find_table n (cat_tables cat) of None \<Rightarrow> False
        | Some t \<Rightarrow> tb_rls t = secured \<and> tb_force_rls t = secured \<and> tb_policies t = (if secured then [tenant_policy, worker_policy] else []))
       [(''documents'', True), (''chunks'', True), (''ingestion_jobs'', True), (''users'', False), (''api_keys'', False),
        (''refresh_tokens'', False), (''organizations'', False), (''org_memberships'', False), (''organization_invites'', False)]"

definition tables_agree :: "catalog \<Rightarrow> bool" where
  "tables_agree cat \<longleftrightarrow>
     list_all (\<lambda>t. case find_table (tb_name t) (cat_tables cat) of None \<Rightarrow> False | Some u \<Rightarrow> agrees u t)
       (metadata_tables False)"

lemma head_evaluates:
  "case run_ddl (upgrade_script None R3a233bd1a8c1) empty_catalog of Inl _ \<Rightarrow> False | Inr cat \<Rightarrow>
     set (map tb_name (cat_tables cat)) = set (map tb_name (metadata_tables False)) \<and>
     schema_diff (metadata_tables False) cat = expected_diff False \<and>
     schema_diff (metadata_tables True) cat = expected_diff True \<and>
     tables_agree cat \<and> policies_installed cat"
  by code_simp

lemma head_facts:
  "set (map tb_name (cat_tables head_schema)) = set (map tb_name (metadata_tables False))"
  "schema_diff (metadata_tables False) head_schema = expected_diff False"
  "schema_diff (metadata_tables True) head_schema = expected_diff True"
  "tables_agree head_schema" "policies_installed head_schema"
  using head_evaluates unfolding schema_at_run sum.case by blast+

lemma head_any:
  "set (map tb_name (cat_tables head_schema)) = set (map tb_name (metadata_tables any_nullable))"
  "schema_diff (metadata_tables any_nullable) head_schema = expected_diff any_nullable"
proof -
  have "map tb_name (metadata_tables any_nullable) = map tb_name (metadata_tables False)"
    by (simp add: metadata_tables_def chunks_table_def mapped_table_def)
  then show "set (map tb_name (cat_tables head_schema)) = set (map tb_name (metadata_tables any_nullable))"
    using head_facts(1) by simp
  show "schema_diff (metadata_tables any_nullable) head_schema = expected_diff any_nullable"
    using head_facts(2,3) by (cases any_nullable) simp_all
qed

lemma schema_diff_beside:
  assumes "list_all (apart platform_names) ts"
  shows "schema_diff (metadata_tables any_nullable) (beside ts cat) = schema_diff (metadata_tables any_nullable) cat"
proof -
  have "set (map tb_name (metadata_tables any_nullable)) \<subseteq> set platform_names"
    by (cases any_nullable) code_simp+
  moreover have tables: "cat_tables (beside ts cat) = ts @ cat_tables cat" by (simp add: beside_def set_tables_def)
  ultimately have "find_table (tb_name t) (cat_tables (beside ts cat)) = find_table (tb_name t) (cat_tables cat)"
    if "t \<in> set (metadata_tables any_nullable)" for t
    unfolding tables using that assms by (intro find_table_beside) auto
  then show ?thesis by (simp add: schema_diff_def)
qed



end
