(* ===== verification/SchemaInserts.thy ===== *)
theory SchemaInserts
  imports OrmSchema
begin

section \<open>The inserts enforce the migrated schema\<close>

text \<open>
  What PostgreSQL checks when a row is inserted into a table of a catalog: that each value fits the
  type of its column, \<open>NOT NULL\<close>, keys, foreign keys and \<open>CHECK\<close>s.  The insert operations of
  \<open>Models\<close>, on which the services rest, do exactly these checks for the schema at the last revision.
\<close>

subsection \<open>Rows of values\<close>

datatype sql_value =
    UuidValue uuid | TextValue string | BoolValue bool | IntValue int | TimeValue timestamp
  | VectorValue "rat list" | JsonValue | TsVectorValue

type_synonym row = "string \<Rightarrow> sql_value option"

fun has_type :: "column_type \<Rightarrow> sql_value \<Rightarrow> bool" where
  "has_type UuidType v \<longleftrightarrow> (case v of UuidValue _ \<Rightarrow> True | _ \<Rightarrow> False)"
| "has_type (VarChar n) v \<longleftrightarrow> (case v of TextValue s \<Rightarrow> fits n s | _ \<Rightarrow> False)"
| "has_type TextType v \<longleftrightarrow> (case v of TextValue s \<Rightarrow> storable_text s | _ \<Rightarrow> False)"
| "has_type BooleanType v \<longleftrightarrow> (case v of BoolValue _ \<Rightarrow> True | _ \<Rightarrow> False)"
| "has_type IntegerType v \<longleftrightarrow> (case v of IntValue i \<Rightarrow> - (2 ^ 31) \<le> i \<and> i < 2 ^ 31 | _ \<Rightarrow> False)"
| "has_type BigIntegerType v \<longleftrightarrow> (case v of IntValue i \<Rightarrow> - (2 ^ 63) \<le> i \<and> i < 2 ^ 63 | _ \<Rightarrow> False)"
| "has_type TimestampTz v \<longleftrightarrow> (case v of TimeValue _ \<Rightarrow> True | _ \<Rightarrow> False)"
| "has_type (VectorType n) v \<longleftrightarrow> (case v of VectorValue x \<Rightarrow> length x = n | _ \<Rightarrow> False)"
| "has_type JsonbType v \<longleftrightarrow> v = JsonValue"
| "has_type TsVectorType v \<longleftrightarrow> v = TsVectorValue"

text \<open>
  On assignment to a \<open>VARCHAR(n)\<close> column a longer text is cut to \<open>n\<close> characters if all the others
  are spaces.
\<close>

fun assigned_value :: "column_type \<Rightarrow> sql_value \<Rightarrow> sql_value" where
  "assigned_value (VarChar n) (TextValue s) =
     (if list_all (\<lambda>c. c = CHR '' '') (drop n s) then TextValue (take n s) else TextValue s)"
| "assigned_value _ v = v"

definition column_fits :: "row \<Rightarrow> column \<Rightarrow> bool" where
  "column_fits r c = (case r (col_name c) of None \<Rightarrow> True | Some v \<Rightarrow> has_type (col_type c) v)"

definition null_allowed :: "row \<Rightarrow> column \<Rightarrow> bool" where
  "null_allowed r c \<longleftrightarrow> col_nullable c \<or> r (col_name c) \<noteq> None"

fun constraint_holds :: "(string \<Rightarrow> row list) \<Rightarrow> string \<Rightarrow> row \<Rightarrow> table_constraint \<Rightarrow> bool" where
  "constraint_holds rows t r (PrimaryKey cs) \<longleftrightarrow>
     list_all (\<lambda>c. r c \<noteq> None) cs \<and> list_all (\<lambda>s. map s cs \<noteq> map r cs) (rows t)"
| "constraint_holds rows t r (UniqueKey cs) \<longleftrightarrow>
     list_ex (\<lambda>c. r c = None) cs \<or> list_all (\<lambda>s. map s cs \<noteq> map r cs) (rows t)"
| "constraint_holds rows t r (ForeignKey cs u ds _) \<longleftrightarrow>
     list_ex (\<lambda>c. r c = None) cs \<or> list_ex (\<lambda>s. map s ds = map r cs) (rows u)"
| "constraint_holds rows t r (CheckIn c vs) \<longleftrightarrow>
     (case r c of None \<Rightarrow> True | Some v \<Rightarrow> list_ex (\<lambda>w. v = TextValue w) vs)"

definition check_row :: "table_def \<Rightarrow> (string \<Rightarrow> row list) \<Rightarrow> row \<Rightarrow> (exn, unit) outcome" where
  "check_row t rows r =
     (if \<not> list_all (column_fits r) (written_columns t) then Inl DataError
      else if \<not> (list_all (null_allowed r) (written_columns t) \<and>
                 list_all (\<lambda>(_, con). constraint_holds rows (tb_name t) r con) (tb_constraints t))
           then Inl IntegrityError
      else Inr ())"

definition assign_column :: "column \<Rightarrow> row \<Rightarrow> row" where
  "assign_column c r = r (col_name c := map_option (assigned_value (col_type c)) (r (col_name c)))"

definition assigned :: "table_def \<Rightarrow> row \<Rightarrow> row" where
  "assigned t r = fold assign_column (written_columns t) r"

text \<open>The row that an \<open>INSERT\<close> stores.\<close>

definition check_insert :: "catalog \<Rightarrow> string \<Rightarrow> (string \<Rightarrow> row list) \<Rightarrow> row \<Rightarrow> (exn, row) outcome" where
  "check_insert cat n rows r =
     (case find_table n (cat_tables cat) of
        None \<Rightarrow> Inl (OtherError ''UndefinedTable'')
      | Some t \<Rightarrow> try_bind (check_row t rows (assigned t r)) (\<lambda>_. Inr (assigned t r)))"

text \<open>No text of the row is cut.\<close>

definition stored_as_is :: "string \<Rightarrow> row \<Rightarrow> bool" where
  "stored_as_is n r = (case find_table n (cat_tables head_schema) of None \<Rightarrow> False | Some t \<Rightarrow> assigned t r = r)"

subsection \<open>The tables of the model as rows\<close>

definition user_row :: "user \<Rightarrow> row" where
  "user_row u = map_of
     [(''id'', UuidValue (u_id u)), (''email'', TextValue (u_email u)), (''is_active'', BoolValue (u_is_active u)),
      (''created_at'', TimeValue (u_created_at u)), (''updated_at'', TimeValue (u_created_at u))]"

definition api_key_row :: "api_key \<Rightarrow> row" where
  "api_key_row k = (map_of
     [(''id'', UuidValue (k_id k)), (''user_id'', UuidValue (k_user_id k)), (''key_prefix'', TextValue (k_key_prefix k)),
      (''key_hash'', TextValue (k_key_hash k)), (''name'', TextValue (k_name k)), (''is_active'', BoolValue (k_is_active k)),
      (''created_at'', TimeValue (k_created_at k))])
     (''expires_at'' := map_option TimeValue (k_expires_at k), ''last_used_at'' := map_option TimeValue (k_last_used_at k))"

definition refresh_token_row :: "refresh_token \<Rightarrow> row" where
  "refresh_token_row t = map_of
     [(''id'', UuidValue (t_id t)), (''user_id'', UuidValue (t_user_id t)), (''token_hash'', TextValue (t_token_hash t)),
      (''expires_at'', TimeValue (t_expires_at t)), (''created_at'', TimeValue (t_created_at t))]"

definition organization_row :: "organization \<Rightarrow> row" where
  "organization_row g = map_of
     [(''id'', UuidValue (o_id g)), (''name'', TextValue (o_name g)), (''slug'', TextValue (o_slug g)),
      (''created_at'', TimeValue (o_created_at g))]"

definition membership_row :: "membership \<Rightarrow> row" where
  "membership_row m = map_of
     [(''id'', UuidValue (m_id m)), (''org_id'', UuidValue (m_org_id m)), (''user_id'', UuidValue (m_user_id m)),
      (''role'', TextValue (role_value (m_role m))), (''created_at'', TimeValue (m_created_at m))]"

definition invite_row :: "invite \<Rightarrow> row" where
  "invite_row i = (map_of
     [(''id'', UuidValue (i_id i)), (''org_id'', UuidValue (i_org_id i)), (''email'', TextValue (i_email i)),
      (''role'', TextValue (role_value (i_role i))), (''token_hash'', TextValue (i_token_hash i)),
      (''status'', TextValue (invite_status_str (i_status i))), (''expires_at'', TimeValue (i_expires_at i)),
      (''created_at'', TimeValue (i_created_at i))])
     (''accepted_at'' := map_option TimeValue (i_accepted_at i), ''created_by'' := map_option UuidValue (i_created_by i))"

definition document_row :: "document \<Rightarrow> row" where
  "document_row d = (map_of
     [(''id'', UuidValue (d_id d)), (''user_id'', UuidValue (d_user_id d)), (''tenant_id'', UuidValue (d_tenant_id d)),
      (''filename'', TextValue (d_filename d)), (''content_hash'', TextValue (d_content_hash d)),
      (''size_bytes'', IntValue (int (d_size_bytes d))), (''status'', TextValue (document_status_str (d_status d))),
      (''chunk_count'', IntValue (int (d_chunk_count d))), (''created_at'', TimeValue (d_created_at d)),
      (''updated_at'', TimeValue (d_updated_at d))])
     (''mime_type'' := map_option TextValue (d_mime_type d), ''storage_key'' := map_option TextValue (d_storage_key d),
      ''error_message'' := map_option TextValue (d_error_message d), ''deleted_at'' := map_option TimeValue (d_deleted_at d))"

definition chunk_row_of :: "chunk_row \<Rightarrow> row" where
  "chunk_row_of c = (map_of
     [(''id'', UuidValue (c_id c)), (''document_id'', UuidValue (c_document_id c)), (''user_id'', UuidValue (c_user_id c)),
      (''tenant_id'', UuidValue (c_tenant_id c)), (''content'', TextValue (c_content c)),
      (''chunk_index'', IntValue (int (c_chunk_index c))), (''embedding'', VectorValue (c_embedding c)),
      (''metadata'', JsonValue), (''created_at'', TimeValue (c_created_at c))])
     (''page_number'' := map_option (\<lambda>n. IntValue (int n)) (c_page_number c))"

definition job_row :: "job \<Rightarrow> row" where
  "job_row j = (map_of
     [(''id'', UuidValue (j_id j)), (''document_id'', UuidValue (j_document_id j)), (''user_id'', UuidValue (j_user_id j)),
      (''tenant_id'', UuidValue (j_tenant_id j)), (''status'', TextValue (job_status_str (j_status j))),
      (''idempotency_key'', TextValue (j_idempotency_key j)), (''attempt_count'', IntValue (int (j_attempt_count j))),
      (''max_attempts'', IntValue (int (j_max_attempts j))), (''version'', IntValue (int (j_version j))),
      (''created_at'', TimeValue (j_created_at j))])
     (''worker_id'' := map_option TextValue (j_worker_id j), ''error_message'' := map_option TextValue (j_error_message j),
      ''claimed_at'' := map_option TimeValue (j_claimed_at j), ''started_at'' := map_option TimeValue (j_started_at j),
      ''completed_at'' := map_option TimeValue (j_completed_at j))"

definition rows_of :: "database \<Rightarrow> string \<Rightarrow> row list" where
  "rows_of db n =
     (if n = ''users'' then map user_row (users db)
      else if n = ''api_keys'' then map api_key_row (api_keys db)
      else if n = ''refresh_tokens'' then map refresh_token_row (refresh_tokens db)
      else if n = ''organizations'' then map organization_row (organizations db)
      else if n = ''org_memberships'' then map membership_row (memberships db)
      else if n = ''organization_invites'' then map invite_row (invites db)
      else if n = ''documents'' then map document_row (documents db)
      else if n = ''chunks'' then map chunk_row_of (chunks db)
      else if n = ''ingestion_jobs'' then map job_row (jobs db)
      else [])"

subsection \<open>A row is checked alike by tables that agree\<close>

lemma check_row_agrees:
  assumes "agrees t u"
  shows "check_row t rows r = check_row u rows r"
proof -
  have "column_fits r (bare c) = column_fits r c" "null_allowed r (bare c) = null_allowed r c" for c
    by (simp_all add: column_fits_def null_allowed_def bare_def split: option.split)
  then have bare: "list_all (column_fits r) cs = list_all (column_fits r) (map bare cs)"
    "list_all (null_allowed r) cs = list_all (null_allowed r) (map bare cs)" for cs
    by (simp_all add: list_all_iff)
  show ?thesis
    unfolding check_row_def bare [of "written_columns t"] bare [of "written_columns u"]
    using assms by (simp only: agrees_def list_all_iff)
qed

lemma head_table_agrees:
  assumes "t \<in> set (metadata_tables False)"
  obtains u where "find_table (tb_name t) (cat_tables head_schema) = Some u" "agrees u t"
  using head_facts(4) assms by (auto simp: tables_agree_def list_all_iff split: option.splits)

lemma check_insert_head:
  assumes "t \<in> set (metadata_tables False)" and "stored_as_is (tb_name t) r"
  shows "check_insert head_schema (tb_name t) rows r = try_bind (check_row t rows r) (\<lambda>_. Inr r)"
proof -
  obtain u where u: "find_table (tb_name t) (cat_tables head_schema) = Some u" "agrees u t"
    by (rule head_table_agrees [OF assms(1)])
  with assms(2) show ?thesis by (simp add: stored_as_is_def check_insert_def check_row_agrees [OF u(2)])
qed

text \<open>A row whose texts are within the widths of the declared columns is stored as it is.\<close>

definition value_kept :: "row \<Rightarrow> column \<Rightarrow> bool" where
  "value_kept r c = (case r (col_name c) of None \<Rightarrow> True | Some v \<Rightarrow> assigned_value (col_type c) v = v)"

lemma stored_as_isI:
  assumes "t \<in> set (metadata_tables False)" and "list_all (value_kept r) (written_columns t)"
  shows "stored_as_is (tb_name t) r"
proof -
  obtain u where u: "find_table (tb_name t) (cat_tables head_schema) = Some u" "agrees u t"
    by (rule head_table_agrees [OF assms(1)])
  have bare: "value_kept r (bare c) = value_kept r c" for c
    by (simp add: value_kept_def bare_def split: option.split)
  have "\<forall>c \<in> set (map bare (written_columns t)). value_kept r c" using assms(2) by (auto simp: list_all_iff bare)
  then have "\<forall>c \<in> set (written_columns u). value_kept r c"
    using u(2) unfolding agrees_def by (metis bare imageI set_map)
  moreover have "fold assign_column cs r = r" if "\<forall>c \<in> set cs. value_kept r c" for cs
    using that
  proof (induction cs)
    case (Cons c cs)
    have "assign_column c r = r"
      using Cons.prems by (cases "r (col_name c)") (simp_all add: assign_column_def value_kept_def fun_upd_idem_iff)
    with Cons show ?case by simp
  qed simp
  ultimately show ?thesis by (simp add: stored_as_is_def u(1) assigned_def)
qed

lemma table_names:
  "tb_name users_table = ''users''"
  "tb_name api_keys_table = ''api_keys''"
  "tb_name refresh_tokens_table = ''refresh_tokens''"
  "tb_name organizations_table = ''organizations''"
  "tb_name org_memberships_table = ''org_memberships''"
  "tb_name organization_invites_table = ''organization_invites''"
  "tb_name documents_table = ''documents''"
  "tb_name (chunks_table False) = ''chunks''"
  "tb_name ingestion_jobs_table = ''ingestion_jobs''"
  by (simp_all add: users_table_def api_keys_table_def refresh_tokens_table_def organizations_table_def org_memberships_table_def organization_invites_table_def documents_table_def chunks_table_def ingestion_jobs_table_def mapped_table_def)

lemma check_insert_table:
  "stored_as_is ''users'' r \<Longrightarrow> check_insert head_schema ''users'' rows r = try_bind (check_row users_table rows r) (\<lambda>_. Inr r)"
  "stored_as_is ''api_keys'' r \<Longrightarrow> check_insert head_schema ''api_keys'' rows r = try_bind (check_row api_keys_table rows r) (\<lambda>_. Inr r)"
  "stored_as_is ''refresh_tokens'' r \<Longrightarrow> check_insert head_schema ''refresh_tokens'' rows r = try_bind (check_row refresh_tokens_table rows r) (\<lambda>_. Inr r)"
  "stored_as_is ''organizations'' r \<Longrightarrow> check_insert head_schema ''organizations'' rows r = try_bind (check_row organizations_table rows r) (\<lambda>_. Inr r)"
  "stored_as_is ''org_memberships'' r \<Longrightarrow> check_insert head_schema ''org_memberships'' rows r = try_bind (check_row org_memberships_table rows r) (\<lambda>_. Inr r)"
  "stored_as_is ''organization_invites'' r \<Longrightarrow> check_insert head_schema ''organization_invites'' rows r = try_bind (check_row organization_invites_table rows r) (\<lambda>_. Inr r)"
  "stored_as_is ''documents'' r \<Longrightarrow> check_insert head_schema ''documents'' rows r = try_bind (check_row documents_table rows r) (\<lambda>_. Inr r)"
  "stored_as_is ''chunks'' r \<Longrightarrow> check_insert head_schema ''chunks'' rows r = try_bind (check_row (chunks_table False) rows r) (\<lambda>_. Inr r)"
  "stored_as_is ''ingestion_jobs'' r \<Longrightarrow> check_insert head_schema ''ingestion_jobs'' rows r = try_bind (check_row ingestion_jobs_table rows r) (\<lambda>_. Inr r)"
  using check_insert_head [of users_table r rows]
    check_insert_head [of api_keys_table r rows]
    check_insert_head [of refresh_tokens_table r rows]
    check_insert_head [of organizations_table r rows]
    check_insert_head [of org_memberships_table r rows]
    check_insert_head [of organization_invites_table r rows]
    check_insert_head [of documents_table r rows]
    check_insert_head [of "chunks_table False" r rows]
    check_insert_head [of ingestion_jobs_table r rows]
  by (simp_all add: metadata_tables_def table_names)

lemma table_kept:
  "list_all (value_kept r) (written_columns users_table) \<Longrightarrow> stored_as_is ''users'' r"
  "list_all (value_kept r) (written_columns api_keys_table) \<Longrightarrow> stored_as_is ''api_keys'' r"
  "list_all (value_kept r) (written_columns refresh_tokens_table) \<Longrightarrow> stored_as_is ''refresh_tokens'' r"
  "list_all (value_kept r) (written_columns organizations_table) \<Longrightarrow> stored_as_is ''organizations'' r"
  "list_all (value_kept r) (written_columns org_memberships_table) \<Longrightarrow> stored_as_is ''org_memberships'' r"
  "list_all (value_kept r) (written_columns organization_invites_table) \<Longrightarrow> stored_as_is ''organization_invites'' r"
  "list_all (value_kept r) (written_columns documents_table) \<Longrightarrow> stored_as_is ''documents'' r"
  "list_all (value_kept r) (written_columns (chunks_table False)) \<Longrightarrow> stored_as_is ''chunks'' r"
  "list_all (value_kept r) (written_columns ingestion_jobs_table) \<Longrightarrow> stored_as_is ''ingestion_jobs'' r"
  using stored_as_isI [of users_table r]
    stored_as_isI [of api_keys_table r]
    stored_as_isI [of refresh_tokens_table r]
    stored_as_isI [of organizations_table r]
    stored_as_isI [of org_memberships_table r]
    stored_as_isI [of organization_invites_table r]
    stored_as_isI [of documents_table r]
    stored_as_isI [of "chunks_table False" r]
    stored_as_isI [of ingestion_jobs_table r]
  by (simp_all add: metadata_tables_def table_names)

subsection \<open>Each insert\<close>

definition fits_text :: "string option \<Rightarrow> bool" where
  "fits_text s = (case s of None \<Rightarrow> True | Some v \<Rightarrow> storable_text v)"

lemma insert_checks:
  assumes "f \<longleftrightarrow> list_all (column_fits r) (written_columns t)"
    and "c \<longleftrightarrow> list_all (null_allowed r) (written_columns t) \<and>
      list_all (\<lambda>(_, con). constraint_holds rows (tb_name t) r con) (tb_constraints t)"
  shows "checked_insert f c d = try_bind (try_bind (check_row t rows r) (\<lambda>_. Inr r)) (\<lambda>_. Inr d)"
  using assms by (simp add: checked_insert_def check_row_def)

lemmas table_defs = users_table_def api_keys_table_def refresh_tokens_table_def organizations_table_def
  org_memberships_table_def organization_invites_table_def documents_table_def chunks_table_def ingestion_jobs_table_def
  mapped_table_def id_column_def now_column_def server_default_def computed_def mapped_any_def not_null_def nullable_def

lemma values_fit [simp]:
  "fits 20 (role_value x)" "fits 20 (invite_status_str i)" "fits 20 (document_status_str d)" "fits 20 (job_status_str j)"
  by (cases x, simp_all add: fits_def) (cases i, simp_all, cases d, simp_all, cases j, simp_all)

lemma map_option_case: "(case map_option f x of None \<Rightarrow> a | Some v \<Rightarrow> g v) = (case x of None \<Rightarrow> a | Some v \<Rightarrow> g (f v))"
  by (cases x) simp_all

lemma key_in: "x \<in> f ` A \<longleftrightarrow> (\<exists>s \<in> A. f s = x)"
  by blast

lemma role_values [simp]: "role_value x = ''admin'' \<or> role_value x = ''editor'' \<or> role_value x = ''viewer''"
  by (cases x) auto

lemma document_status_values [simp]:
  "document_status_str x = ''pending'' \<or> document_status_str x = ''processing'' \<or> document_status_str x = ''ready'' \<or>
   document_status_str x = ''failed''"
  by (cases x) auto

lemma job_status_values [simp]:
  "job_status_str x = ''queued'' \<or> job_status_str x = ''claimed'' \<or> job_status_str x = ''running'' \<or>
   job_status_str x = ''completed'' \<or> job_status_str x = ''failed'' \<or> job_status_str x = ''dead''"
  by (cases x) auto

lemma invite_status_values [simp]:
  "invite_status_str x = ''pending'' \<or> invite_status_str x = ''accepted'' \<or> invite_status_str x = ''rejected'' \<or>
   invite_status_str x = ''revoked'' \<longleftrightarrow> invite_status_valid x"
  by (cases x) (auto simp: invite_status_valid_def)

lemmas column_simps = table_defs written_columns_def column_fits_def null_allowed_def map_option_case

lemmas reference_simps = rows_of_def user_row_def organization_row_def document_row_def list_all_iff list_ex_iff key_in

lemma insert_user_enforced:
  "stored_as_is ''users'' (user_row r) \<Longrightarrow>
    insert_user r db =
     try_bind (check_insert head_schema ''users'' (rows_of db) (user_row r)) (\<lambda>_. Inr (db\<lparr>users := users db @ [r]\<rparr>))"
  by (simp only: insert_user_def check_insert_table, rule insert_checks)
    (simp add: column_simps user_row_def fits_opt_def fits_text_def embedding_dim_def split: option.splits,
     auto simp: column_simps user_row_def reference_simps split: option.splits)

lemma insert_api_key_enforced:
  "stored_as_is ''api_keys'' (api_key_row r) \<Longrightarrow>
    insert_api_key r db =
     try_bind (check_insert head_schema ''api_keys'' (rows_of db) (api_key_row r)) (\<lambda>_. Inr (db\<lparr>api_keys := api_keys db @ [r]\<rparr>))"
  by (simp only: insert_api_key_def check_insert_table, rule insert_checks)
    (simp add: column_simps api_key_row_def fits_opt_def fits_text_def embedding_dim_def split: option.splits,
     auto simp: column_simps api_key_row_def reference_simps split: option.splits)

lemma insert_refresh_token_enforced:
  "stored_as_is ''refresh_tokens'' (refresh_token_row r) \<Longrightarrow>
    insert_refresh_token r db =
     try_bind (check_insert head_schema ''refresh_tokens'' (rows_of db) (refresh_token_row r)) (\<lambda>_. Inr (db\<lparr>refresh_tokens := refresh_tokens db @ [r]\<rparr>))"
  by (simp only: insert_refresh_token_def check_insert_table, rule insert_checks)
    (simp add: column_simps refresh_token_row_def fits_opt_def fits_text_def embedding_dim_def split: option.splits,
     auto simp: column_simps refresh_token_row_def reference_simps split: option.splits)

lemma insert_organization_enforced:
  "stored_as_is ''organizations'' (organization_row r) \<Longrightarrow>
    insert_organization r db =
     try_bind (check_insert head_schema ''organizations'' (rows_of db) (organization_row r)) (\<lambda>_. Inr (db\<lparr>organizations := organizations db @ [r]\<rparr>))"
  by (simp only: insert_organization_def check_insert_table, rule insert_checks)
    (simp add: column_simps organization_row_def fits_opt_def fits_text_def embedding_dim_def split: option.splits,
     auto simp: column_simps organization_row_def reference_simps split: option.splits)

lemma insert_membership_enforced:
  "stored_as_is ''org_memberships'' (membership_row r) \<Longrightarrow>
    insert_membership r db =
     try_bind (check_insert head_schema ''org_memberships'' (rows_of db) (membership_row r)) (\<lambda>_. Inr (db\<lparr>memberships := memberships db @ [r]\<rparr>))"
  by (simp only: insert_membership_def check_insert_table, rule insert_checks)
    (simp add: column_simps membership_row_def fits_opt_def fits_text_def embedding_dim_def split: option.splits,
     auto simp: column_simps membership_row_def reference_simps split: option.splits)

lemma insert_invite_enforced:
  "stored_as_is ''organization_invites'' (invite_row r) \<Longrightarrow>
    insert_invite r db =
     try_bind (check_insert head_schema ''organization_invites'' (rows_of db) (invite_row r)) (\<lambda>_. Inr (db\<lparr>invites := invites db @ [r]\<rparr>))"
  by (simp only: insert_invite_def check_insert_table, rule insert_checks)
    (simp add: column_simps invite_row_def fits_opt_def fits_text_def embedding_dim_def split: option.splits,
     auto simp: column_simps invite_row_def reference_simps split: option.splits)

lemma insert_document_enforced:
  "stored_as_is ''documents'' (document_row r) \<Longrightarrow> d_size_bytes r < 2 ^ 63 \<Longrightarrow> d_chunk_count r < 2 ^ 31 \<Longrightarrow> fits_text (d_error_message r) \<Longrightarrow>
    insert_document r db =
     try_bind (check_insert head_schema ''documents'' (rows_of db) (document_row r)) (\<lambda>_. Inr (db\<lparr>documents := documents db @ [r]\<rparr>))"
  by (simp only: insert_document_def check_insert_table, rule insert_checks)
    (simp add: column_simps document_row_def fits_opt_def fits_text_def embedding_dim_def split: option.splits,
     auto simp: column_simps document_row_def reference_simps split: option.splits)

lemma insert_chunk_enforced:
  "stored_as_is ''chunks'' (chunk_row_of r) \<Longrightarrow> c_chunk_index r < 2 ^ 31 \<Longrightarrow> (case c_page_number r of None \<Rightarrow> True | Some n \<Rightarrow> n < 2 ^ 31) \<Longrightarrow>
    insert_chunk r db =
     try_bind (check_insert head_schema ''chunks'' (rows_of db) (chunk_row_of r)) (\<lambda>_. Inr (db\<lparr>chunks := chunks db @ [r]\<rparr>))"
  by (simp only: insert_chunk_def check_insert_table, rule insert_checks)
    (simp add: column_simps chunk_row_of_def fits_opt_def fits_text_def embedding_dim_def split: option.splits,
     auto simp: column_simps chunk_row_of_def reference_simps split: option.splits)

lemma insert_job_enforced:
  "stored_as_is ''ingestion_jobs'' (job_row r) \<Longrightarrow> j_attempt_count r < 2 ^ 31 \<Longrightarrow> j_max_attempts r < 2 ^ 31 \<Longrightarrow> j_version r < 2 ^ 31 \<Longrightarrow>
    fits_opt 100 (j_worker_id r) \<Longrightarrow> fits_text (j_error_message r) \<Longrightarrow>
    insert_job r db =
     try_bind (check_insert head_schema ''ingestion_jobs'' (rows_of db) (job_row r)) (\<lambda>_. Inr (db\<lparr>jobs := jobs db @ [r]\<rparr>))"
  by (simp only: insert_job_def check_insert_table, rule insert_checks)
    (simp add: column_simps job_row_def fits_opt_def fits_text_def embedding_dim_def split: option.splits,
     auto simp: column_simps job_row_def reference_simps split: option.splits)

definition enforced :: "database \<Rightarrow> string \<Rightarrow> row \<Rightarrow> database \<Rightarrow> (exn, database) outcome" where
  "enforced db n r db' = try_bind (check_insert head_schema n (rows_of db) r) (\<lambda>_. Inr db')"

text \<open>
  Claim C9 (refinement): the inserts of the model do what PostgreSQL does under the migrated
  schema, as long as no text is cut.  At the last revision, inserting a row of any of the nine tables
  fails with a data error, fails with an integrity error or appends the row exactly when the columns,
  keys, foreign keys and \<open>CHECK\<close>s of the table say so, for rows without a text whose excess over its
  column's width is all spaces (which PostgreSQL cuts off and the model refuses), and for numbers and
  texts within the ranges of the columns that the services fill themselves.
\<close>

theorem inserts_enforce_schema:
  assumes "d_size_bytes d < 2 ^ 63" and "d_chunk_count d < 2 ^ 31" and "fits_text (d_error_message d)"
    and "c_chunk_index c < 2 ^ 31" and "case c_page_number c of None \<Rightarrow> True | Some n \<Rightarrow> n < 2 ^ 31"
    and "j_attempt_count j < 2 ^ 31" and "j_max_attempts j < 2 ^ 31" and "j_version j < 2 ^ 31"
    and "fits_opt 100 (j_worker_id j)" and "fits_text (j_error_message j)"
    and kept: "stored_as_is ''users'' (user_row u)" "stored_as_is ''api_keys'' (api_key_row k)"
      "stored_as_is ''refresh_tokens'' (refresh_token_row t)" "stored_as_is ''organizations'' (organization_row g)"
      "stored_as_is ''org_memberships'' (membership_row m)" "stored_as_is ''organization_invites'' (invite_row i)"
      "stored_as_is ''documents'' (document_row d)" "stored_as_is ''chunks'' (chunk_row_of c)"
      "stored_as_is ''ingestion_jobs'' (job_row j)"
  shows "insert_user u db = enforced db ''users'' (user_row u) (db\<lparr>users := users db @ [u]\<rparr>) \<and>
    insert_api_key k db = enforced db ''api_keys'' (api_key_row k) (db\<lparr>api_keys := api_keys db @ [k]\<rparr>) \<and>
    insert_refresh_token t db = enforced db ''refresh_tokens'' (refresh_token_row t) (db\<lparr>refresh_tokens := refresh_tokens db @ [t]\<rparr>) \<and>
    insert_organization g db = enforced db ''organizations'' (organization_row g) (db\<lparr>organizations := organizations db @ [g]\<rparr>) \<and>
    insert_membership m db = enforced db ''org_memberships'' (membership_row m) (db\<lparr>memberships := memberships db @ [m]\<rparr>) \<and>
    insert_invite i db = enforced db ''organization_invites'' (invite_row i) (db\<lparr>invites := invites db @ [i]\<rparr>) \<and>
    insert_document d db = enforced db ''documents'' (document_row d) (db\<lparr>documents := documents db @ [d]\<rparr>) \<and>
    insert_chunk c db = enforced db ''chunks'' (chunk_row_of c) (db\<lparr>chunks := chunks db @ [c]\<rparr>) \<and>
    insert_job j db = enforced db ''ingestion_jobs'' (job_row j) (db\<lparr>jobs := jobs db @ [j]\<rparr>)"
  unfolding enforced_def
  by (intro conjI insert_user_enforced insert_api_key_enforced insert_refresh_token_enforced
      insert_organization_enforced insert_membership_enforced insert_invite_enforced
      insert_document_enforced insert_chunk_enforced insert_job_enforced assms)

abbreviation a_user :: user where
  "a_user \<equiv> \<lparr>u_id = 3, u_email = ''a@b.de'', u_is_active = True, u_created_at = 0\<rparr>"

abbreviation a_key :: api_key where
  "a_key \<equiv> \<lparr>k_id = 4, k_user_id = 3, k_key_prefix = ''p'', k_key_hash = ''h'', k_name = ''n'', k_is_active = True,
     k_expires_at = None, k_last_used_at = None, k_created_at = 0\<rparr>"

abbreviation a_token :: refresh_token where
  "a_token \<equiv> \<lparr>t_id = 5, t_user_id = 3, t_token_hash = ''h'', t_expires_at = 0, t_created_at = 0\<rparr>"

abbreviation a_member :: membership where
  "a_member \<equiv> \<lparr>m_id = 6, m_org_id = 2, m_user_id = 3, m_role = Admin, m_created_at = 0\<rparr>"

abbreviation an_invite :: invite where
  "an_invite \<equiv> \<lparr>i_id = 7, i_org_id = 2, i_email = ''b@c.de'', i_role = Viewer, i_token_hash = ''h'', i_status = Pending,
     i_expires_at = 0, i_created_at = 0, i_accepted_at = None, i_created_by = None\<rparr>"

abbreviation an_org :: organization where
  "an_org \<equiv> \<lparr>o_id = 2, o_name = ''Lab'', o_slug = ''lab'', o_created_at = 0\<rparr>"

abbreviation new_document :: document where
  "new_document \<equiv> \<lparr>d_id = 10, d_user_id = 3, d_tenant_id = 2, d_filename = ''f'', d_content_hash = ''h'', d_size_bytes = 5,
     d_mime_type = None, d_storage_key = None, d_status = DocPending, d_chunk_count = 0, d_error_message = None,
     d_created_at = 0, d_updated_at = 0, d_deleted_at = None\<rparr>"

abbreviation new_chunk :: chunk_row where
  "new_chunk \<equiv> \<lparr>c_id = 20, c_document_id = 10, c_user_id = 3, c_tenant_id = 2, c_content = ''hello'', c_page_number = Some 1,
     c_chunk_index = 0, c_embedding = [], c_created_at = 0\<rparr>"

abbreviation new_job :: job where
  "new_job \<equiv> \<lparr>j_id = 30, j_document_id = 10, j_user_id = 3, j_tenant_id = 2, j_status = JobQueued, j_idempotency_key = ''k'',
     j_worker_id = None, j_attempt_count = 0, j_max_attempts = 3, j_version = 1, j_error_message = None,
     j_claimed_at = None, j_started_at = None, j_completed_at = None, j_created_at = 0\<rparr>"

abbreviation two_rows :: database where
  "two_rows \<equiv> \<lparr>users = [a_user], api_keys = [], refresh_tokens = [], organizations = [an_org], memberships = [],
     invites = [], documents = [], chunks = [], jobs = []\<rparr>"

text \<open>There the document is accepted, a chunk without the right embedding and a job without its document are not.\<close>

theorem inserts_enforce_schema_witness:
  "enforced two_rows ''documents'' (document_row new_document) (two_rows\<lparr>documents := [new_document]\<rparr>) =
     Inr (two_rows\<lparr>documents := [new_document]\<rparr>) \<and>
   enforced two_rows ''chunks'' (chunk_row_of new_chunk) (two_rows\<lparr>chunks := [new_chunk]\<rparr>) = Inl DataError \<and>
   enforced two_rows ''ingestion_jobs'' (job_row new_job) (two_rows\<lparr>jobs := [new_job]\<rparr>) = Inl IntegrityError"
proof -
  have kept: "stored_as_is ''users'' (user_row a_user)"
    "stored_as_is ''api_keys'' (api_key_row a_key)"
    "stored_as_is ''refresh_tokens'' (refresh_token_row a_token)"
    "stored_as_is ''organizations'' (organization_row an_org)"
    "stored_as_is ''org_memberships'' (membership_row a_member)"
    "stored_as_is ''organization_invites'' (invite_row an_invite)"
    "stored_as_is ''documents'' (document_row new_document)"
    "stored_as_is ''chunks'' (chunk_row_of new_chunk)"
    "stored_as_is ''ingestion_jobs'' (job_row new_job)"
    by (rule table_kept, simp add: column_simps value_kept_def user_row_def api_key_row_def refresh_token_row_def organization_row_def membership_row_def invite_row_def document_row_def chunk_row_of_def job_row_def)+
  note claim = inserts_enforce_schema [of new_document new_chunk new_job a_user a_key a_token an_org a_member an_invite two_rows,
      OF _ _ _ _ _ _ _ _ _ _ kept]
  have "insert_document new_document two_rows = Inr (two_rows\<lparr>documents := [new_document]\<rparr>)"
    "insert_chunk new_chunk two_rows = Inl DataError" "insert_job new_job two_rows = Inl IntegrityError"
    by (simp_all add: insert_document_def insert_chunk_def insert_job_def checked_insert_def fits_def fits_opt_def
        storable_text_def embedding_dim_def)
  with claim show ?thesis by (simp add: fits_text_def fits_opt_def)
qed

end
