(* ===== verification/Credentials.thy ===== *)
theory Credentials
  imports AccountClaims
begin

section \<open>What tokens and keys give access to\<close>

text \<open>
  A login's access token authenticates its user while it lasts; an API key authenticates its owner
  until it is revoked, whatever expiry date its row carries.
\<close>

subsection \<open>Access tokens\<close>

text \<open>
  What the code relies on in PyJWT, for the tokens of one call: until a second before the expiry
  (dates are truncated to seconds), decoding with the same key yields the claims.
\<close>

definition tokens_decode :: "crypto \<Rightarrow> auth_settings \<Rightarrow> timestamp \<Rightarrow> string \<Rightarrow> bool" where
  "tokens_decode cr st now email \<longleftrightarrow>
     (\<forall>uid t. now \<le> t \<longrightarrow> t + seconds 1 \<le> now + minutes (jwt_access_token_expire_minutes st) \<longrightarrow>
        (\<exists>e i. jwt_decode cr t (create_access_token cr st now uid email) (jwt_secret_key st) (jwt_algorithm st) =
           Inr \<lparr>p_sub = Some uid, p_email = Some email, p_exp = Some e, p_iat = Some i, p_type = Some ''access''\<rparr>)) \<and>
     (\<forall>uid. \<not> startswith (create_access_token cr st now uid email) api_key_prefix)"

lemma uuid_str_nonempty: "uuid_str n \<noteq> []"
  by (metis length_0_conv length_uuid_str zero_neq_numeral)

lemma decode_issued:
  assumes "tokens_decode cr st now email" and "now \<le> t" and "t + seconds 1 \<le> now + minutes (jwt_access_token_expire_minutes st)"
    and "email \<noteq> ''''"
  shows "\<exists>e. decode_access_token cr st t (create_access_token cr st now (uuid_str n) email) =
    Inr \<lparr>tp_user_id = uuid_str n, tp_email = email, tp_exp = e\<rparr>"
proof -
  from assms(1-3) obtain e i where "jwt_decode cr t (create_access_token cr st now (uuid_str n) email) (jwt_secret_key st) (jwt_algorithm st) =
     Inr \<lparr>p_sub = Some (uuid_str n), p_email = Some email, p_exp = Some e, p_iat = Some i, p_type = Some ''access''\<rparr>"
    unfolding tokens_decode_def by blast
  then show ?thesis using assms(4) by (simp add: decode_access_token_def uuid_str_nonempty)
qed

lemma jwt_authenticates:
  assumes "tokens_decode cr st now (u_email u)" and "now \<le> t"
    and "t + seconds 1 \<le> now + minutes (jwt_access_token_expire_minutes st)" and "u_email u \<noteq> ''''"
    and "user_ids.keyed db" and "u \<in> set (users db)" and "u_is_active u" and "u_id u < 2 ^ 128"
  shows "get_current_user cr st t (Some (create_access_token cr st now (uuid_str (u_id u)) (u_email u))) db = (Inr u, db)"
proof -
  obtain e where "decode_access_token cr st t (create_access_token cr st now (uuid_str (u_id u)) (u_email u)) =
    Inr \<lparr>tp_user_id = uuid_str (u_id u), tp_email = u_email u, tp_exp = e\<rparr>"
    using decode_issued [OF assms(1-4)] by blast
  then have "authenticate_jwt cr st t (create_access_token cr st now (uuid_str (u_id u)) (u_email u)) db = Inr u"
    using user_ids.lookup [OF assms(5,6)] assms(7,8) by (simp add: authenticate_jwt_def parse_uuid_str)
  moreover have "\<not> startswith (create_access_token cr st now (uuid_str (u_id u)) (u_email u)) api_key_prefix"
    using assms(1) unfolding tokens_decode_def by blast
  ultimately show ?thesis by (simp add: get_current_user_def)
qed

lemma verified_email_nonempty: "verified_email cr c = Inr email \<Longrightarrow> email \<noteq> ''''"
  by (auto simp: verified_email_def split: sum.splits exn.splits option.splits if_splits)

text \<open>A newly registered user has one membership, as the admin of the personal organization.\<close>

lemma register_user_member:
  assumes "accounts_wf db" and "register_user env email db = (Inr u, db')"
  shows "u \<in> set (users db')" "\<exists>m. resolve_membership (u_id u) None db' = Inr m \<and> m_role m = Admin"
proof -
  from assms(2) obtain db1 g where u: "insert_user u db = Inr db1"
    and "create_personal_organization (u_id u) (u_email u) (env_org_id env) (env_membership_id env) (env_tx_now env) db1 = (Inr g, db')"
    by (rule register_user_Inr) blast
  then obtain m db2 where g: "insert_organization g db1 = Inr db2" and m: "insert_membership m db2 = Inr db'"
    and "m_user_id m = u_id u" "m_role m = Admin"
    unfolding create_personal_organization_def Let_def by (auto elim: create_organization_Inr)
  have "memberships db' = memberships db @ [m]" and us: "users db' = users db @ [u]" and "u_id u \<notin> u_id ` set (users db)"
    using u g m by (auto simp: insert_user_def insert_organization_def insert_membership_def)
  moreover have "filter (\<lambda>k. m_user_id k = u_id u) (memberships db) = []"
    using referencedD(2) [OF accounts_wfD(10) [OF assms(1)]] calculation(3)
    by (auto simp: filter_empty_conv) (metis imageI)
  ultimately show "u \<in> set (users db')" "\<exists>m. resolve_membership (u_id u) None db' = Inr m \<and> m_role m = Admin"
    using \<open>m_user_id m = u_id u\<close> \<open>m_role m = Admin\<close>
    by (simp_all add: resolve_membership_def order_by_asc_def)
qed

text \<open>
  Claim C34 (functional): a login grants access.  When a login returns tokens, the access token
  authenticates, until a second before its expiry, as an active user with the address that Google
  verified; the refresh token is stored for that user by its hash; and a user who was not known
  before is the admin of the tenant that is used by default.
\<close>

theorem login_grants_access:
  assumes "google_login cr st env credential db = (Inr (access, refresh), db')" and "accounts_wf db"
    and "verified_email cr credential = Inr email \<Longrightarrow> tokens_decode cr st (env_now env) email"
    and "verified_email cr credential = Inr email"
    and "\<forall>u \<in> set (users db'). u_id u < 2 ^ 128"
  shows "\<exists>u \<in> set (users db'). u_email u = email \<and>
    (\<forall>t. env_now env \<le> t \<and> t + seconds 1 \<le> env_now env + minutes (jwt_access_token_expire_minutes st) \<longrightarrow>
       get_current_user cr st t (Some access) db' = (Inr u, db')) \<and>
    (\<exists>tok \<in> set (refresh_tokens db'). t_user_id tok = u_id u \<and> t_token_hash tok = hash_refresh_token cr refresh) \<and>
    (u \<notin> set (users db) \<longrightarrow> (\<exists>m. resolve_membership (u_id u) None db' = Inr m \<and> m_role m = Admin))"
proof -
  have decode: "tokens_decode cr st (env_now env) email" using assms(3,4) .
  have keyed: "user_ids.keyed db'" using accounts_wfD(1) [OF wf_google_login [OF assms(2,1)]] .
  have issued: "(\<forall>t. env_now env \<le> t \<and> t + seconds 1 \<le> env_now env + minutes (jwt_access_token_expire_minutes st) \<longrightarrow>
       get_current_user cr st t (Some access) db' = (Inr u, db')) \<and>
    (\<exists>tok \<in> set (refresh_tokens db'). t_user_id tok = u_id u \<and> t_token_hash tok = hash_refresh_token cr refresh)"
    if u: "u \<in> set (users d)" "u_email u = email" "u_is_active u"
      and run: "issue_refresh_token cr st env u d = (Inr (access, refresh), db')" for u d
  proof -
    have "access = create_access_token cr st (env_now env) (uuid_str (u_id u)) (u_email u)" "refresh = env_random env"
      using run by (auto elim: issue_refresh_token_Inr)
    moreover have "u \<in> set (users db')" using issue_refresh_token_tables(2) [OF run] u(1) by simp
    moreover have "\<exists>tok \<in> set (refresh_tokens db'). t_user_id tok = u_id u \<and> t_token_hash tok = sha256_hex cr (env_random env)"
      using issue_refresh_token_tables(4) [OF run] by auto
    ultimately show ?thesis
      using jwt_authenticates [of cr st "env_now env" u _ db'] decode keyed assms(5) u(2,3)
        verified_email_nonempty [OF assms(4)] by (simp add: hash_refresh_token_def)
  qed
  from assms(1) show ?thesis
  proof (cases rule: google_login_Inr)
    case (known email' u)
    then have u: "u \<in> set (users db)" "u_email u = email" using assms(4) by (auto simp: filter_eq_Cons_iff)
    from issued [OF u known(3,4)] u issue_refresh_token_tables(2) [OF known(4)] show ?thesis by auto
  next
    case (registered email' u db1)
    note new = register_user_member [OF assms(2) registered(3)]
    have "u_email u = email" using registered(1,3) assms(4) by (auto elim: register_user_Inr)
    moreover have "resolve_membership (u_id u) None db' = resolve_membership (u_id u) None db1"
      using issue_refresh_token_tables(3) [OF registered(5)] by (simp add: resolve_membership_def)
    ultimately show ?thesis
      using issued [OF new(1) _ registered(4,5)] new issue_refresh_token_tables(2) [OF registered(5)] by auto
  qed
qed

lemma sample_tokens_decode: "tokens_decode sample_crypto sample_settings 0 ''a@x.y''"
  by (auto simp: tokens_decode_def create_access_token_def api_key_prefix_def startswith_def)

theorem login_grants_access_witness:
  "\<exists>db'. google_login sample_crypto sample_settings (sample_env 6 ''r2'' 0) ''a@x.y''
       (sample_accounts [sample_user 3 ''a@x.y''] [] [] [] [] []) = (Inr (''eyJ'' @ uuid_str 3, ''r2''), db') \<and>
     get_current_user sample_crypto sample_settings (minutes 10) (Some (''eyJ'' @ uuid_str 3)) db' =
       (Inr (sample_user 3 ''a@x.y''), db')"
proof -
  let ?db = "sample_accounts [sample_user 3 ''a@x.y''] [] [] [] [] []"
  let ?db' = "sample_accounts [sample_user 3 ''a@x.y''] [sample_token 6 ''r2''] [] [] [] []"
  have run: "google_login sample_crypto sample_settings (sample_env 6 ''r2'' 0) ''a@x.y'' ?db =
      (Inr (''eyJ'' @ uuid_str 3, ''r2''), ?db')"
    by (simp add: google_login_def verified_email_def issue_refresh_token_def create_access_token_def
        generate_refresh_token_def insert_refresh_token_def checked_insert_def fits_def Let_def)
  have wf: "accounts_wf ?db"
    by (simp add: accounts_wf_def keys_wf_def keyed_defs referenced_def administered_def pending_unique_def pending_outside_def)
  have "verified_email sample_crypto ''a@x.y'' = Inr ''a@x.y''" by (simp add: verified_email_def)
  from login_grants_access [OF run wf _ this] sample_tokens_decode
  have "get_current_user sample_crypto sample_settings (minutes 10) (Some (''eyJ'' @ uuid_str 3)) ?db' =
       (Inr (sample_user 3 ''a@x.y''), ?db')"
    by (simp add: seconds_def minutes_def)
  with run show ?thesis by blast
qed

subsection \<open>API keys\<close>

lemma try_keys_none:
  "\<forall>k \<in> set ks. \<not> verify_api_key cr raw (k_key_hash k) \<Longrightarrow>
    try_keys cr now raw ks db = (Inl (App (AuthenticationError ''Invalid API key.'')), db)"
  by (induction ks) auto

lemma try_keys_last:
  "\<forall>k \<in> set ks. \<not> verify_api_key cr raw (k_key_hash k) \<Longrightarrow> try_keys cr now raw (ks @ [key]) db = try_keys cr now raw [key] db"
  by (induction ks) auto

lemma owner_unique: "user_ids.keyed db \<Longrightarrow> u \<in> set (users db) \<Longrightarrow> owner (u_id u) db = Inr u"
  using user_ids.lookup [of db u] by (simp add: owner_def scalar_one_or_none_Some)

lemma startswith_append: "startswith (p @ s) p"
  by (simp add: startswith_def)

text \<open>
  Claim C36 (functional): the life of an API key.  The full key returned at its creation
  authenticates its active owner and its use is noted; nobody but the owner can revoke it; after
  the owner has, it authenticates nobody.  bcrypt must verify what it hashed, and no other active
  key of the database.
\<close>

theorem api_key_lifecycle:
  assumes "accounts_wf db" and "create_user_api_key cr env (u_id u) name db = (Inr (full_key, key), db1)"
    and "u \<in> set (users db)" and "u_is_active u"
    and "bcrypt_checkpw cr full_key (bcrypt_hashpw cr full_key (env_salt env)) = Some True"
    and "\<forall>k \<in> set (api_keys db). k_is_active k \<longrightarrow> \<not> verify_api_key cr full_key (k_key_hash k)"
  shows "(\<exists>db2. get_current_user cr st now (Some full_key) db1 = (Inr u, db2) \<and>
      key \<lparr>k_last_used_at := Some now\<rparr> \<in> set (api_keys db2)) \<and>
    (\<forall>v. v \<noteq> u_id u \<longrightarrow> revoke_user_api_key v (k_id key) db1 =
      (Inl (App (NotFoundError ''API key'' (uuid_str (k_id key)))), db1)) \<and>
    (\<exists>db3. revoke_user_api_key (u_id u) (k_id key) db1 = (Inr (), db3) \<and>
      get_current_user cr st now (Some full_key) db3 = (Inl (App (AuthenticationError ''Invalid API key.'')), db3))"
proof -
  have key: "full_key = api_key_prefix @ env_random env" "k_user_id key = u_id u" "k_key_prefix key = take 12 full_key"
    "k_key_hash key = bcrypt_hashpw cr full_key (env_salt env)" "k_is_active key" and ins: "insert_api_key key db = Inr db1"
    using assms(2) by (auto simp: create_user_api_key_def generate_api_key_def Let_def split: sum.splits)
  have db1: "api_keys db1 = api_keys db @ [key]" "users db1 = users db" and fresh: "k_id key \<notin> k_id ` set (api_keys db)"
    using ins by (auto simp: insert_api_key_def)
  have wf1: "accounts_wf db1" using wf_create_user_api_key [OF assms(1,2)] .
  have verifies: "verify_api_key cr full_key (k_key_hash key)" using assms(5) key(4) by (simp add: verify_api_key_def)
  have prefixed: "startswith full_key api_key_prefix" unfolding key(1) by (rule startswith_append)
  let ?cand = "\<lambda>k. k_key_prefix k = take 12 full_key \<and> k_is_active k"
  have others: "\<forall>k \<in> set (filter ?cand (api_keys db)). \<not> verify_api_key cr full_key (k_key_hash k)"
    using assms(6) by simp
  let ?db2 = "db1 \<lparr>api_keys := update_where (\<lambda>k. k_id k = k_id key) (\<lambda>k. k \<lparr>k_last_used_at := Some now\<rparr>) (api_keys db1)\<rparr>"
  have "authenticate_api_key cr now full_key db1 = try_keys cr now full_key [key] db1"
    unfolding authenticate_api_key_def db1(1) filter_append
    using try_keys_last [OF others] key(3,5) by simp
  also have "\<dots> = (Inr u, ?db2)"
    using verifies owner_unique [OF accounts_wfD(1) [OF wf1], of u] assms(3,4) db1(2) key(2) by simp
  finally have 1: "get_current_user cr st now (Some full_key) db1 = (Inr u, ?db2)"
    using prefixed by (simp add: get_current_user_def)
  have noted: "key \<lparr>k_last_used_at := Some now\<rparr> \<in> set (api_keys ?db2)"
    by (simp add: db1(1) set_update_where)
  have here: "filter (\<lambda>k. k_id k = k_id key \<and> k_user_id k = v) (api_keys db1) = (if v = u_id u then [key] else [])" for v
    using fresh key(2) by (auto simp: db1(1) filter_empty_conv image_iff)
  have 2: "revoke_user_api_key v (k_id key) db1 = (Inl (App (NotFoundError ''API key'' (uuid_str (k_id key)))), db1)"
    if "v \<noteq> u_id u" for v
    using that by (simp add: revoke_user_api_key_def here)
  let ?db3 = "db1 \<lparr>api_keys := update_where (\<lambda>k. k_id k = k_id key) (\<lambda>k. k \<lparr>k_is_active := False\<rparr>) (api_keys db1)\<rparr>"
  have 3: "revoke_user_api_key (u_id u) (k_id key) db1 = (Inr (), ?db3)"
    by (simp add: revoke_user_api_key_def here)
  have "update_where (\<lambda>k. k_id k = k_id key) (\<lambda>k. k \<lparr>k_is_active := False\<rparr>) (api_keys db) = api_keys db"
    using fresh by (intro update_where_unchanged) (auto simp: image_iff)
  then have "api_keys ?db3 = api_keys db @ [key \<lparr>k_is_active := False\<rparr>]"
    by (simp add: db1(1) update_where_def)
  then have "authenticate_api_key cr now full_key ?db3 = (Inl (App (AuthenticationError ''Invalid API key.'')), ?db3)"
    unfolding authenticate_api_key_def using others by (intro try_keys_none) simp
  then have 4: "get_current_user cr st now (Some full_key) ?db3 =
      (Inl (App (AuthenticationError ''Invalid API key.'')), ?db3)"
    using prefixed by (simp add: get_current_user_def)
  show ?thesis using 1 noted 2 3 4 by blast
qed

abbreviation sample_key :: "timestamp option \<Rightarrow> api_key" where
  "sample_key expires \<equiv> \<lparr>k_id = 8, k_user_id = 3, k_key_prefix = ''sk-secret'', k_key_hash = ''sk-secret'', k_name = ''ci'',
     k_is_active = True, k_expires_at = expires, k_last_used_at = None, k_created_at = 0\<rparr>"

theorem api_key_lifecycle_witness:
  "(let db1 = sample_accounts [sample_user 3 ''a@x.y''] [] [] [] [] [sample_key None]
    in (\<exists>db2. get_current_user sample_crypto sample_settings 5 (Some ''sk-secret'') db1 = (Inr (sample_user 3 ''a@x.y''), db2)) \<and>
       revoke_user_api_key 4 8 db1 = (Inl (App (NotFoundError ''API key'' (uuid_str 8))), db1) \<and>
       (\<exists>db3. revoke_user_api_key 3 8 db1 = (Inr (), db3) \<and>
          get_current_user sample_crypto sample_settings 5 (Some ''sk-secret'') db3 =
            (Inl (App (AuthenticationError ''Invalid API key.'')), db3)))"
proof -
  let ?db = "sample_accounts [sample_user 3 ''a@x.y''] [] [] [] [] []"
  have wf: "accounts_wf ?db"
    by (simp add: accounts_wf_def keys_wf_def keyed_defs referenced_def administered_def pending_unique_def pending_outside_def)
  have run: "create_user_api_key sample_crypto (sample_env 8 ''secret'' 0) (u_id (sample_user 3 ''a@x.y'')) ''ci'' ?db =
      (Inr (''sk-secret'', sample_key None), sample_accounts [sample_user 3 ''a@x.y''] [] [] [] [] [sample_key None])"
    by (simp add: create_user_api_key_def generate_api_key_def api_key_prefix_def insert_api_key_def checked_insert_def fits_def Let_def)
  show ?thesis
    unfolding Let_def
    using api_key_lifecycle [OF wf run, where st = sample_settings and now = 5] by auto
qed

text \<open>
  Expiry dates of API keys are not enforced.  Whatever \<open>expires_at\<close> the
  rows of the keys carry, and whatever the time is, authentication by key yields the same user or
  the same error; a key that has expired keeps working.
\<close>

theorem api_key_expiry_ignored:
  assumes "startswith raw api_key_prefix"
  shows "fst (get_current_user cr st now (Some raw) (db \<lparr>api_keys := map (\<lambda>k. k \<lparr>k_expires_at := e k\<rparr>) (api_keys db)\<rparr>)) =
    fst (get_current_user cr st now' (Some raw) db)"
proof -
  let ?f = "\<lambda>k. k \<lparr>k_expires_at := e k\<rparr>"
  let ?db = "db \<lparr>api_keys := map ?f (api_keys db)\<rparr>"
  have "fst (try_keys cr now raw (map ?f ks) ?db) = fst (try_keys cr now' raw ks db)" for ks
    by (induction ks) (simp_all add: owner_def split: option.split)
  moreover have "filter (\<lambda>k. k_key_prefix k = take 12 raw \<and> k_is_active k) (map ?f ks) =
      map ?f (filter (\<lambda>k. k_key_prefix k = take 12 raw \<and> k_is_active k) ks)" for ks
    by (induction ks) auto
  ultimately show ?thesis
    using assms by (simp add: get_current_user_def authenticate_api_key_def)
qed

theorem api_key_expiry_ignored_witness:
  "fst (get_current_user sample_crypto sample_settings 1000 (Some ''sk-secret'')
     (sample_accounts [sample_user 3 ''a@x.y''] [] [] [] [] [sample_key (Some 10)])) = Inr (sample_user 3 ''a@x.y'')"
proof -
  let ?db = "sample_accounts [sample_user 3 ''a@x.y''] [] [] [] [] [sample_key None]"
  have "fst (get_current_user sample_crypto sample_settings 5 (Some ''sk-secret'') ?db) = Inr (sample_user 3 ''a@x.y'')"
    by (simp add: get_current_user_def startswith_def api_key_prefix_def authenticate_api_key_def verify_api_key_def owner_def)
  moreover have "startswith ''sk-secret'' api_key_prefix" by (simp add: startswith_def api_key_prefix_def)
  ultimately show ?thesis
    using api_key_expiry_ignored [where raw = "''sk-secret''" and cr = sample_crypto and st = sample_settings and now = 1000
        and db = ?db and e = "\<lambda>_. Some 10" and now' = 5] by simp
qed

end
