(* ===== verification/WholeSystem.thy ===== *)
theory WholeSystem
  imports PlatformInvariant Credentials Worker
begin

section \<open>The whole system\<close>

text \<open>
  Requests on accounts (\<open>Accounts.thy\<close>), requests on documents (\<open>Platform.thy\<close>) and workers
  (\<open>Worker.thy\<close>) over one database, interleaved transaction by transaction, and the invariant that
  they keep together.
\<close>

subsection \<open>The steps\<close>

text \<open>The state: the platform and the tasks that workers hold.\<close>

type_synonym deployment = "platform \<times> task list"

definition with_database :: "platform \<Rightarrow> database \<Rightarrow> platform" where
  "with_database w db =
     \<lparr>pf_database = db, pf_bucket = pf_bucket w, pf_redis = pf_redis w, pf_gateway = pf_gateway w\<rparr>"

definition with_accounts :: "platform \<Rightarrow> database \<times> redis \<Rightarrow> platform" where
  "with_accounts w a =
     \<lparr>pf_database = fst a, pf_bucket = pf_bucket w, pf_redis = snd a, pf_gateway = pf_gateway w\<rparr>"

inductive system_step :: "deployment \<Rightarrow> deployment \<Rightarrow> bool" where
  platform_request: "handle_platform px req w = (x, w') \<Longrightarrow> system_step (w, ts) (w', ts)"
| account_request: "handle cx req (pf_database w, pf_redis w) = (x, a) \<Longrightarrow>
    system_step (w, ts) (with_accounts w a, ts)"
| worker_claims: "claim_next_job timeout now tx_now locked worker_id (pf_database w) = (Some j, db') \<Longrightarrow>
    system_step (w, ts) (with_database w db', ts @ [task_of j])"
| worker_idles: "claim_next_job timeout now tx_now locked worker_id (pf_database w) = (None, db') \<Longrightarrow>
    system_step (w, ts) (with_database w db', ts)"
| task_commits: "t \<in> set ts \<Longrightarrow> process_transaction env t (pf_database w) = Committed db' \<Longrightarrow>
    system_step (w, ts) (with_database w db', remove1 t ts)"
| task_fails: "t \<in> set ts \<Longrightarrow> fail_transaction env t e (pf_database w) = Inr db' \<Longrightarrow>
    system_step (w, ts) (with_database w db', remove1 t ts)"
| task_lost: "system_step (w, ts) (w, remove1 t ts)"

definition empty_system :: "deployment \<Rightarrow> bool" where
  "empty_system s \<longleftrightarrow> no_accounts (pf_database (fst s), pf_redis (fst s)) \<and> documents (pf_database (fst s)) = [] \<and>
     chunks (pf_database (fst s)) = [] \<and> jobs (pf_database (fst s)) = [] \<and> snd s = []"

subsection \<open>Account requests leave the documents alone\<close>

lemma unchanged_rows_refl: "unchanged_rows db db"
  by (simp add: unchanged_rows_def)

lemma unchanged_rows_trans: "unchanged_rows a b \<Longrightarrow> unchanged_rows b c \<Longrightarrow> unchanged_rows a c"
  by (simp add: unchanged_rows_def)

lemma insert_rows:
  "insert_user u db = Inr db' \<Longrightarrow> unchanged_rows db db'"
  "insert_organization g db = Inr db' \<Longrightarrow> unchanged_rows db db'"
  "insert_membership m db = Inr db' \<Longrightarrow> unchanged_rows db db'"
  "insert_invite i db = Inr db' \<Longrightarrow> unchanged_rows db db'"
  "insert_refresh_token t db = Inr db' \<Longrightarrow> unchanged_rows db db'"
  "insert_api_key k db = Inr db' \<Longrightarrow> unchanged_rows db db'"
  by (auto simp: unchanged_rows_def insert_user_def insert_organization_def insert_membership_def insert_invite_def
      insert_refresh_token_def insert_api_key_def)

lemma create_organization_rows:
  "create_organization name uid slug g_id m_id' tx db = (Inr g, db') \<Longrightarrow> unchanged_rows db db'"
  by (erule create_organization_Inr) (rule unchanged_rows_trans [OF insert_rows(2) insert_rows(3)])

lemma issue_refresh_token_rows: "issue_refresh_token cr st env u db = (Inr x, db') \<Longrightarrow> unchanged_rows db db'"
  by (erule issue_refresh_token_Inr) (rule insert_rows)

lemma register_user_rows: "register_user env email db = (Inr u, db') \<Longrightarrow> unchanged_rows db db'"
  by (erule register_user_Inr, unfold create_personal_organization_def Let_def)
     (rule unchanged_rows_trans [OF insert_rows(1) create_organization_rows])

lemma google_login_rows: "google_login cr st env c db = (Inr x, db') \<Longrightarrow> unchanged_rows db db'"
  by (erule google_login_Inr) (auto intro: issue_refresh_token_rows unchanged_rows_trans dest: register_user_rows)

lemma get_current_user_rows: "get_current_user cr st now cred db = (Inr u, db') \<Longrightarrow> unchanged_rows db db'"
  using get_current_user_Inr by (simp add: unchanged_rows_def)

lemma user_body_rows:
  assumes "user_body cx req u db = (Inr y, db')"
  shows "unchanged_rows db db'"
  using assms
proof (cases rule: user_body_cases)
  case read
  then show ?thesis by (simp add: unchanged_rows_refl)
next
  case new_key
  then show ?thesis
    by (auto simp: create_user_api_key_def Let_def split: sum.splits prod.splits dest: insert_rows)
next
  case revoked
  then show ?thesis by (auto simp: revoke_user_api_key_def unchanged_rows_def split: sum.splits option.splits)
next
  case new_org
  then show ?thesis by (rule create_organization_rows)
next
  case accepted
  then show ?thesis by (rule accept_invite_Inr) (auto simp: unchanged_rows_def dest: insert_rows)
qed

lemma serve_rows:
  assumes "serve cx req db r = (Inr y, db', r')"
  shows "unchanged_rows db db'"
  using assms
proof (cases rule: serve_cases)
  case login
  then show ?thesis by (rule google_login_rows)
next
  case refresh
  then show ?thesis
    by (rule refresh_access_token_Inr) (auto simp: unchanged_rows_def delete_token_def dest: issue_refresh_token_rows)
next
  case members
  then show ?thesis using get_current_user_rows by blast
next
  case (removal user db1 t target x)
  from removal(2) have "unchanged_rows db1 db'" by (rule remove_member_Inr) (simp add: unchanged_rows_def)
  with get_current_user_rows [OF removal(1)] show ?thesis by (rule unchanged_rows_trans)
next
  case (invitation user db1 t email ro x)
  from unchanged_rows_trans [OF get_current_user_rows [OF invitation(1)] insert_rows(4) [OF create_invite_Inr(1) [OF invitation(2)]]]
  show ?thesis .
next
  case (user_op user db1)
  from unchanged_rows_trans [OF get_current_user_rows [OF user_op(1)] user_body_rows [OF user_op(2)]] show ?thesis .
qed

lemma handle_rows: "handle cx req w = (x, w') \<Longrightarrow> unchanged_rows (fst w) (fst w')"
  by (erule handle_cases) (auto simp: unchanged_rows_refl intro: serve_rows)

subsection \<open>Requests on documents and workers leave the accounts alone\<close>

definition unchanged_accounts :: "database \<Rightarrow> database \<Rightarrow> bool" where
  "unchanged_accounts db db' \<longleftrightarrow> users db' = users db \<and> organizations db' = organizations db \<and>
     memberships db' = memberships db \<and> invites db' = invites db \<and> refresh_tokens db' = refresh_tokens db \<and>
     api_keys db' = api_keys db"

lemma accounts_wf_unchanged: "unchanged_accounts db db' \<Longrightarrow> accounts_wf db' = accounts_wf db"
  by (simp add: unchanged_accounts_def accounts_wf_def keys_wf_def keyed_defs referenced_def administered_def
      pending_unique_def pending_outside_def)

lemma insert_upload_accounts: "insert_upload env req db = Inr db' \<Longrightarrow> unchanged_accounts db db'"
  unfolding insert_upload_def unchanged_accounts_def
  by (auto simp: insert_document_def insert_job_def dest!: try_bind_InrD)

lemma upload_document_accounts:
  assumes "upload_document (alone env) req db bkt = (Inr r, db', bkt')"
  shows "unchanged_accounts db db'"
  using assms
proof (cases rule: upload_document_cases)
  case existing
  then show ?thesis by (simp add: unchanged_accounts_def)
next
  case created
  from insert_upload_accounts [OF created(2)] show ?thesis by (simp add: alone_def)
next
  case lost_race
  then show ?thesis by (simp add: unchanged_accounts_def alone_def)
qed

lemma soft_delete_accounts:
  "soft_delete_document now e did t db bkt = (x, db', bkt') \<Longrightarrow> unchanged_accounts db db'"
  by (auto simp: soft_delete_document_def Let_def unchanged_accounts_def split: sum.splits)

lemma dispatch_accounts:
  assumes "dispatch px req user tenant db bkt r g = (Inr x, w')"
  shows "unchanged_accounts db (pf_database w')"
proof (cases req)
  case (UploadDocument filename content content_type key)
  with assms show ?thesis
    by (auto simp: dispatch_def upload_endpoint_def split: prod.splits sum.splits dest: upload_document_accounts)
next
  case (DeleteDocument did)
  with assms show ?thesis
    by (auto simp: dispatch_def delete_endpoint_def split: prod.splits sum.splits dest: soft_delete_accounts)
qed (use assms in \<open>auto simp: dispatch_def unchanged_accounts_def split: prod.splits\<close>)

lemma handle_platform_accounts:
  assumes "accounts_wf (pf_database w)" and "handle_platform px req w = (x, w')"
  shows "accounts_wf (pf_database w')"
proof (cases x)
  case (Inl e)
  with assms show ?thesis by (auto simp: handle_platform_def split: prod.splits sum.splits)
next
  case (Inr y)
  let ?cx = "px_request px"
  from assms(2) Inr have "serve_platform px req w = (Inr y, w')"
    by (auto simp: handle_platform_def split: prod.splits sum.splits)
  then obtain user db1 tenant r1 where
    user: "get_current_user (cx_crypto ?cx) (cx_settings ?cx) (env_now (cx_env ?cx)) (cx_credentials ?cx) (pf_database w) =
      (Inr user, db1)"
    and body: "dispatch px req user tenant db1 (pf_bucket w) r1 (pf_gateway w) = (Inr y, w')"
    by (auto simp: serve_platform_def Let_def split: prod.splits sum.splits)
  from wf_get_current_user [OF assms(1) user] accounts_wf_unchanged [OF dispatch_accounts [OF body]] show ?thesis by simp
qed

subsection \<open>What workers do to the rows\<close>

definition job_key :: "job \<Rightarrow> uuid \<times> uuid \<times> uuid \<times> string" where
  "job_key j = (j_id j, j_document_id j, j_tenant_id j, j_idempotency_key j)"

definition document_key :: "document \<Rightarrow> uuid \<times> uuid \<times> string \<times> string \<times> string option" where
  "document_key d = (d_id d, d_tenant_id d, d_content_hash d, d_filename d, d_storage_key d)"

text \<open>The identifying fields of jobs and documents stay, and new chunks belong to their document's tenant.\<close>

definition keeps_keys :: "database \<Rightarrow> database \<Rightarrow> bool" where
  "keeps_keys db db' \<longleftrightarrow> map job_key (jobs db') = map job_key (jobs db) \<and>
     map document_key (documents db') = map document_key (documents db) \<and>
     (\<forall>c \<in> set (chunks db') - set (chunks db).
        (c_document_id c, c_tenant_id c) \<in> (\<lambda>d. (d_id d, d_tenant_id d)) ` set (documents db))"

lemma keeps_keys_images:
  assumes "keeps_keys db db'"
  shows "map (\<lambda>j. f (job_key j)) (jobs db') = map (\<lambda>j. f (job_key j)) (jobs db)"
    "map (\<lambda>d. g (document_key d)) (documents db') = map (\<lambda>d. g (document_key d)) (documents db)"
    "(\<lambda>j. f (job_key j)) ` set (jobs db') = (\<lambda>j. f (job_key j)) ` set (jobs db)"
    "(\<lambda>d. g (document_key d)) ` set (documents db') = (\<lambda>d. g (document_key d)) ` set (documents db)"
proof -
  show js: "map (\<lambda>j. f (job_key j)) (jobs db') = map (\<lambda>j. f (job_key j)) (jobs db)"
    using arg_cong [of _ _ "map f", OF conjunct1 [OF assms [unfolded keeps_keys_def]]] by (simp add: comp_def)
  show ds: "map (\<lambda>d. g (document_key d)) (documents db') = map (\<lambda>d. g (document_key d)) (documents db)"
    using arg_cong [of _ _ "map g", OF conjunct1 [OF conjunct2 [OF assms [unfolded keeps_keys_def]]]] by (simp add: comp_def)
  show "(\<lambda>j. f (job_key j)) ` set (jobs db') = (\<lambda>j. f (job_key j)) ` set (jobs db)"
    using arg_cong [OF js, of set] by simp
  show "(\<lambda>d. g (document_key d)) ` set (documents db') = (\<lambda>d. g (document_key d)) ` set (documents db)"
    using arg_cong [OF ds, of set] by simp
qed

lemma platform_wf_keeps_keys:
  assumes "platform_wf db" and "keeps_keys db db'"
  shows "platform_wf db'"
proof -
  note images = keeps_keys_images [OF assms(2)]
  have "documents_wf db'"
    using assms(1) images(1) [of "\<lambda>(i, d, t, k). i"] images(1) [of "\<lambda>(i, d, t, k). (t, k)"]
      images(2) [of "\<lambda>(i, t, h, f, s). i"] images(2) [of "\<lambda>(i, t, h, f, s). (t, h)"]
    by (simp add: platform_wf_def documents_wf_def document_ids.keyed_def document_hashes.keyed_def
        job_ids.keyed_def job_keys.keyed_def job_key_def document_key_def)
  moreover have "tenants_agree db'"
  proof -
    have docs: "(\<lambda>d. (d_id d, d_tenant_id d)) ` set (documents db') = (\<lambda>d. (d_id d, d_tenant_id d)) ` set (documents db)"
      using images(4) [of "\<lambda>(i, t, h, f, s). (i, t)"] by (simp add: document_key_def)
    have js: "(\<lambda>j. (j_document_id j, j_tenant_id j)) ` set (jobs db') = (\<lambda>j. (j_document_id j, j_tenant_id j)) ` set (jobs db)"
      using images(3) [of "\<lambda>(i, d, t, k). (d, t)"] by (simp add: job_key_def)
    have agree: "(\<lambda>j. (j_document_id j, j_tenant_id j)) ` set (jobs db) \<subseteq> (\<lambda>d. (d_id d, d_tenant_id d)) ` set (documents db)"
      "(\<lambda>c. (c_document_id c, c_tenant_id c)) ` set (chunks db) \<subseteq> (\<lambda>d. (d_id d, d_tenant_id d)) ` set (documents db)"
      using assms(1) unfolding platform_wf_def tenants_agree_iff by blast+
    have "(c_document_id c, c_tenant_id c) \<in> (\<lambda>d. (d_id d, d_tenant_id d)) ` set (documents db)"
      if "c \<in> set (chunks db')" for c
      using that agree(2) assms(2) unfolding keeps_keys_def by (cases "c \<in> set (chunks db)") blast+
    with agree(1) show ?thesis unfolding tenants_agree_iff docs js [symmetric] by blast
  qed
  moreover have "objects_named db'"
  proof -
    let ?named = "\<lambda>(i, t, h, f, s). s = None \<or> s = Some (upload_key t i f)"
    have iff: "objects_named e \<longleftrightarrow> False \<notin> (\<lambda>d. ?named (document_key d)) ` set (documents e)" for e
      by (auto simp: objects_named_def document_key_def)
    show ?thesis using assms(1) unfolding platform_wf_def iff images(4) [of ?named] by (rule conjunct2 [OF conjunct2])
  qed
  ultimately show ?thesis by (simp add: platform_wf_def)
qed

lemma keeps_keysI:
  assumes "jobs db' = map f (jobs db)" "\<And>j. job_key (f j) = job_key j"
    and "documents db' = map g (documents db)" "\<And>d. document_key (g d) = document_key d"
    and "\<forall>c \<in> set (chunks db') - set (chunks db).
        (c_document_id c, c_tenant_id c) \<in> (\<lambda>d. (d_id d, d_tenant_id d)) ` set (documents db)"
  shows "keeps_keys db db'"
  using assms by (simp add: keeps_keys_def)

lemma reset_keeps_keys: "keeps_keys db (reset_stale_claims timeout now db)"
  by (rule keeps_keysI [where f = "\<lambda>j. if stale_claim (now - minutes timeout) j then requeue j else j" and g = id])
     (simp_all add: reset_stale_claims_def update_where_def job_key_def requeue_def)

lemma keeps_keys_trans: "keeps_keys a b \<Longrightarrow> chunks b = chunks a \<Longrightarrow> keeps_keys b c \<Longrightarrow> keeps_keys a c"
  using keeps_keys_images(4) [of a b "\<lambda>(i, t, h, f, s). (i, t)"]
  by (simp add: keeps_keys_def document_key_def)

lemma claim_keeps_keys:
  assumes "job_ids.keyed db" and "claim_next_job timeout now tx_now locked worker_id db = (r, db')"
  shows "keeps_keys db db' \<and> unchanged_accounts db db' \<and>
    (\<forall>j. r = Some j \<longrightarrow> (\<exists>k \<in> set (jobs db'). job_key k = job_key j))"
  using assms(1)
proof (cases rule: claim_next_job_cases [where timeout = timeout and now = now and tx_now = tx_now
      and locked = locked and w = worker_id])
  case none
  with assms(2) have r: "r = None" and db': "db' = reset_stale_claims timeout now db" by simp_all
  have "unchanged_accounts db db'" by (simp add: db' unchanged_accounts_def reset_stale_claims_def)
  with reset_keeps_keys show ?thesis by (simp add: r db')
next
  case (claimed row)
  let ?db = "reset_stale_claims timeout now db"
  from claimed(2) assms(2) have r: "r = Some (claim worker_id tx_now row)" and
    db': "db' = ?db \<lparr>jobs := update_where (\<lambda>j. j_id j = j_id row) (claim worker_id tx_now) (jobs ?db)\<rparr>" by simp_all
  have step: "keeps_keys ?db db'"
    by (rule keeps_keysI [where f = "\<lambda>j. if j_id j = j_id row then claim worker_id tx_now j else j" and g = id])
       (simp_all add: db' update_where_def job_key_def claim_def)
  have "keeps_keys db db'"
    by (rule keeps_keys_trans [OF reset_keeps_keys _ step]) (simp add: reset_stale_claims_def)
  moreover have "unchanged_accounts db db'" by (simp add: db' unchanged_accounts_def reset_stale_claims_def)
  moreover have "claim worker_id tx_now row \<in> set (jobs db')"
    using next_job_Some(1) [OF claimed(1)] by (auto simp: db' set_update_where image_iff)
  ultimately show ?thesis using r by auto
qed

lemma mark_running_keeps_keys:
  "keeps_keys db (snd (mark_running job_id version now db)) \<and> unchanged_accounts db (snd (mark_running job_id version now db))"
proof -
  have "keeps_keys db (snd (mark_running job_id version now db))"
    by (rule keeps_keysI [where g = id and f = "\<lambda>j. if j_id j = job_id \<and> j_version j = version
         then j \<lparr>j_status := JobRunning, j_started_at := Some now, j_version := version + 1\<rparr> else j"])
       (simp_all add: mark_running_def Let_def update_where_def job_key_def)
  then show ?thesis by (simp add: mark_running_def Let_def unchanged_accounts_def)
qed

text \<open>A task that is held belongs to a job row.\<close>

definition task_held :: "database \<Rightarrow> task \<Rightarrow> bool" where
  "task_held db t \<longleftrightarrow> (t_job_id t, t_document_id t, t_tenant_id t) \<in>
     (\<lambda>j. (j_id j, j_document_id j, j_tenant_id j)) ` set (jobs db)"

lemma task_held_keeps_keys: "keeps_keys db db' \<Longrightarrow> task_held db' t = task_held db t"
  using keeps_keys_images(3) [of db db' "\<lambda>(i, d, u, k). (i, d, u)"] by (simp add: task_held_def job_key_def)

lemma commit_keeps_keys:
  assumes "platform_wf db" and "task_held db t" and "process_transaction env t db = Committed db'"
  shows "keeps_keys db db' \<and> unchanged_accounts db db'"
proof -
  let ?run = "snd (mark_running (t_job_id t) (t_version t) (app_now env) db)"
  from process_transaction_committed [OF assms(3)] obtain chs where
    complete: "complete_job (fresh_id env) (app_now env) (db_now env) (t_job_id t) (t_document_id t) chs
      (t_user_id t) (t_tenant_id t) ?run = Inr db'" by blast
  then obtain db1 where add: "add_chunks (fresh_id env) 0 (t_document_id t) (t_user_id t) (t_tenant_id t) (db_now env) chs ?run = Inr db1"
    and db': "db' = db1 \<lparr>documents := update_where (\<lambda>d. d_id d = t_document_id t)
                   (\<lambda>d. d \<lparr>d_status := DocReady, d_chunk_count := length chs, d_updated_at := app_now env\<rparr>) (documents db1),
                 jobs := update_where (\<lambda>j. j_id j = t_job_id t)
                   (\<lambda>j. j \<lparr>j_status := JobCompleted, j_completed_at := Some (app_now env)\<rparr>) (jobs db1)\<rparr>"
    unfolding complete_job_def by (auto dest!: try_bind_InrD)
  note db1 = add_chunks_Inr [OF add]
  have "task_held ?run t" using assms(2) task_held_keeps_keys [of db ?run t] mark_running_keeps_keys by blast
  then have owned: "(t_document_id t, t_tenant_id t) \<in> (\<lambda>j. (j_document_id j, j_tenant_id j)) ` set (jobs ?run)"
    unfolding task_held_def by auto
  have "platform_wf ?run" using platform_wf_keeps_keys [OF assms(1)] mark_running_keeps_keys by blast
  with owned have owned: "(t_document_id t, t_tenant_id t) \<in> (\<lambda>d. (d_id d, d_tenant_id d)) ` set (documents ?run)"
    unfolding platform_wf_def tenants_agree_iff by auto
  have "keeps_keys ?run db'"
  proof (rule keeps_keysI)
    show "jobs db' = map (\<lambda>j. if j_id j = t_job_id t
        then j \<lparr>j_status := JobCompleted, j_completed_at := Some (app_now env)\<rparr> else j) (jobs ?run)"
      by (simp add: db' db1 update_where_def)
    show "documents db' = map (\<lambda>d. if d_id d = t_document_id t
        then d \<lparr>d_status := DocReady, d_chunk_count := length chs, d_updated_at := app_now env\<rparr> else d) (documents ?run)"
      by (simp add: db' db1 update_where_def)
    show "\<forall>c \<in> set (chunks db') - set (chunks ?run).
        (c_document_id c, c_tenant_id c) \<in> (\<lambda>d. (d_id d, d_tenant_id d)) ` set (documents ?run)"
      using owned by (auto simp: db' db1 dest!: chunk_rows_fields(4))
  qed (simp_all add: job_key_def document_key_def)
  then have "keeps_keys db db'"
    using mark_running_keeps_keys by (intro keeps_keys_trans [of db ?run db']) (simp_all add: jobs_mark_running)
  moreover have "unchanged_accounts ?run db'" by (simp add: db' db1 unchanged_accounts_def)
  ultimately show ?thesis
    using mark_running_keeps_keys [of db "t_job_id t" "t_version t" "app_now env"] by (simp add: unchanged_accounts_def)
qed

lemma fail_keeps_keys:
  assumes "fail_transaction env t e db = Inr db'"
  shows "keeps_keys db db' \<and> unchanged_accounts db db'"
proof -
  note rows = fail_transaction_rows [OF assms]
  have "keeps_keys db db'"
    by (rule keeps_keysI [where f = "\<lambda>j. if j_id j = t_job_id t then failed_row e t j else j"
          and g = "\<lambda>d. if t_attempt_count t \<ge> t_max_attempts t \<and> d_id d = t_document_id t
            then d \<lparr>d_status := DocFailed, d_error_message := Some (exn_str e), d_updated_at := app_now env\<rparr> else d"])
       (auto simp: rows failed_row_def job_key_def document_key_def update_where_def)
  then show ?thesis
    using assms by (auto simp: fail_transaction_def fail_job_def Let_def unchanged_accounts_def split: if_splits)
qed

subsection \<open>The invariant\<close>

definition system_wf :: "deployment \<Rightarrow> bool" where
  "system_wf s \<longleftrightarrow> accounts_wf (pf_database (fst s)) \<and> platform_wf (pf_database (fst s)) \<and>
     (\<forall>t \<in> set (snd s). task_held (pf_database (fst s)) t)"

lemma task_held_unchanged: "unchanged_rows db db' \<Longrightarrow> task_held db' t = task_held db t"
  by (simp add: unchanged_rows_def task_held_def)

text \<open>A request on documents only adds jobs.\<close>

lemma dispatch_keeps_jobs:
  assumes "dispatch px req user tenant db bkt r g = (Inr x, w')"
  shows "set (jobs db) \<subseteq> set (jobs (pf_database w'))"
proof (cases req)
  case (UploadDocument filename content content_type key)
  have grows: "upload_document (alone env) req db bkt = (Inr d, db', bkt') \<Longrightarrow> set (jobs db) \<subseteq> set (jobs db')" for env req d db' bkt'
    by (erule upload_document_cases) (auto simp: alone_def dest: insert_upload_Inr(2))
  from UploadDocument assms show ?thesis
    by (auto simp: dispatch_def upload_endpoint_def split: prod.splits sum.splits dest!: grows)
next
  case (DeleteDocument did)
  have same: "soft_delete_document now e did t db bkt = (y, db', bkt') \<Longrightarrow> jobs db' = jobs db" for now e t y db' bkt'
    by (auto simp: soft_delete_document_def Let_def split: sum.splits)
  from DeleteDocument assms show ?thesis
    by (auto simp: dispatch_def delete_endpoint_def split: prod.splits sum.splits dest!: same)
qed (use assms in \<open>auto simp: dispatch_def split: prod.splits\<close>)

lemma handle_platform_task_held:
  assumes "handle_platform px req w = (x, w')" and "task_held (pf_database w) t"
  shows "task_held (pf_database w') t"
proof (cases x)
  case (Inl e)
  with assms show ?thesis by (auto simp: handle_platform_def split: prod.splits sum.splits)
next
  case (Inr y)
  with assms(1) obtain user db1 tenant r1 where
    user: "get_current_user (cx_crypto (px_request px)) (cx_settings (px_request px)) (env_now (cx_env (px_request px)))
      (cx_credentials (px_request px)) (pf_database w) = (Inr user, db1)"
    and body: "dispatch px req user tenant db1 (pf_bucket w) r1 (pf_gateway w) = (Inr y, w')"
    by (auto simp: handle_platform_def serve_platform_def Let_def split: prod.splits sum.splits)
  have "jobs db1 = jobs (pf_database w)" using get_current_user_rows [OF user] by (simp add: unchanged_rows_def)
  with dispatch_keeps_jobs [OF body] assms(2) show ?thesis by (auto simp: task_held_def)
qed

lemma handle_platform_wf:
  assumes "platform_wf (pf_database w)" and "handle_platform px req w = (x, w')"
  shows "platform_wf (pf_database w')"
proof (cases x)
  case (Inl e)
  with assms show ?thesis by (auto simp: handle_platform_def split: prod.splits sum.splits)
next
  case (Inr y)
  with assms show ?thesis by (auto elim: handle_platform_within)
qed

lemma with_simps [simp]:
  "pf_database (with_database w db) = db" "pf_database (with_accounts w a) = fst a"
  by (simp_all add: with_database_def with_accounts_def)

lemma system_wf_keeps:
  assumes "system_wf (w, ts)" and "keeps_keys (pf_database w) db'" and "unchanged_accounts (pf_database w) db'"
    and "set ts' \<subseteq> set ts \<union> {t. task_held db' t}"
  shows "system_wf (with_database w db', ts')"
  using assms platform_wf_keeps_keys [OF _ assms(2)] accounts_wf_unchanged [OF assms(3)] task_held_keeps_keys [OF assms(2)]
  by (auto simp: system_wf_def)

lemma system_wf_step:
  assumes "system_step s s'" and "system_wf s"
  shows "system_wf s'"
  using assms
proof (induction rule: system_step.induct)
  case (platform_request px req w x w' ts)
  then show ?case
    using handle_platform_accounts handle_platform_wf handle_platform_task_held by (auto simp: system_wf_def)
next
  case (account_request cx req w x a ts)
  have rows: "unchanged_rows (pf_database w) (fst a)" using handle_rows [OF account_request(1)] by simp
  then have "platform_wf (fst a) = platform_wf (pf_database w)"
    unfolding unchanged_rows_def by (intro rows_platform_wf) simp_all
  with account_request wf_handle [OF _ account_request(1)] task_held_unchanged [OF rows] show ?case
    by (simp add: system_wf_def)
next
  case (worker_claims timeout now tx_now locked worker_id w j db' ts)
  then have "job_ids.keyed (pf_database w)" by (simp add: system_wf_def platform_wf_def documents_wf_def)
  from claim_keeps_keys [OF this worker_claims(1)] obtain k where
    keeps: "keeps_keys (pf_database w) db'" "unchanged_accounts (pf_database w) db'"
    and k: "k \<in> set (jobs db')" "job_key k = job_key j" by auto
  have "task_held db' (task_of j)"
    unfolding task_held_def using k by (intro image_eqI [of _ _ k]) (simp_all add: task_of_def job_key_def)
  then show ?case by (intro system_wf_keeps [OF worker_claims(2) keeps]) auto
next
  case (worker_idles timeout now tx_now locked worker_id w db' ts)
  then have "job_ids.keyed (pf_database w)" by (simp add: system_wf_def platform_wf_def documents_wf_def)
  from claim_keeps_keys [OF this worker_idles(1)] show ?case
    by (intro system_wf_keeps [OF worker_idles(2)]) auto
next
  case (task_commits t ts env w db')
  then have "platform_wf (pf_database w)" "task_held (pf_database w) t" by (simp_all add: system_wf_def)
  from commit_keeps_keys [OF this task_commits(2)] show ?case
    by (intro system_wf_keeps [OF task_commits(3)]) (auto dest: notin_set_remove1 set_remove1_subset [THEN subsetD])
next
  case (task_fails t ts env e w db')
  then show ?case using fail_keeps_keys by (intro system_wf_keeps) (auto dest: set_remove1_subset [THEN subsetD])
next
  case (task_lost w ts t)
  then show ?case by (auto simp: system_wf_def dest: set_remove1_subset [THEN subsetD])
qed

interpretation whole: transition_invariant empty_system system_step system_wf
proof
  show "empty_system s \<Longrightarrow> system_wf s" for s
    by (simp add: empty_system_def no_accounts_def system_wf_def accounts_wf_def keys_wf_def keyed_defs referenced_def
        administered_def pending_unique_def pending_outside_def platform_wf_def documents_wf_def tenants_agree_def
        objects_named_def document_ids.keyed_def document_hashes.keyed_def job_ids.keyed_def job_keys.keyed_def)
  show "system_step s s' \<Longrightarrow> system_wf s \<Longrightarrow> system_wf s'" for s s' by (rule system_wf_step)
qed

subsection \<open>What the system promises\<close>

text \<open>
  Claim C2 (invariant): the whole system stays well-formed.  After any sequence of requests on
  accounts and on documents, each served as a whole before the next, and of steps of workers that
  claim, complete, fail or lose their tasks in between, from an empty database: every organization
  has an admin, memberships and invitations are consistent; document, job and content keys are
  unique; every job and every chunk belongs to the tenant of its document; the storage key of a
  document, where it has one, is made of its tenant, its id and its file name; and every task that a worker
  holds is that of a job.  (Requests that overlap can break this: \<open>admins_remove_each_other\<close>.)
\<close>

theorem system_stays_wf:
  assumes "empty_system s" and "system_step\<^sup>*\<^sup>* s s'"
  shows "let db = pf_database (fst s') in
    keys_wf db \<and> referenced db \<and> administered db \<and> pending_unique db \<and> pending_outside db \<and>
    documents_wf db \<and> tenants_agree db \<and> objects_named db \<and> list_all (task_held db) (snd s')"
  using whole.inv_reachable [OF assms]
  by (simp add: system_wf_def accounts_wf_def platform_wf_def list_all_iff Let_def)

abbreviation sample_platform :: "database \<Rightarrow> platform" where
  "sample_platform db \<equiv> \<lparr>pf_database = db, pf_bucket = (\<lambda>_. None), pf_redis = (\<lambda>_. None), pf_gateway = (new_gateway, 0)\<rparr>"

theorem system_stays_wf_witness:
  "\<exists>s'. system_step\<^sup>*\<^sup>* (sample_platform (sample_accounts [] [] [] [] [] []), []) s' \<and>
     users (pf_database (fst s')) = [sample_user 1 ''a@x.y''] \<and>
     (let db = pf_database (fst s') in
        keys_wf db \<and> referenced db \<and> administered db \<and> pending_unique db \<and> pending_outside db \<and>
        documents_wf db \<and> tenants_agree db \<and> objects_named db \<and> list_all (task_held db) (snd s'))"
proof -
  let ?w = "sample_platform (sample_accounts [] [] [] [] [] [])"
  obtain a where run: "handle (sample_cx (AccountInvariant.sample_env 1 ''r1'' 0) None) (GoogleLogin ''a@x.y'')
      (pf_database ?w, pf_redis ?w) = (Inr (Tokens (''eyJ'' @ uuid_str 1) ''r1''), a)"
    and us: "users (fst a) = [sample_user 1 ''a@x.y'']" using sample_login by auto
  have step: "system_step\<^sup>*\<^sup>* (?w, []) (with_accounts ?w a, [])" using system_step.account_request [OF run] by blast
  have "empty_system (?w, [])" by (simp add: empty_system_def no_accounts_def)
  note wf = system_stays_wf [OF this step]
  show ?thesis by (intro exI [of _ "(with_accounts ?w a, [])"] conjI step wf) (simp add: us)
qed

text \<open>
  Claim C3 (safety): a request stays within one tenant.  Every request on documents, chunks,
  jobs, searches or evaluations that returns acts for an organization of which its authenticated
  user is a member: its reply shows only rows of this tenant, it leaves the rows of all other
  tenants as they are and touches only objects under the tenant's prefix; for a viewer it changes
  no document, chunk, job or object at all.
\<close>

theorem request_stays_in_tenant:
  assumes "platform_wf (pf_database w)" and "handle_platform px req w = (Inr x, w')"
  shows "\<exists>user db1 m.
    get_current_user (cx_crypto (px_request px)) (cx_settings (px_request px)) (env_now (cx_env (px_request px)))
      (cx_credentials (px_request px)) (pf_database w) = (Inr user, db1) \<and>
    m \<in> set (memberships (pf_database w)) \<and> m_user_id m = u_id user \<and>
    reply_within (m_org_id m) (pf_database w') x \<and>
    foreign (m_org_id m) (pf_database w') = foreign (m_org_id m) (pf_database w) \<and>
    (\<forall>k. pf_bucket w' k \<noteq> pf_bucket w k \<longrightarrow> startswith k (uuid_str (m_org_id m))) \<and>
    (m_role m = Viewer \<longrightarrow> unchanged_rows (pf_database w) (pf_database w') \<and> pf_bucket w' = pf_bucket w)"
proof -
  from assms obtain user db1 m where
    "get_current_user (cx_crypto (px_request px)) (cx_settings (px_request px)) (env_now (cx_env (px_request px)))
       (cx_credentials (px_request px)) (pf_database w) = (Inr user, db1)"
    "m \<in> set (memberships (pf_database w))" "m_user_id m = u_id user"
    "foreign (m_org_id m) (pf_database w') = foreign (m_org_id m) (pf_database w)"
    "reply_within (m_org_id m) (pf_database w') x"
    "\<forall>k. pf_bucket w' k \<noteq> pf_bucket w k \<longrightarrow> startswith k (uuid_str (m_org_id m))"
    "m_role m = Viewer \<longrightarrow> unchanged_rows (pf_database w) (pf_database w') \<and> pf_bucket w' = pf_bucket w"
    by (rule handle_platform_within)
  then show ?thesis by (intro exI conjI)
qed

abbreviation sample_member :: "uuid \<Rightarrow> uuid \<Rightarrow> role \<Rightarrow> membership" where
  "sample_member uid t r \<equiv> \<lparr>m_id = 50, m_org_id = t, m_user_id = uid, m_role = r, m_created_at = 0\<rparr>"

abbreviation sample_rows :: "role \<Rightarrow> database" where
  "sample_rows r \<equiv> \<lparr>users = [sample_user 3 ''a@x.y''], api_keys = [], refresh_tokens = [], organizations = [],
     memberships = [sample_member 3 2 r], invites = [],
     documents = [Retrieval.sample_document 10 2, Retrieval.sample_document 11 4],
     chunks = [Retrieval.sample_chunk 20 11 4, Retrieval.sample_chunk 21 10 2], jobs = []\<rparr>"

lemma sample_request_runs:
  "handle_platform sample_px (GetDocument 10) (sample_platform (sample_rows Viewer)) =
     (Inr (OneDocument (document_response (Retrieval.sample_document 10 2))), sample_platform (sample_rows Viewer))"
proof -
  have "get_current_user sample_crypto sample_settings 0 (Some (''eyJ'' @ uuid_str 3)) (sample_rows Viewer) =
      (Inr (sample_user 3 ''a@x.y''), sample_rows Viewer)"
    using jwt_authenticates [of sample_crypto sample_settings 0 "sample_user 3 ''a@x.y''" 0 "sample_rows Viewer"]
      sample_tokens_decode
    by (simp add: seconds_def Auth.minutes_def user_ids.keyed_def create_access_token_def)
  then show ?thesis
    by (simp add: handle_platform_def serve_platform_def Let_def get_current_tenant_def resolve_membership_def
        order_by_asc_def is_allowed_def dispatch_def get_document_def)
qed

theorem request_stays_in_tenant_witness:
  "let w = sample_platform (sample_rows Viewer); x = OneDocument (document_response (Retrieval.sample_document 10 2))
   in handle_platform sample_px (GetDocument 10) w = (Inr x, w) \<and> reply_within 2 (pf_database w) x"
proof -
  let ?w = "sample_platform (sample_rows Viewer)"
  have "platform_wf (pf_database ?w)"
    by (simp add: platform_wf_def documents_wf_def tenants_agree_def objects_named_def document_ids.keyed_def
        document_hashes.keyed_def job_ids.keyed_def job_keys.keyed_def)
  from request_stays_in_tenant [OF this sample_request_runs] sample_request_runs show ?thesis by (simp add: Let_def)
qed

end
