(* ===== verification/SchemaPolicies.thy ===== *)
theory SchemaPolicies
  imports SchemaInserts WholeSystem Rls
begin

section \<open>Row-level security as the migrated schema declares it\<close>

text \<open>
  The policies of the catalog, evaluated for a session: a row of a table with row-level security is
  visible when some policy's \<open>USING\<close> holds for it, and may be written when some policy's
  \<open>WITH CHECK\<close> does.  On the schema at the last revision this is \<open>policy_allows\<close>, by which
  \<open>Retrieval\<close> and \<open>Rls\<close> filter the reads; and the writes of a request pass it.
\<close>

text \<open>\<open>current_setting\<close> of a variable that is not set is NULL, and a comparison with it is not true.\<close>

fun policy_holds :: "db_session \<Rightarrow> row \<Rightarrow> policy_expr \<Rightarrow> bool" where
  "policy_holds s r (IsCurrentTenant c) \<longleftrightarrow>
     (case app_current_tenant s of None \<Rightarrow> False | Some t \<Rightarrow> r c = Some (UuidValue t))"
| "policy_holds s r WorkerModeOn \<longleftrightarrow> app_worker_mode s"

definition row_passes :: "(policy \<Rightarrow> policy_expr) \<Rightarrow> catalog \<Rightarrow> db_session \<Rightarrow> string \<Rightarrow> row \<Rightarrow> bool" where
  "row_passes expr cat s n r \<longleftrightarrow> bypasses_rls s \<or>
     (case find_table n (cat_tables cat) of
        None \<Rightarrow> False
      | Some t \<Rightarrow> \<not> tb_rls t \<or> list_ex (\<lambda>p. policy_holds s r (expr p)) (tb_policies t))"

abbreviation "row_visible \<equiv> row_passes pol_using"
abbreviation "row_writable \<equiv> row_passes pol_check"

lemma head_table:
  assumes "(n, secured) \<in> set [(''documents'', True), (''chunks'', True), (''ingestion_jobs'', True), (''users'', False),
    (''api_keys'', False), (''refresh_tokens'', False), (''organizations'', False), (''org_memberships'', False),
    (''organization_invites'', False)]"
  shows "\<exists>t. find_table n (cat_tables head_schema) = Some t \<and> tb_rls t = secured \<and>
    tb_policies t = (if secured then [tenant_policy, worker_policy] else [])"
  using bspec [OF head_facts(5) [unfolded policies_installed_def list_all_iff] assms]
  by (cases "find_table n (cat_tables head_schema)") simp_all

lemma secured_row_passes:
  assumes "n \<in> {''documents'', ''chunks'', ''ingestion_jobs''}" and "r ''tenant_id'' = Some (UuidValue t)"
    and "expr = pol_using \<or> expr = pol_check"
  shows "row_passes expr head_schema s n r = policy_allows s t"
proof -
  from assms(1) obtain u where "find_table n (cat_tables head_schema) = Some u" "tb_rls u"
    "tb_policies u = [tenant_policy, worker_policy]"
    using head_table [of n True] by auto
  with assms(2,3) show ?thesis
    by (auto simp: row_passes_def policy_allows_def tenant_policy_def worker_policy_def split: option.splits)
qed

lemma open_row_passes:
  assumes "n \<in> {''users'', ''api_keys'', ''refresh_tokens'', ''organizations'', ''org_memberships'', ''organization_invites''}"
  shows "row_passes expr head_schema s n r"
  using assms head_table [of n False] by (auto simp: row_passes_def)

lemma row_tenants:
  "document_row d ''tenant_id'' = Some (UuidValue (d_tenant_id d))"
  "chunk_row_of c ''tenant_id'' = Some (UuidValue (c_tenant_id c))"
  "job_row j ''tenant_id'' = Some (UuidValue (j_tenant_id j))"
  by (simp_all add: document_row_def chunk_row_of_def job_row_def)

lemma row_policies:
  assumes "expr = pol_using \<or> expr = pol_check"
  shows "row_passes expr head_schema s ''documents'' (document_row d) = policy_allows s (d_tenant_id d)"
    "row_passes expr head_schema s ''chunks'' (chunk_row_of c) = policy_allows s (c_tenant_id c)"
    "row_passes expr head_schema s ''ingestion_jobs'' (job_row j) = policy_allows s (j_tenant_id j)"
  using assms by (simp_all add: secured_row_passes [OF _ _ assms] row_tenants)

text \<open>
  Claim C19 (equivalence): the filter of the model is the one of the migrated schema.  For every
  session a document, chunk or job is visible, and may be written, under the policies of the last
  revision exactly if \<open>policy_allows\<close> its tenant; so \<open>rls_view\<close> is what the session sees.  The rows
  of the six other tables are visible to and may be written by every session.
\<close>

theorem policies_follow_schema:
  "rls_view s db = db
     \<lparr>documents := filter (\<lambda>d. row_visible head_schema s ''documents'' (document_row d)) (documents db),
      chunks := filter (\<lambda>c. row_visible head_schema s ''chunks'' (chunk_row_of c)) (chunks db),
      jobs := filter (\<lambda>j. row_visible head_schema s ''ingestion_jobs'' (job_row j)) (jobs db)\<rparr> \<and>
   row_writable head_schema s ''documents'' (document_row d) = policy_allows s (d_tenant_id d) \<and>
   row_writable head_schema s ''chunks'' (chunk_row_of c) = policy_allows s (c_tenant_id c) \<and>
   row_writable head_schema s ''ingestion_jobs'' (job_row j) = policy_allows s (j_tenant_id j) \<and>
   list_all (\<lambda>n. row_visible head_schema s n r \<and> row_writable head_schema s n r)
     [''users'', ''api_keys'', ''refresh_tokens'', ''organizations'', ''org_memberships'', ''organization_invites'']"
  by (simp add: rls_view_def row_policies open_row_passes)

subsection \<open>The writes of a request\<close>

text \<open>Rows that are new or have changed must be writable, rows that were there before visible.\<close>

definition passes :: "db_session \<Rightarrow> string \<Rightarrow> ('r \<Rightarrow> row) \<Rightarrow> 'r list \<Rightarrow> 'r list \<Rightarrow> bool" where
  "passes s n f old new \<longleftrightarrow>
     (\<forall>r \<in> set new - set old. row_writable head_schema s n (f r)) \<and>
     (\<forall>r \<in> set old - set new. row_visible head_schema s n (f r))"

definition writes_pass :: "db_session \<Rightarrow> database \<Rightarrow> database \<Rightarrow> bool" where
  "writes_pass s db db' \<longleftrightarrow>
     passes s ''documents'' document_row (documents db) (documents db') \<and>
     passes s ''chunks'' chunk_row_of (chunks db) (chunks db') \<and>
     passes s ''ingestion_jobs'' job_row (jobs db) (jobs db')"

lemma passes_within:
  assumes "filter (\<lambda>r. tenant r \<noteq> t) new = filter (\<lambda>r. tenant r \<noteq> t) old"
    and "\<And>r expr. tenant r = t \<Longrightarrow> expr = pol_using \<or> expr = pol_check \<Longrightarrow> row_passes expr head_schema s n (f r)"
  shows "passes s n f old new"
proof -
  have "r \<in> set new \<longleftrightarrow> r \<in> set old" if "tenant r \<noteq> t" for r
    using arg_cong [OF assms(1), of set] that by auto
  with assms(2) show ?thesis unfolding passes_def by blast
qed

lemma foreign_writes_pass:
  assumes "foreign t db' = foreign t db"
  shows "writes_pass (set_tenant_context t s) db db'"
proof -
  have "policy_allows (set_tenant_context t s) t" by (simp add: policy_allows_def set_tenant_context_def)
  with assms show ?thesis
    unfolding writes_pass_def foreign_def by (intro conjI) (rule passes_within, simp, auto simp: row_policies)+
qed

text \<open>
  Claim C20 (safety): row-level security never stops the writes of a request.  Every row that a
  returning request on documents, jobs, searches or evaluations adds, changes or removes passes the
  policies of the migrated schema in a session for the tenant the request acts for, an organization
  of which its user is a member, whatever the database role.
\<close>

theorem request_writes_pass_rls:
  assumes "platform_wf (pf_database w)" and "handle_platform px req w = (Inr x, w')"
  shows "\<exists>user db1 m.
    get_current_user (cx_crypto (px_request px)) (cx_settings (px_request px)) (env_now (cx_env (px_request px)))
      (cx_credentials (px_request px)) (pf_database w) = (Inr user, db1) \<and>
    m \<in> set (memberships (pf_database w)) \<and> m_user_id m = u_id user \<and>
    (\<forall>s. writes_pass (set_tenant_context (m_org_id m) s) (pf_database w) (pf_database w'))"
proof -
  from assms obtain user db1 m where
    "get_current_user (cx_crypto (px_request px)) (cx_settings (px_request px)) (env_now (cx_env (px_request px)))
       (cx_credentials (px_request px)) (pf_database w) = (Inr user, db1)"
    "m \<in> set (memberships (pf_database w))" "m_user_id m = u_id user"
    and f: "foreign (m_org_id m) (pf_database w') = foreign (m_org_id m) (pf_database w)"
    by (rule handle_platform_within)
  with foreign_writes_pass [OF f] show ?thesis by blast
qed

theorem request_writes_pass_rls_witness:
  "\<exists>x w'. handle_platform sample_px (DeleteDocument 10) (sample_platform (sample_rows Admin)) = (Inr x, w') \<and>
     documents (pf_database w') \<noteq> documents (sample_rows Admin) \<and>
     writes_pass (set_tenant_context 2 (sample_session False)) (sample_rows Admin) (pf_database w')"
proof -
  let ?w = "sample_platform (sample_rows Admin)"
  have user: "get_current_user sample_crypto sample_settings 0 (Some (''eyJ'' @ uuid_str 3)) (sample_rows Admin) =
      (Inr (sample_user 3 ''a@x.y''), sample_rows Admin)"
    using jwt_authenticates [of sample_crypto sample_settings 0 "sample_user 3 ''a@x.y''" 0 "sample_rows Admin"]
      sample_tokens_decode
    by (simp add: seconds_def Auth.minutes_def user_ids.keyed_def create_access_token_def)
  then obtain x w' where run: "handle_platform sample_px (DeleteDocument 10) ?w = (Inr x, w')"
    and ds: "documents (pf_database w') \<noteq> documents (sample_rows Admin)"
    by (simp add: handle_platform_def serve_platform_def Let_def get_current_tenant_def resolve_membership_def
        order_by_asc_def is_allowed_def dispatch_def delete_endpoint_def require_role_def soft_delete_document_def get_document_def)
  have "platform_wf (pf_database ?w)"
    by (simp add: platform_wf_def documents_wf_def tenants_agree_def objects_named_def document_ids.keyed_def
        document_hashes.keyed_def job_ids.keyed_def job_keys.keyed_def)
  from request_writes_pass_rls [OF this run] run ds show ?thesis by auto
qed

end
