(* ===== verification/Requests.thy ===== *)
theory Requests
  imports Platform
begin

section \<open>Request bodies\<close>

text \<open>
  The request schemas of \<open>src/auth/schemas.py\<close>, \<open>src/tenants/schemas.py\<close>,
  \<open>src/retrieval/schemas.py\<close> and \<open>src/evaluation/schemas.py\<close>: from the JSON of a body to the arguments
  of the endpoint; \<open>None\<close> is pydantic's validation error, a status 422.  Parameters: which JSON
  values pydantic converts to an integer and to a UUID.  A string field takes strings only.
\<close>

record pydantic =
  as_int :: "json \<Rightarrow> int option"
  as_uuid :: "json \<Rightarrow> uuid option"

text \<open>A field of a JSON object; of several with one name Python keeps the last.\<close>

definition field :: "string \<Rightarrow> json \<Rightarrow> json option" where
  "field name body = (case body of JObj kvs \<Rightarrow> map_of (rev kvs) name | _ \<Rightarrow> None)"

fun as_str :: "json \<Rightarrow> string option" where
  "as_str (JStr s) = Some s"
| "as_str _ = None"

definition str_between :: "nat \<Rightarrow> nat \<Rightarrow> json \<Rightarrow> string option" where
  "str_between lo hi v = Option.bind (as_str v) (\<lambda>s. if lo \<le> length s \<and> length s \<le> hi then Some s else None)"

subsection \<open>Authentication\<close>

definition google_login_request :: "json \<Rightarrow> string option" where
  "google_login_request body = Option.bind (field ''credential'' body) as_str"

definition refresh_request :: "json \<Rightarrow> string option" where
  "refresh_request body = Option.bind (field ''refresh_token'' body) as_str"

definition create_api_key_request :: "json \<Rightarrow> string option" where
  "create_api_key_request body = Option.bind (field ''name'' body) (str_between 1 100)"

subsection \<open>Organizations\<close>

definition organization_create_request :: "json \<Rightarrow> (string \<times> string option) option" where
  "organization_create_request body =
     Option.bind (Option.bind (field ''name'' body) (str_between 1 255)) (\<lambda>name.
       case field ''slug'' body of
         None \<Rightarrow> Some (name, None)
       | Some JNull \<Rightarrow> Some (name, None)
       | Some v \<Rightarrow> map_option (\<lambda>slug. (name, Some slug)) (str_between 3 100 v))"

text \<open>The pattern \<open>^[^@]+@[^@]+\.[^@]+$\<close>.\<close>

definition email_matches :: "string \<Rightarrow> bool" where
  "email_matches s =
     (let user = takeWhile (\<lambda>c. c \<noteq> CHR ''@'') s
      in case dropWhile (\<lambda>c. c \<noteq> CHR ''@'') s of
           [] \<Rightarrow> False
         | _ # domain \<Rightarrow> user \<noteq> [] \<and> CHR ''@'' \<notin> set domain \<and> CHR ''.'' \<in> set (butlast (tl domain)))"

text \<open>The pattern \<open>^(admin|editor|viewer)$\<close>, which leaves three strings.\<close>

definition role_named :: "string \<Rightarrow> role option" where
  "role_named s = map_of [(''admin'', Admin), (''editor'', Editor), (''viewer'', Viewer)] s"

definition organization_invite_create_request :: "json \<Rightarrow> (string \<times> role) option" where
  "organization_invite_create_request body =
     Option.bind (Option.bind (field ''email'' body) as_str) (\<lambda>email.
       if \<not> email_matches email then None
       else case field ''role'' body of
              None \<Rightarrow> Some (email, Viewer)
            | Some v \<Rightarrow> map_option (Pair email) (Option.bind (as_str v) role_named))"

subsection \<open>Searches and evaluations\<close>

definition search_request :: "pydantic \<Rightarrow> json \<Rightarrow> (string \<times> nat) option" where
  "search_request py body =
     Option.bind (Option.bind (field ''query'' body) (str_between 1 2000)) (\<lambda>query.
       case field ''top_k'' body of
         None \<Rightarrow> Some (query, 5)
       | Some v \<Rightarrow> Option.bind (as_int py v) (\<lambda>k. if 1 \<le> k \<and> k \<le> 50 then Some (query, nat k) else None))"

definition relevance_request :: "pydantic \<Rightarrow> json \<Rightarrow> (string \<times> uuid list) option" where
  "relevance_request py body =
     Option.bind (Option.bind (field ''query'' body) (str_between 1 2000)) (\<lambda>query.
       case field ''chunk_ids'' body of
         Some (JArr vs) \<Rightarrow>
           if 1 \<le> length vs \<and> length vs \<le> 20 then map_option (Pair query) (those (map (as_uuid py) vs)) else None
       | _ \<Rightarrow> None)"

subsection \<open>What a validated body satisfies\<close>

lemma str_between_Some: "str_between lo hi v = Some s \<longleftrightarrow> v = JStr s \<and> lo \<le> length s \<and> length s \<le> hi"
  by (cases v) (auto simp: str_between_def)

lemma email_matches_iff:
  "email_matches s \<longleftrightarrow> (\<exists>user host top. s = user @ CHR ''@'' # host @ CHR ''.'' # top \<and> user \<noteq> [] \<and> host \<noteq> [] \<and> top \<noteq> [] \<and>
     CHR ''@'' \<notin> set user \<and> CHR ''@'' \<notin> set host \<and> CHR ''@'' \<notin> set top)"
proof
  assume m: "email_matches s"
  let ?user = "takeWhile (\<lambda>c. c \<noteq> CHR ''@'') s"
  from m obtain c domain where d: "dropWhile (\<lambda>c. c \<noteq> CHR ''@'') s = c # domain"
    and u: "?user \<noteq> []" "CHR ''@'' \<notin> set domain" "CHR ''.'' \<in> set (butlast (tl domain))"
    by (auto simp: email_matches_def Let_def split: list.splits)
  have "c = CHR ''@''" using hd_dropWhile [of "\<lambda>c. c \<noteq> CHR ''@''" s] d by simp
  with d have s: "s = ?user @ CHR ''@'' # domain" using takeWhile_dropWhile_id [of "\<lambda>c. c \<noteq> CHR ''@''" s] by simp
  from u(3) obtain as bs where ab: "butlast (tl domain) = as @ CHR ''.'' # bs" by (meson split_list)
  then have t: "tl domain \<noteq> []" "domain \<noteq> []" by auto
  then have "domain = (hd domain # as) @ CHR ''.'' # (bs @ [last (tl domain)])"
    using ab append_butlast_last_id [OF t(1)] by (simp add: list.expand)
  then obtain host top where domain: "domain = host @ CHR ''.'' # top" "host \<noteq> []" "top \<noteq> []"
    by (metis append_is_Nil_conv list.distinct(1))
  have "CHR ''@'' \<notin> set ?user" by (auto dest: set_takeWhileD)
  with s u(1,2) domain show "\<exists>user host top. s = user @ CHR ''@'' # host @ CHR ''.'' # top \<and> user \<noteq> [] \<and> host \<noteq> [] \<and> top \<noteq> [] \<and>
     CHR ''@'' \<notin> set user \<and> CHR ''@'' \<notin> set host \<and> CHR ''@'' \<notin> set top"
    by (intro exI [of _ ?user] exI [of _ host] exI [of _ top]) auto
next
  assume "\<exists>user host top. s = user @ CHR ''@'' # host @ CHR ''.'' # top \<and> user \<noteq> [] \<and> host \<noteq> [] \<and> top \<noteq> [] \<and>
     CHR ''@'' \<notin> set user \<and> CHR ''@'' \<notin> set host \<and> CHR ''@'' \<notin> set top"
  then obtain user host top where s: "s = user @ CHR ''@'' # host @ CHR ''.'' # top"
    and ne: "user \<noteq> []" "host \<noteq> []" "top \<noteq> []"
    and no: "CHR ''@'' \<notin> set user" "CHR ''@'' \<notin> set host" "CHR ''@'' \<notin> set top" by blast
  have "takeWhile (\<lambda>c. c \<noteq> CHR ''@'') s = user" "dropWhile (\<lambda>c. c \<noteq> CHR ''@'') s = CHR ''@'' # host @ CHR ''.'' # top"
    using no(1) unfolding s by (auto simp: takeWhile_append dropWhile_append)
  moreover have "CHR ''.'' \<in> set (butlast (tl (host @ CHR ''.'' # top)))"
    using ne(2,3) by (cases host) (simp_all add: butlast_append)
  ultimately show "email_matches s" using ne no by (simp add: email_matches_def)
qed

end
