(* ===== verification/Http.thy ===== *)
theory Http
  imports Requests WholeSystem
begin

section \<open>Routes and responses\<close>

text \<open>
  The application that \<open>create_app\<close> of \<open>src/main.py\<close> puts together: the health endpoints and the
  routers of \<open>src/auth/routes.py\<close>, \<open>src/tenants/routes.py\<close>, \<open>src/documents/routes.py\<close>,
  \<open>src/ingestion/routes.py\<close>, \<open>src/retrieval/routes.py\<close> and \<open>src/evaluation/routes.py\<close> under the API prefix,
  from a request line, headers and a body to a status and a body; with them the pages of FastAPI
  (\<open>/docs\<close>, \<open>/redoc\<close>, \<open>/openapi.json\<close>), the mounted metrics and the preflight requests that the CORS
  middleware answers.  The framework matches the routes in order, parses the body where the endpoint
  takes one, resolves the dependencies of the endpoint (user, tenant), then validates its arguments,
  then calls it.  Whether the session of a request that fails its validation is committed depends on the
  release of FastAPI and is a parameter, as is the status with which the metrics are served.
\<close>

subsection \<open>Requests and routes\<close>

datatype http_method = GET | POST | DELETE | Other string

datatype segment = Lit string | Param string

text \<open>A body that is no JSON, and one that cannot be read for another reason (its encoding, a broken form).\<close>

datatype unreadable = No_Json | Not_Parsed

record raw_request =
  rq_method :: http_method
  rq_path :: "string list"
  rq_query :: "(string \<times> string) list"
  rq_idempotency_key :: "string option"
  rq_json :: "json option"
  rq_file :: "(string \<times> string option \<times> bytes) option"
  rq_unreadable :: "unreadable option"
  rq_origin :: "string option"
  rq_asks_method :: "string option"

datatype api_request =
    DocsPage
  | HealthShallow
  | HealthReady
  | AccountRequest account_request
  | PlatformRequest platform_request

type_synonym decoder = "pydantic \<Rightarrow> raw_request \<Rightarrow> (string \<times> string) list \<Rightarrow> api_request option"

text \<open>Does the endpoint, or its router, depend on \<open>get_current_user\<close>, and on \<open>get_current_tenant\<close>?\<close>

record route =
  rt_method :: http_method
  rt_path :: "segment list"
  rt_user :: bool
  rt_tenant :: bool
  rt_status :: nat
  rt_body :: bool
  rt_decode :: decoder

definition no_body :: "api_request \<Rightarrow> decoder" where
  "no_body req py rq ps = Some req"

definition json_body :: "(pydantic \<Rightarrow> json \<Rightarrow> 'a option) \<Rightarrow> ('a \<Rightarrow> api_request) \<Rightarrow> decoder" where
  "json_body f g py rq ps = map_option g (Option.bind (rq_json rq) (f py))"

definition uuid_param :: "string \<Rightarrow> (uuid \<Rightarrow> api_request) \<Rightarrow> decoder" where
  "uuid_param name g py rq ps = Option.bind (map_of ps name) (\<lambda>s. map_option g (as_uuid py (JStr s)))"

text \<open>\<open>cursor: str | None = None, limit: int = 20\<close>\<close>

definition page_params :: "pydantic \<Rightarrow> raw_request \<Rightarrow> (string option \<times> int) option" where
  "page_params py rq =
     (case map_of (rev (rq_query rq)) ''limit'' of
        None \<Rightarrow> Some (map_of (rev (rq_query rq)) ''cursor'', 20)
      | Some s \<Rightarrow> map_option (Pair (map_of (rev (rq_query rq)) ''cursor'')) (as_int py (JStr s)))"

definition paged :: "(string option \<Rightarrow> int \<Rightarrow> api_request) \<Rightarrow> decoder" where
  "paged g py rq ps = map_option (\<lambda>(cursor, limit). g cursor limit) (page_params py rq)"

definition uuid_paged :: "string \<Rightarrow> (uuid \<Rightarrow> string option \<Rightarrow> int \<Rightarrow> api_request) \<Rightarrow> decoder" where
  "uuid_paged name g py rq ps =
     Option.bind (map_of ps name) (\<lambda>s. Option.bind (as_uuid py (JStr s)) (\<lambda>u. paged (g u) py rq ps))"

definition upload_form :: decoder where
  "upload_form py rq ps =
     (case (rq_file rq, rq_idempotency_key rq) of
        (Some (filename, content_type, content), Some key) \<Rightarrow>
          Some (PlatformRequest (UploadDocument filename content content_type key))
      | _ \<Rightarrow> None)"

definition route :: "http_method \<Rightarrow> segment list \<Rightarrow> nat \<Rightarrow> decoder \<Rightarrow> route" where
  "route m p status d = \<lparr>rt_method = m, rt_path = p, rt_user = False, rt_tenant = False, rt_status = status,
     rt_body = False, rt_decode = d\<rparr>"

definition user_route :: "http_method \<Rightarrow> segment list \<Rightarrow> nat \<Rightarrow> decoder \<Rightarrow> route" where
  "user_route m p status d = (route m p status d)\<lparr>rt_user := True\<rparr>"

definition tenant_route :: "http_method \<Rightarrow> segment list \<Rightarrow> nat \<Rightarrow> decoder \<Rightarrow> route" where
  "tenant_route m p status d = (route m p status d)\<lparr>rt_user := True, rt_tenant := True\<rparr>"

definition with_body :: "route \<Rightarrow> route" where
  "with_body r = r \<lparr>rt_body := True\<rparr>"

subsection \<open>The routers\<close>

definition auth_routes :: "route list" where
  "auth_routes =
    [with_body (route POST [Lit ''auth'', Lit ''google-login''] 200 (json_body (\<lambda>_. google_login_request) (AccountRequest \<circ> GoogleLogin))),
     with_body (route POST [Lit ''auth'', Lit ''refresh''] 200 (json_body (\<lambda>_. refresh_request) (AccountRequest \<circ> Refresh))),
     user_route GET [Lit ''auth'', Lit ''me''] 200 (no_body (AccountRequest GetMe)),
     with_body (user_route POST [Lit ''auth'', Lit ''api-keys''] 201 (json_body (\<lambda>_. create_api_key_request) (AccountRequest \<circ> CreateApiKey))),
     user_route GET [Lit ''auth'', Lit ''api-keys''] 200 (no_body (AccountRequest ListApiKeys)),
     user_route DELETE [Lit ''auth'', Lit ''api-keys'', Param ''key_id''] 204 (uuid_param ''key_id'' (AccountRequest \<circ> RevokeApiKey))]"

definition organization_routes :: "route list" where
  "organization_routes =
    [with_body (user_route POST [Lit ''organizations''] 201
       (json_body (\<lambda>_. organization_create_request) (\<lambda>(name, slug). AccountRequest (CreateOrganization name slug)))),
     user_route GET [Lit ''organizations''] 200 (no_body (AccountRequest ListOrganizations)),
     tenant_route GET [Lit ''organizations'', Lit ''members''] 200 (no_body (AccountRequest ListMembers)),
     tenant_route DELETE [Lit ''organizations'', Lit ''members'', Param ''user_id_to_remove''] 204
       (uuid_param ''user_id_to_remove'' (AccountRequest \<circ> RemoveMember)),
     with_body (tenant_route POST [Lit ''organizations'', Lit ''invites''] 201
       (json_body (\<lambda>_. organization_invite_create_request) (\<lambda>(email, r). AccountRequest (CreateInvite email r)))),
     user_route GET [Lit ''organizations'', Lit ''invites'', Lit ''pending''] 200 (no_body (AccountRequest ListPendingInvites)),
     user_route POST [Lit ''organizations'', Lit ''invites'', Param ''invite_id'', Lit ''accept''] 200
       (uuid_param ''invite_id'' (AccountRequest \<circ> AcceptInvite))]"

definition document_routes :: "route list" where
  "document_routes =
    [with_body (tenant_route POST [Lit ''documents''] 201 upload_form),
     tenant_route GET [Lit ''documents''] 200 (paged (\<lambda>cursor limit. PlatformRequest (ListDocuments cursor limit))),
     tenant_route GET [Lit ''documents'', Param ''document_id''] 200 (uuid_param ''document_id'' (PlatformRequest \<circ> GetDocument)),
     tenant_route GET [Lit ''documents'', Param ''document_id'', Lit ''chunks''] 200
       (uuid_paged ''document_id'' (\<lambda>d cursor limit. PlatformRequest (ListChunks d cursor limit))),
     tenant_route DELETE [Lit ''documents'', Param ''document_id''] 204 (uuid_param ''document_id'' (PlatformRequest \<circ> DeleteDocument))]"

definition job_routes :: "route list" where
  "job_routes =
    [tenant_route GET [Lit ''jobs''] 200 (paged (\<lambda>cursor limit. PlatformRequest (ListJobs cursor limit))),
     tenant_route GET [Lit ''jobs'', Param ''job_id''] 200 (uuid_param ''job_id'' (PlatformRequest \<circ> GetJob)),
     tenant_route GET [Lit ''jobs'', Lit ''document'', Param ''document_id''] 200
       (uuid_param ''document_id'' (PlatformRequest \<circ> ListJobsForDocument))]"

definition search_routes :: "route list" where
  "search_routes =
    [with_body (tenant_route POST [Lit ''search''] 200 (json_body search_request (\<lambda>(query, k). PlatformRequest (HybridSearch query k)))),
     with_body (tenant_route POST [Lit ''search'', Lit ''semantic''] 200
       (json_body search_request (\<lambda>(query, k). PlatformRequest (SemanticSearch query k)))),
     with_body (tenant_route POST [Lit ''search'', Lit ''keyword''] 200
       (json_body search_request (\<lambda>(query, k). PlatformRequest (KeywordSearch query k))))]"

definition evaluation_routes :: "route list" where
  "evaluation_routes =
    [with_body (tenant_route POST [Lit ''evaluate'', Lit ''relevance''] 200
       (json_body relevance_request (\<lambda>(query, cids). PlatformRequest (EvaluateRelevance query cids))))]"

definition health_routes :: "route list" where
  "health_routes =
    [route GET [Lit ''health''] 200 (no_body HealthShallow),
     route GET [Lit ''health'', Lit ''ready''] 200 (no_body HealthReady)]"

text \<open>The pages that FastAPI adds when it is constructed, before all other routes.\<close>

definition page_routes :: "route list" where
  "page_routes =
     [route m p 200 (no_body DocsPage).
      p \<leftarrow> [[Lit ''openapi.json''], [Lit ''docs''], [Lit ''docs'', Lit ''oauth2-redirect''], [Lit ''redoc'']],
      m \<leftarrow> [GET, Other ''HEAD'']]"

text \<open>\<open>include_router(router, prefix=..., dependencies=...)\<close>\<close>

definition include_router :: "string list \<Rightarrow> bool \<Rightarrow> route list \<Rightarrow> route list" where
  "include_router api_prefix auth_dep rs =
     map (\<lambda>r. r \<lparr>rt_path := map Lit api_prefix @ rt_path r, rt_user := auth_dep \<or> rt_user r\<rparr>) rs"

definition app_routes :: "string list \<Rightarrow> route list" where
  "app_routes api_prefix =
     page_routes @ health_routes @
     include_router api_prefix False auth_routes @
     concat (map (include_router api_prefix True)
       [organization_routes, document_routes, job_routes, search_routes, evaluation_routes])"

subsection \<open>Matching\<close>

fun match_path :: "segment list \<Rightarrow> string list \<Rightarrow> (string \<times> string) list option" where
  "match_path [] [] = Some []"
| "match_path (Lit l # ps) (s # ss) = (if s = l then match_path ps ss else None)"
| "match_path (Param p # ps) (s # ss) = (if s \<noteq> '''' then map_option (Cons (p, s)) (match_path ps ss) else None)"
| "match_path _ _ = None"

datatype matched = Found_Route route "(string \<times> string) list" | Wrong_Method | No_Route

fun find_route :: "route list \<Rightarrow> http_method \<Rightarrow> string list \<Rightarrow> matched" where
  "find_route [] m path = No_Route"
| "find_route (r # rs) m path =
     (case match_path (rt_path r) path of
        None \<Rightarrow> find_route rs m path
      | Some ps \<Rightarrow>
          if rt_method r = m then Found_Route r ps
          else (case find_route rs m path of No_Route \<Rightarrow> Wrong_Method | x \<Rightarrow> x))"

subsection \<open>Serving a request\<close>

datatype http_body =
    AccountReply reply
  | PlatformReply platform_reply
  | HealthBody string "(string \<times> string) list"
  | ErrorBody string string
  | ValidationErrors
  | ParsingError
  | RoutingError
  | FrameworkPage
  | PreflightReply

record http_response =
  rs_status :: nat
  rs_body :: http_body

definition error_of :: "exn \<Rightarrow> http_response" where
  "error_of e = (let r = handle_exn e in \<lparr>rs_status = resp_status r, rs_body = ErrorBody (resp_code r) (resp_message r)\<rparr>)"

definition respond :: "nat \<Rightarrow> ('a \<Rightarrow> http_body) \<Rightarrow> (exn, 'a) outcome \<Rightarrow> http_response" where
  "respond status f x = (case x of Inl e \<Rightarrow> error_of e | Inr y \<Rightarrow> \<lparr>rs_status = status, rs_body = f y\<rparr>)"

definition health_ready :: "(exn, unit) outcome \<Rightarrow> http_response" where
  "health_ready select_1 =
     (let checks = [(''database'', case select_1 of Inr _ \<Rightarrow> ''ok'' | Inl e \<Rightarrow> ''error: '' @ exn_str e)];
          overall = (if list_all (\<lambda>(_, v). v = ''ok'') checks then ''ok'' else ''degraded'')
      in \<lparr>rs_status = (if overall = ''ok'' then 200 else 503), rs_body = HealthBody overall checks\<rparr>)"

record http_context =
  hx_platform :: platform_context
  hx_pydantic :: pydantic
  hx_select_1 :: "(exn, unit) outcome"
  hx_commits_rejected :: bool
  hx_cors_origins :: "string list"
  hx_metrics_status :: "http_method \<Rightarrow> nat"

definition authenticate :: "http_context \<Rightarrow> database \<Rightarrow> (exn, user) outcome \<times> database" where
  "authenticate hx db =
     (let cx = px_request (hx_platform hx)
      in get_current_user (cx_crypto cx) (cx_settings cx) (env_now (cx_env cx)) (cx_credentials cx) db)"

definition rejected :: "http_response" where
  "rejected = \<lparr>rs_status = 422, rs_body = ValidationErrors\<rparr>"

text \<open>A request whose arguments are not valid: its dependencies are resolved before that is reported.\<close>

definition reject :: "http_context \<Rightarrow> route \<Rightarrow> platform \<Rightarrow> http_response \<times> platform" where
  "reject hx r w =
     (let cx = px_request (hx_platform hx);
          commit = (\<lambda>db. if hx_commits_rejected hx then db else pf_database w)
      in if \<not> rt_user r then (rejected, w)
         else case authenticate hx (pf_database w) of
                (Inl e, _) \<Rightarrow> (error_of e, w)
              | (Inr user, db1) \<Rightarrow>
                  if \<not> rt_tenant r then (rejected, w \<lparr>pf_database := commit db1\<rparr>)
                  else (case get_current_tenant (cx_limits cx) (cx_outage cx) (env_now (cx_env cx)) (cx_tenant_header cx) user
                               db1 (pf_redis w) of
                          (Inl e, r1) \<Rightarrow> (error_of e, w \<lparr>pf_redis := r1\<rparr>)
                        | (Inr _, r1) \<Rightarrow> (rejected, w \<lparr>pf_redis := r1, pf_database := commit db1\<rparr>)))"

definition serve_api :: "http_context \<Rightarrow> nat \<Rightarrow> api_request \<Rightarrow> platform \<Rightarrow> http_response \<times> platform" where
  "serve_api hx status req w =
     (case req of
        DocsPage \<Rightarrow> (\<lparr>rs_status = status, rs_body = FrameworkPage\<rparr>, w)
      | HealthShallow \<Rightarrow> (\<lparr>rs_status = status, rs_body = HealthBody ''ok'' []\<rparr>, w)
      | HealthReady \<Rightarrow> (health_ready (hx_select_1 hx), w)
      | AccountRequest a \<Rightarrow>
          (case handle (px_request (hx_platform hx)) a (pf_database w, pf_redis w) of
             (x, acc) \<Rightarrow> (respond status AccountReply x, with_accounts w acc))
      | PlatformRequest p \<Rightarrow>
          (case handle_platform (hx_platform hx) p w of
             (x, w1) \<Rightarrow> (respond status PlatformReply x, w1)))"

text \<open>
  \<open>CORSMiddleware\<close> with all methods and headers allowed: a preflight request is answered before the
  routes are looked at, according to its origin and the method it asks for.
\<close>

definition is_preflight :: "raw_request \<Rightarrow> bool" where
  "is_preflight rq \<longleftrightarrow> rq_method rq = Other ''OPTIONS'' \<and> rq_origin rq \<noteq> None \<and> rq_asks_method rq \<noteq> None"

definition cors_methods :: "string list" where
  "cors_methods = [''DELETE'', ''GET'', ''HEAD'', ''OPTIONS'', ''PATCH'', ''POST'', ''PUT'']"

definition preflight :: "http_context \<Rightarrow> raw_request \<Rightarrow> http_response" where
  "preflight hx rq =
     \<lparr>rs_status = (if (''*'' \<in> set (hx_cors_origins hx) \<or> the (rq_origin rq) \<in> set (hx_cors_origins hx)) \<and>
                     the (rq_asks_method rq) \<in> set cors_methods then 200 else 400),
      rs_body = PreflightReply\<rparr>"

text \<open>\<open>app.mount("/metrics", ...)\<close>: every path below it, for all methods, after the routes.\<close>

fun mounted :: "string list \<Rightarrow> bool" where
  "mounted (s # _ # _) \<longleftrightarrow> s = ''metrics''"
| "mounted _ \<longleftrightarrow> False"

text \<open>\<open>redirect_slashes\<close>: a path that differs from a served one by slashes at its end.\<close>

definition other_slash :: "string list \<Rightarrow> string list" where
  "other_slash path =
     (if path \<noteq> [] \<and> last path = '''' then rev (dropWhile (\<lambda>s. s = '''') (rev path)) else path @ [''''])"

definition path_served :: "route list \<Rightarrow> string list \<Rightarrow> bool" where
  "path_served routes path \<longleftrightarrow>
     path \<noteq> [''''] \<and> (mounted (other_slash path) \<or> list_ex (\<lambda>r. match_path (rt_path r) (other_slash path) \<noteq> None) routes)"

definition serve_found :: "http_context \<Rightarrow> route \<Rightarrow> (string \<times> string) list \<Rightarrow> raw_request \<Rightarrow> platform \<Rightarrow> http_response \<times> platform" where
  "serve_found hx r ps rq w =
     (case (if rt_body r then rq_unreadable rq else None) of
        Some No_Json \<Rightarrow> (rejected, w)
      | Some Not_Parsed \<Rightarrow> (\<lparr>rs_status = 400, rs_body = ParsingError\<rparr>, w)
      | None \<Rightarrow>
          (case rt_decode r (hx_pydantic hx) rq ps of
             Some req \<Rightarrow> serve_api hx (rt_status r) req w
           | None \<Rightarrow> reject hx r w))"

definition serve_unfound :: "http_context \<Rightarrow> route list \<Rightarrow> bool \<Rightarrow> raw_request \<Rightarrow> http_response" where
  "serve_unfound hx routes wrong_method rq =
     (if mounted (rq_path rq) then \<lparr>rs_status = hx_metrics_status hx (rq_method rq), rs_body = FrameworkPage\<rparr>
      else \<lparr>rs_status = (if wrong_method then 405 else if path_served routes (rq_path rq) then 307 else 404),
            rs_body = RoutingError\<rparr>)"

definition serve_http :: "http_context \<Rightarrow> route list \<Rightarrow> raw_request \<Rightarrow> platform \<Rightarrow> http_response \<times> platform" where
  "serve_http hx routes rq w =
     (if is_preflight rq then (preflight hx rq, w)
      else case find_route routes (rq_method rq) (rq_path rq) of
        No_Route \<Rightarrow> (serve_unfound hx routes False rq, w)
      | Wrong_Method \<Rightarrow> (serve_unfound hx routes True rq, w)
      | Found_Route r ps \<Rightarrow> serve_found hx r ps rq w)"

subsection \<open>Every endpoint is reached\<close>

text \<open>Two templates that some path matches both.\<close>

fun overlap :: "segment list \<Rightarrow> segment list \<Rightarrow> bool" where
  "overlap [] [] \<longleftrightarrow> True"
| "overlap (Lit a # p) (Lit b # q) \<longleftrightarrow> a = b \<and> overlap p q"
| "overlap (_ # p) (_ # q) \<longleftrightarrow> overlap p q"
| "overlap _ _ \<longleftrightarrow> False"

lemma match_overlap: "match_path p s = Some x \<Longrightarrow> match_path q s = Some y \<Longrightarrow> overlap p q"
proof (induction p arbitrary: q s x y)
  case Nil
  then show ?case by (cases s; cases q; cases "hd q") auto
next
  case (Cons a p)
  then show ?case by (cases s; cases q; cases a; cases "hd q") (auto split: if_splits)
qed

lemma overlap_Nil [simp]: "overlap [] p \<longleftrightarrow> p = []"
  by (cases p) simp_all

lemma overlap_prefix: "overlap (map Lit pre @ p) (map Lit pre @ q) = overlap p q"
  by (induction pre) simp_all

definition routes_apart :: "route \<Rightarrow> route \<Rightarrow> bool" where
  "routes_apart r q \<longleftrightarrow> \<not> (rt_method r = rt_method q \<and> overlap (rt_path r) (rt_path q))"

lemma find_route_unique:
  assumes "sorted_wrt routes_apart rs" and "r \<in> set rs" and "match_path (rt_path r) path = Some ps"
  shows "find_route rs (rt_method r) path = Found_Route r ps"
  using assms(1,2)
proof (induction rs)
  case (Cons q rs)
  show ?case
  proof (cases "match_path (rt_path q) path")
    case None
    with Cons assms(3) show ?thesis by auto
  next
    case (Some qs)
    have "q = r \<or> rt_method q \<noteq> rt_method r"
      using Cons.prems match_overlap [OF Some assms(3)] by (auto simp: routes_apart_def)
    then show ?thesis using Cons Some assms(3) by auto
  qed
qed simp

text \<open>The routers behind \<open>auth_dep\<close>, and all of the API.\<close>

definition member_routes :: "route list" where
  "member_routes = organization_routes @ document_routes @ job_routes @ search_routes @ evaluation_routes"

definition api_routes :: "route list" where
  "api_routes = auth_routes @ member_routes"

lemma app_routes_eq:
  "app_routes api_prefix =
     (page_routes @ health_routes) @ include_router api_prefix False auth_routes @ include_router api_prefix True member_routes"
  by (simp add: app_routes_def member_routes_def include_router_def)

lemmas router_defs = auth_routes_def organization_routes_def document_routes_def job_routes_def search_routes_def
  evaluation_routes_def route_def user_route_def tenant_route_def with_body_def

lemma api_routes_apart: "sorted_wrt routes_apart api_routes"
  by code_simp

lemma routers_start:
  "q \<in> set api_routes \<Longrightarrow>
     \<exists>l ps. rt_path q = Lit l # ps \<and> l \<notin> {''health'', ''ready'', ''openapi.json'', ''docs'', ''oauth2-redirect'', ''redoc''}"
  by (auto simp: api_routes_def member_routes_def router_defs)

lemmas own_routes = page_routes_def health_routes_def route_def

lemma own_literals:
  "list_all (\<lambda>h. \<exists>ws. rt_path h = map Lit ws \<and>
       list_all (\<lambda>w. w \<in> {''health'', ''ready'', ''openapi.json'', ''docs'', ''oauth2-redirect'', ''redoc''}) ws)
     (page_routes @ health_routes)"
  by (simp add: own_routes map_eq_Cons_conv eq_commute [of _ "map Lit _"])

lemma overlap_literals: "overlap (map Lit ws) (map Lit pre @ Lit l # ps) \<Longrightarrow> l \<in> set ws"
proof (induction ws arbitrary: pre)
  case Nil
  then show ?case by (cases pre) auto
next
  case (Cons w ws)
  then show ?case by (cases pre) auto
qed

lemma health_apart:
  assumes "h \<in> set (page_routes @ health_routes)" and "q \<in> set api_routes"
  shows "\<not> overlap (rt_path h) (map Lit api_prefix @ rt_path q)"
proof
  assume overlap: "overlap (rt_path h) (map Lit api_prefix @ rt_path q)"
  from routers_start [OF assms(2)] obtain l ps where q: "rt_path q = Lit l # ps"
    "l \<notin> {''health'', ''ready'', ''openapi.json'', ''docs'', ''oauth2-redirect'', ''redoc''}" by (elim exE conjE)
  from own_literals [unfolded list_all_iff, rule_format, OF assms(1)] obtain ws where h: "rt_path h = map Lit ws"
    "\<forall>w \<in> set ws. w \<in> {''health'', ''ready'', ''openapi.json'', ''docs'', ''oauth2-redirect'', ''redoc''}"
    by (elim exE conjE)
  from overlap [unfolded q(1) h(1)] have "l \<in> set ws" by (rule overlap_literals)
  with h(2) have "l \<in> {''health'', ''ready'', ''openapi.json'', ''docs'', ''oauth2-redirect'', ''redoc''}" by (rule bspec)
  with q(2) show False by (rule notE)
qed

lemma app_routes_apart: "sorted_wrt routes_apart (app_routes api_prefix)"
proof -
  let ?inc = "\<lambda>r. r \<lparr>rt_path := map Lit api_prefix @ rt_path r\<rparr>"
  have user: "routes_apart (r \<lparr>rt_user := b\<rparr>) q = routes_apart r q" "routes_apart r (q \<lparr>rt_user := b\<rparr>) = routes_apart r q" for b r q
    by (simp_all add: routes_apart_def)
  have inc: "routes_apart (?inc r) (?inc q) = routes_apart r q" for r q
    by (simp add: routes_apart_def overlap_prefix)
  have parts: "sorted_wrt routes_apart auth_routes" "sorted_wrt routes_apart member_routes"
    "\<forall>r \<in> set auth_routes. \<forall>q \<in> set member_routes. routes_apart r q"
    using api_routes_apart unfolding api_routes_def sorted_wrt_append by blast+
  have health: "sorted_wrt routes_apart (page_routes @ health_routes)"
    by (simp add: own_routes routes_apart_def)
  have cross: "routes_apart h (?inc q)" if "h \<in> set (page_routes @ health_routes)" "q \<in> set api_routes" for h q
    using health_apart [OF that] by (simp add: routes_apart_def)
  show ?thesis
    unfolding app_routes_eq include_router_def sorted_wrt_append [of _ "page_routes @ health_routes"] sorted_wrt_map
    using parts health cross by (auto simp: user inc api_routes_def sorted_wrt_append sorted_wrt_map)
qed

text \<open>
  Claim C24 (functional): no endpoint hides another.  For any API prefix, a path that matches the
  template of a route, with any values for its parameters, is served by this route for its method,
  wherever the router that holds it is included.
\<close>

theorem routes_unambiguous:
  assumes "r \<in> set (app_routes api_prefix)" and "match_path (rt_path r) path = Some ps"
  shows "find_route (app_routes api_prefix) (rt_method r) path = Found_Route r ps"
  by (rule find_route_unique [OF app_routes_apart assms])

abbreviation default_prefix :: "string list" where
  "default_prefix \<equiv> [''api'', ''v1'']"

theorem routes_unambiguous_witness:
  "\<exists>r. find_route (app_routes default_prefix) GET [''api'', ''v1'', ''jobs'', ''document'', ''10''] =
         Found_Route r [(''document_id'', ''10'')] \<and>
       rt_path r = [Lit ''api'', Lit ''v1'', Lit ''jobs'', Lit ''document'', Param ''document_id'']"
proof -
  let ?r = "tenant_route GET [Lit ''api'', Lit ''v1'', Lit ''jobs'', Lit ''document'', Param ''document_id''] 200
    (uuid_param ''document_id'' (PlatformRequest \<circ> ListJobsForDocument))"
  have "?r \<in> set (app_routes default_prefix)"
    by (simp add: app_routes_def include_router_def job_routes_def tenant_route_def route_def)
  from routes_unambiguous [OF this, of "[''api'', ''v1'', ''jobs'', ''document'', ''10'']"] show ?thesis
    by (simp add: tenant_route_def route_def)
qed

subsection \<open>Requests without a user\<close>

fun needs_user :: "api_request \<Rightarrow> bool" where
  "needs_user DocsPage = False"
| "needs_user HealthShallow = False"
| "needs_user HealthReady = False"
| "needs_user (AccountRequest (GoogleLogin _)) = False"
| "needs_user (AccountRequest (Refresh _)) = False"
| "needs_user _ = True"

definition public_paths :: "string list \<Rightarrow> (http_method \<times> string list) set" where
  "public_paths api_prefix =
     {GET, Other ''HEAD''} \<times> {[''openapi.json''], [''docs''], [''docs'', ''oauth2-redirect''], [''redoc'']} \<union>
     {(GET, [''health'']), (GET, [''health'', ''ready'']), (POST, api_prefix @ [''auth'', ''google-login'']),
      (POST, api_prefix @ [''auth'', ''refresh''])}"

lemma find_route_sound:
  "find_route rs m path = Found_Route r ps \<Longrightarrow> r \<in> set rs \<and> rt_method r = m \<and> match_path (rt_path r) path = Some ps"
  by (induction rs) (auto split: option.splits if_splits matched.splits)

fun segment_text :: "segment \<Rightarrow> string" where
  "segment_text (Lit s) = s"
| "segment_text (Param p) = p"

lemma own_public:
  "list_all (\<lambda>r. rt_path r = map Lit (map segment_text (rt_path r)) \<and>
       (rt_method r, map segment_text (rt_path r)) \<in> public_paths api_prefix)
     (page_routes @ health_routes @ include_router api_prefix False (take 2 auth_routes))"
  by (simp add: own_routes include_router_def auth_routes_def with_body_def public_paths_def comp_def)

lemma match_literals: "match_path (map Lit xs) path = Some ps \<Longrightarrow> path = xs"
proof (induction xs arbitrary: path ps)
  case Nil
  then show ?case by (cases path) auto
next
  case (Cons x xs)
  then show ?case by (cases path) (auto split: if_splits)
qed

text \<open>A decoder that only yields requests behind \<open>get_current_user\<close>.\<close>

definition guarded :: "decoder \<Rightarrow> bool" where
  "guarded d \<longleftrightarrow> (\<forall>py rq ps req. d py rq ps = Some req \<longrightarrow> needs_user req)"

lemma guarded_decoders:
  "needs_user req \<Longrightarrow> guarded (no_body req)"
  "(\<And>x. needs_user (g x)) \<Longrightarrow> guarded (json_body f g)"
  "(\<And>x. needs_user (h x)) \<Longrightarrow> guarded (uuid_param name h)"
  "(\<And>x y. needs_user (k x y)) \<Longrightarrow> guarded (paged k)"
  "(\<And>x y z. needs_user (l x y z)) \<Longrightarrow> guarded (uuid_paged name l)"
  "guarded upload_form"
  by (auto simp: guarded_def no_body_def json_body_def uuid_param_def paged_def uuid_paged_def upload_form_def
      split: option.splits bind_splits)

definition user_routes :: "route list" where
  "user_routes = drop 2 auth_routes"

lemma guarded_routes:
  "list_all (\<lambda>r. guarded (rt_decode r) \<and> rt_user r) user_routes"
  "list_all (\<lambda>r. guarded (rt_decode r)) member_routes"
  by (auto simp: user_routes_def member_routes_def router_defs intro!: guarded_decoders split: prod.splits)

lemma public_route:
  assumes "r \<in> set (app_routes api_prefix)" and "match_path (rt_path r) path = Some ps"
    and "(rt_method r, path) \<notin> public_paths api_prefix"
  shows "rt_user r \<and> guarded (rt_decode r)"
proof -
  have "r \<notin> set (page_routes @ health_routes @ include_router api_prefix False (take 2 auth_routes))"
  proof
    assume "r \<in> set (page_routes @ health_routes @ include_router api_prefix False (take 2 auth_routes))"
    with own_public [of api_prefix] obtain ws where "rt_path r = map Lit ws" "(rt_method r, ws) \<in> public_paths api_prefix"
      unfolding list_all_iff by blast
    with match_literals [of ws path ps] assms(2,3) show False by simp
  qed
  moreover have "include_router p b (take 2 auth_routes) @ include_router p b user_routes = include_router p b auth_routes" for p b
    unfolding include_router_def user_routes_def by (simp flip: map_append)
  ultimately have "r \<in> set (include_router api_prefix False user_routes) \<or> r \<in> set (include_router api_prefix True member_routes)"
    using assms(1) unfolding app_routes_eq by (metis Un_iff set_append)
  then show ?thesis using guarded_routes by (auto simp: include_router_def list_all_iff)
qed

lemma handle_unauthenticated:
  assumes "get_current_user (cx_crypto cx) (cx_settings cx) (env_now (cx_env cx)) (cx_credentials cx) db = (Inl e, db1)"
    and "needs_user (AccountRequest a)"
  shows "handle cx a (db, r) = (Inl e, db, r)"
  using assms by (cases a) (simp_all add: handle_def serve_def as_user_def as_member_def)

lemma handle_platform_unauthenticated:
  assumes "authenticate hx (pf_database w) = (Inl e, db1)"
  shows "handle_platform (hx_platform hx) p w = (Inl e, w)"
  using assms by (simp add: authenticate_def handle_platform_def serve_platform_def Let_def)

lemma serve_found_refused:
  assumes auth: "authenticate hx (pf_database w) = (Inl e, db1)" and guard: "rt_user r" "guarded (rt_decode r)"
    and readable: "(if rt_body r then rq_unreadable rq else None) = None"
  shows "serve_found hx r ps rq w = (error_of e, w)"
proof (cases "rt_decode r (hx_pydantic hx) rq ps")
  case None
  with readable auth guard(1) show ?thesis by (simp add: serve_found_def reject_def Let_def)
next
  case (Some req)
  with guard(2) have "needs_user req" by (auto simp: guarded_def)
  then have "serve_api hx (rt_status r) req w = (error_of e, w)"
    using handle_unauthenticated [OF auth [unfolded authenticate_def Let_def]] handle_platform_unauthenticated [OF auth]
    by (cases req) (simp_all add: serve_api_def respond_def with_accounts_def)
  with readable Some show ?thesis by (simp add: serve_found_def)
qed

text \<open>
  Claim C23 (safety): without a valid credential nothing but the login, the health endpoints and the
  framework's own pages can be reached.  A request for any path but the login, the refresh, the health
  endpoints and FastAPI's documentation, whose credentials are missing or do not authenticate a user, leaves the
  database, the bucket, Redis and the gateway as they were.  It is answered with the authentication
  error; or it is a preflight request, for the CORS middleware; or it is for a path below
  \<open>/metrics\<close>; or its body could not be parsed (400 or 422, before authentication); or there is no such
  endpoint (404, 405 or a redirection).
\<close>

theorem unauthenticated_refused:
  assumes auth: "authenticate hx (pf_database w) = (Inl e, db1)"
    and serve: "serve_http hx (app_routes api_prefix) rq w = (rs, w')"
    and path: "(rq_method rq, rq_path rq) \<notin> public_paths api_prefix"
  shows "w' = w \<and>
    (rs = error_of e \<or> rs_body rs = PreflightReply \<and> is_preflight rq \<or> rs_body rs = FrameworkPage \<and> mounted (rq_path rq) \<or>
     rs_status rs \<in> {400, 422} \<and> rs_body rs \<in> {ParsingError, ValidationErrors} \<and> rq_unreadable rq \<noteq> None \<or>
     rs_status rs \<in> {307, 404, 405} \<and> rs_body rs = RoutingError)"
proof (cases "is_preflight rq")
  case True
  with serve show ?thesis by (auto simp: serve_http_def preflight_def)
next
  case False
  note no_preflight = False
  show ?thesis
  proof (cases "find_route (app_routes api_prefix) (rq_method rq) (rq_path rq)")
    case (Found_Route r ps)
    from find_route_sound [OF this] have r: "r \<in> set (app_routes api_prefix)" "rt_method r = rq_method rq"
      "match_path (rt_path r) (rq_path rq) = Some ps" by auto
    from public_route [OF r(1,3)] r(2) path have guard: "rt_user r" "guarded (rt_decode r)" by simp_all
    from Found_Route serve no_preflight have found: "serve_found hx r ps rq w = (rs, w')" by (simp add: serve_http_def)
    show ?thesis
    proof (cases "if rt_body r then rq_unreadable rq else None")
      case None
      with serve_found_refused [OF auth guard] found show ?thesis by simp
    next
      case (Some u)
      then have "rq_unreadable rq \<noteq> None" by (auto split: if_splits)
      with Some found show ?thesis by (cases u) (auto simp: serve_found_def rejected_def)
    qed
  qed (use serve no_preflight in \<open>auto simp: serve_http_def serve_unfound_def split: if_splits\<close>)
qed

abbreviation sample_hx :: http_context where
  "sample_hx \<equiv> \<lparr>hx_platform = sample_px \<lparr>px_request := (px_request sample_px)\<lparr>cx_credentials := None\<rparr>\<rparr>,
     hx_pydantic = \<lparr>as_int = (\<lambda>v. case v of JInt n \<Rightarrow> Some n | _ \<Rightarrow> None), as_uuid = (\<lambda>v. case v of JStr s \<Rightarrow> parse_uuid s | _ \<Rightarrow> None)\<rparr>,
     hx_select_1 = Inr (), hx_commits_rejected = False, hx_cors_origins = [''http://localhost:3000''],
     hx_metrics_status = (\<lambda>_. 200)\<rparr>"

abbreviation sample_rq :: raw_request where
  "sample_rq \<equiv> \<lparr>rq_method = GET, rq_path = [''api'', ''v1'', ''documents''], rq_query = [(''limit'', ''5'')],
     rq_idempotency_key = None, rq_json = None, rq_file = None, rq_unreadable = None, rq_origin = None, rq_asks_method = None\<rparr>"

theorem unauthenticated_refused_witness:
  "serve_http sample_hx (app_routes default_prefix) sample_rq (sample_platform (sample_rows Viewer)) =
     (\<lparr>rs_status = 401, rs_body = ErrorBody ''AUTHENTICATION_FAILED'' ''Missing authorization header.''\<rparr>,
      sample_platform (sample_rows Viewer))"
proof -
  let ?w = "sample_platform (sample_rows Viewer)" and ?e = "App (AuthenticationError ''Missing authorization header.'')"
  obtain rs w' where serve: "serve_http sample_hx (app_routes default_prefix) sample_rq ?w = (rs, w')" by fastforce
  have auth: "authenticate sample_hx (pf_database ?w) = (Inl ?e, sample_rows Viewer)"
    by (simp add: authenticate_def get_current_user_def)
  let ?r = "tenant_route GET [Lit ''api'', Lit ''v1'', Lit ''documents''] 200
    (paged (\<lambda>cursor limit. PlatformRequest (ListDocuments cursor limit)))"
  have "?r \<in> set (app_routes default_prefix)"
    by (simp add: app_routes_def include_router_def document_routes_def tenant_route_def route_def)
  from find_route_unique [OF app_routes_apart this, of "[''api'', ''v1'', ''documents'']"]
  have "find_route (app_routes default_prefix) GET [''api'', ''v1'', ''documents''] = Found_Route ?r []"
    by (simp add: tenant_route_def route_def)
  moreover have "reject sample_hx ?r ?w = (error_of ?e, ?w)"
    using auth by (simp add: reject_def tenant_route_def route_def Let_def)
  moreover have "paged (\<lambda>cursor limit. PlatformRequest (ListDocuments cursor limit)) (hx_pydantic sample_hx) sample_rq [] = None"
    by (simp add: paged_def page_params_def)
  ultimately have "serve_http sample_hx (app_routes default_prefix) sample_rq ?w = (error_of ?e, ?w)"
    by (simp add: serve_http_def serve_found_def is_preflight_def tenant_route_def route_def)
  with serve have "rs_body rs \<notin> {RoutingError, ParsingError, ValidationErrors, PreflightReply, FrameworkPage}"
    by (simp add: error_of_def Let_def)
  with unauthenticated_refused [OF auth serve] serve show ?thesis
    by (simp add: public_paths_def error_of_def handle_exn_def handle_app_error_def)
qed

subsection \<open>Values that pass the validation\<close>

text \<open>The bounds of the schemas are those of the columns, but for the address of an invitation.\<close>

lemma validated_bodies_fit:
  "create_api_key_request body = Some name \<Longrightarrow> storable_text name \<Longrightarrow> fits 100 name"
  "organization_create_request body = Some (org_name, slug) \<Longrightarrow> storable_text org_name \<Longrightarrow> fits 255 org_name"
  "organization_create_request body = Some (org_name, Some s) \<Longrightarrow> storable_text s \<Longrightarrow> fits 100 s"
  by (auto simp: create_api_key_request_def organization_create_request_def str_between_Some fits_def storable_text_def
      split: Option.bind_splits option.splits json.splits)

text \<open>
  A request that the routes, the validation and the dependencies let through is answered with the
  reply of its endpoint.
\<close>

lemma serve_http_account:
  assumes "r \<in> set (app_routes api_prefix)" and "match_path (rt_path r) (rq_path rq) = Some ps"
    and "rq_method rq = rt_method r" and "\<not> is_preflight rq" and "rq_unreadable rq = None"
    and "rt_decode r (hx_pydantic hx) rq ps = Some (AccountRequest a)"
    and "handle (px_request (hx_platform hx)) a (pf_database w, pf_redis w) = (x, acc)"
  shows "serve_http hx (app_routes api_prefix) rq w = (respond (rt_status r) AccountReply x, with_accounts w acc)"
  using find_route_unique [OF app_routes_apart assms(1,2)] assms(3-7)
  by (simp add: serve_http_def serve_found_def serve_api_def)

lemma create_invite_refused:
  assumes "255 < length email" and "member_check org_id email db = Inr ()"
    and "filter (pending_for org_id email) (invites db) = []"
  shows "create_invite token_hash new_id now tx_now org_id email r inviter_id db = (Inl DataError, db)"
  using assms by (simp add: create_invite_def insert_invite_def checked_insert_def fits_def)

text \<open>
  Claim C40 (error): an invitation to a long address is a server error.  The schema bounds the name of
  an organization and of a key, but not the address: when an admin, who authenticates, is resolved as
  a member and stays below the rate limit, posts a body that the schema accepts and whose address
  is longer than 255 characters, not only by spaces at its end, and there is neither a member nor a
  pending invitation with this address, then the application answers with status 500 and an
  unexpected error, and stores nothing.
\<close>

theorem long_invite_fails:
  assumes cx: "cx = px_request (hx_platform hx)"
    and email: "organization_invite_create_request body = Some (email, r)" "255 < length email"
      "\<not> list_all (\<lambda>c. c = CHR '' '') (drop 255 email)"
    and user: "authenticate hx (pf_database w) = (Inr user, db1)"
    and tenant: "get_current_tenant (cx_limits cx) (cx_outage cx) (env_now (cx_env cx)) (cx_tenant_header cx) user db1
        (pf_redis w) = (Inr tenant, r1)" "tc_role tenant = Admin"
    and fresh: "member_check (tc_org_id tenant) email db1 = Inr ()"
      "filter (pending_for (tc_org_id tenant) email) (invites db1) = []"
    and rq: "rq_method rq = POST" "rq_path rq = api_prefix @ [''organizations'', ''invites'']" "rq_json rq = Some body"
      "rq_unreadable rq = None"
  shows "serve_http hx (app_routes api_prefix) rq w =
    (\<lparr>rs_status = 500, rs_body = ErrorBody ''INTERNAL_ERROR'' ''An unexpected error occurred.''\<rparr>, w \<lparr>pf_redis := r1\<rparr>)"
proof -
  let ?r = "with_body (tenant_route POST (map Lit api_prefix @ [Lit ''organizations'', Lit ''invites'']) 201
    (json_body (\<lambda>_. organization_invite_create_request) (\<lambda>(email, r). AccountRequest (CreateInvite email r))))"
  have route: "?r \<in> set (app_routes api_prefix)"
    by (simp add: app_routes_def include_router_def organization_routes_def tenant_route_def route_def with_body_def)
  have path: "match_path (rt_path ?r) (rq_path rq) = Some []"
    unfolding rq(2) by (induction api_prefix) (simp_all add: with_body_def tenant_route_def route_def)
  have "as_member cx (create_invite_body cx email r) (pf_database w) (pf_redis w) = (Inl DataError, db1, r1)"
    using user tenant create_invite_refused [OF email(2) fresh]
    by (simp add: authenticate_def Let_def as_member_def create_invite_body_def require_role_def reply_with_def cx)
  then have "handle cx (CreateInvite email r) (pf_database w, pf_redis w) = (Inl DataError, pf_database w, r1)"
    by (simp add: handle_def serve_def)
  from serve_http_account [OF route path _ _ rq(4) _ this [unfolded cx]] show ?thesis
    using rq email(1)
    by (simp add: is_preflight_def with_body_def tenant_route_def route_def json_body_def respond_def with_accounts_def
        error_of_def handle_exn_def handle_unexpected_error_def)
qed

theorem long_invite_fails_witness:
  "\<exists>rq rs. serve_http (sample_hx \<lparr>hx_platform := sample_px\<rparr>) (app_routes default_prefix) rq (sample_platform (sample_rows Admin)) =
     (rs, sample_platform (sample_rows Admin)) \<and> rs_status rs = 500"
proof -
  let ?email = "''a@'' @ replicate 300 (CHR ''b'') @ ''.c''" and ?w = "sample_platform (sample_rows Admin)"
  let ?body = "JObj [(''email'', JStr ?email)]"
  let ?hx = "sample_hx \<lparr>hx_platform := sample_px\<rparr>"
  let ?rq = "sample_rq \<lparr>rq_method := POST, rq_path := default_prefix @ [''organizations'', ''invites''], rq_json := Some ?body\<rparr>"
  have "email_matches ?email"
    unfolding email_matches_iff
    by (intro exI [of _ "''a''"] exI [of _ "replicate 300 (CHR ''b'')"] exI [of _ "''c''"]) simp
  then have email: "organization_invite_create_request ?body = Some (?email, Viewer)" "255 < length ?email"
    "\<not> list_all (\<lambda>c. c = CHR '' '') (drop 255 ?email)"
    by (simp_all add: organization_invite_create_request_def field_def)
  have user: "authenticate ?hx (pf_database ?w) = (Inr (sample_user 3 ''a@x.y''), sample_rows Admin)"
    using jwt_authenticates [of sample_crypto sample_settings 0 "sample_user 3 ''a@x.y''" 0 "sample_rows Admin"]
      sample_tokens_decode
    by (simp add: authenticate_def Let_def seconds_def Auth.minutes_def user_ids.keyed_def create_access_token_def)
  let ?cx = "px_request (hx_platform ?hx)" and ?tenant = "\<lparr>tc_org_id = 2, tc_role = Admin\<rparr>"
  have tenant: "get_current_tenant (cx_limits ?cx) (cx_outage ?cx) (env_now (cx_env ?cx)) (cx_tenant_header ?cx)
      (sample_user 3 ''a@x.y'') (sample_rows Admin) (pf_redis ?w) = (Inr ?tenant, pf_redis ?w)" "tc_role ?tenant = Admin"
    by (simp_all add: get_current_tenant_def resolve_membership_def order_by_asc_def is_allowed_def)
  have fresh: "member_check (tc_org_id ?tenant) ?email (sample_rows Admin) = Inr ()"
    "filter (pending_for (tc_org_id ?tenant) ?email) (invites (sample_rows Admin)) = []"
    by (simp_all add: member_check_def)
  have rq: "rq_method ?rq = POST" "rq_path ?rq = default_prefix @ [''organizations'', ''invites'']" "rq_json ?rq = Some ?body"
    "rq_unreadable ?rq = None"
    by simp_all
  from long_invite_fails [OF refl email user tenant fresh rq] show ?thesis
    by (intro exI [of _ ?rq]) simp
qed

end
