(* ===== verification/Responses.thy ===== *)
theory Responses
  imports AccountClaims Http
begin

section \<open>Response bodies\<close>

text \<open>
  The response models of \<open>src/auth/schemas.py\<close>, \<open>src/tenants/schemas.py\<close>, \<open>src/documents/schemas.py\<close>,
  \<open>src/documents/chunk_schemas.py\<close>, \<open>src/ingestion/schemas.py\<close>, \<open>src/ingestion/job_schemas.py\<close>,
  \<open>src/retrieval/schemas.py\<close> and \<open>src/evaluation/schemas.py\<close> as the JSON they become.  The text of a
  time is a parameter.  A membership or an invitation is shown with its organization, which the
  session has loaded with it; without one, pydantic refuses the response.
\<close>

definition juuid :: "uuid \<Rightarrow> json" where
  "juuid u = JStr (uuid_str u)"

definition jnat :: "nat \<Rightarrow> json" where
  "jnat n = JInt (int n)"

definition jopt :: "('a \<Rightarrow> json) \<Rightarrow> 'a option \<Rightarrow> json" where
  "jopt f x = (case x of None \<Rightarrow> JNull | Some y \<Rightarrow> f y)"

subsection \<open>Accounts and organizations\<close>

definition user_json :: "(timestamp \<Rightarrow> string) \<Rightarrow> user \<Rightarrow> json" where
  "user_json fmt u =
     JObj [(''id'', juuid (u_id u)), (''email'', JStr (u_email u)), (''is_active'', JBool (u_is_active u)),
           (''created_at'', JStr (fmt (u_created_at u)))]"

definition token_json :: "string \<Rightarrow> string \<Rightarrow> json" where
  "token_json access refresh =
     JObj [(''access_token'', JStr access), (''refresh_token'', JStr refresh), (''token_type'', JStr ''bearer'')]"

definition api_key_created_json :: "(timestamp \<Rightarrow> string) \<Rightarrow> string \<Rightarrow> api_key \<Rightarrow> json" where
  "api_key_created_json fmt full_key k =
     JObj [(''key'', JStr full_key), (''id'', juuid (k_id k)), (''name'', JStr (k_name k)),
           (''prefix'', JStr (k_key_prefix k)), (''created_at'', JStr (fmt (k_created_at k)))]"

definition api_key_json :: "(timestamp \<Rightarrow> string) \<Rightarrow> api_key \<Rightarrow> json" where
  "api_key_json fmt k =
     JObj [(''id'', juuid (k_id k)), (''name'', JStr (k_name k)), (''key_prefix'', JStr (k_key_prefix k)),
           (''is_active'', JBool (k_is_active k)), (''last_used_at'', jopt (JStr \<circ> fmt) (k_last_used_at k)),
           (''created_at'', JStr (fmt (k_created_at k)))]"

definition organization_json :: "(timestamp \<Rightarrow> string) \<Rightarrow> organization \<Rightarrow> json" where
  "organization_json fmt g =
     JObj [(''id'', juuid (o_id g)), (''name'', JStr (o_name g)), (''slug'', JStr (o_slug g)),
           (''created_at'', JStr (fmt (o_created_at g)))]"

text \<open>The relationship \<open>organization\<close> of a membership and of an invitation.\<close>

definition organization_of :: "database \<Rightarrow> uuid \<Rightarrow> organization option" where
  "organization_of db gid = find (\<lambda>g. o_id g = gid) (organizations db)"

definition membership_json :: "(timestamp \<Rightarrow> string) \<Rightarrow> database \<Rightarrow> membership \<Rightarrow> json option" where
  "membership_json fmt db m =
     map_option (\<lambda>g. JObj [(''org_id'', juuid (m_org_id m)), (''user_id'', juuid (m_user_id m)),
         (''role'', JStr (role_value (m_role m))), (''organization'', organization_json fmt g)])
       (organization_of db (m_org_id m))"

definition member_json :: "(timestamp \<Rightarrow> string) \<Rightarrow> membership \<times> string \<Rightarrow> json" where
  "member_json fmt me =
     (case me of (m, email) \<Rightarrow>
        JObj [(''id'', juuid (m_id m)), (''user_id'', juuid (m_user_id m)), (''role'', JStr (role_value (m_role m))),
              (''email'', JStr email), (''created_at'', JStr (fmt (m_created_at m)))])"

definition invite_json :: "(timestamp \<Rightarrow> string) \<Rightarrow> database \<Rightarrow> invite \<Rightarrow> json option" where
  "invite_json fmt db i =
     map_option (\<lambda>g. JObj [(''id'', juuid (i_id i)), (''org_id'', juuid (i_org_id i)), (''email'', JStr (i_email i)),
         (''role'', JStr (role_value (i_role i))), (''status'', JStr (invite_status_str (i_status i))),
         (''expires_at'', JStr (fmt (i_expires_at i))), (''created_at'', JStr (fmt (i_created_at i))),
         (''organization'', organization_json fmt g)])
       (organization_of db (i_org_id i))"

text \<open>The body of a reply; 204 has none.\<close>

fun reply_json :: "(timestamp \<Rightarrow> string) \<Rightarrow> database \<Rightarrow> reply \<Rightarrow> json option" where
  "reply_json fmt db (Tokens access refresh) = Some (token_json access refresh)"
| "reply_json fmt db (Me u) = Some (user_json fmt u)"
| "reply_json fmt db (NewKey full_key k) = Some (api_key_created_json fmt full_key k)"
| "reply_json fmt db (Keys ks) = Some (JArr (map (api_key_json fmt) ks))"
| "reply_json fmt db NoContent = Some JNull"
| "reply_json fmt db (NewOrganization g) = Some (organization_json fmt g)"
| "reply_json fmt db (Memberships ms) = map_option JArr (those (map (membership_json fmt db) ms))"
| "reply_json fmt db (Members ms) = Some (JArr (map (member_json fmt) ms))"
| "reply_json fmt db (Invited i) = invite_json fmt db i"
| "reply_json fmt db (Invites is) = map_option JArr (those (map (invite_json fmt db) is))"
| "reply_json fmt db (Joined m) = membership_json fmt db m"

subsection \<open>Documents, jobs, searches and evaluations\<close>

definition document_json :: "(timestamp \<Rightarrow> string) \<Rightarrow> document_response \<Rightarrow> json" where
  "document_json fmt d =
     JObj [(''id'', juuid (dr_id d)), (''tenant_id'', juuid (dr_tenant_id d)), (''filename'', JStr (dr_filename d)),
           (''status'', JStr (dr_status d)), (''size_bytes'', jnat (dr_size_bytes d)), (''mime_type'', jopt JStr (dr_mime_type d)),
           (''chunk_count'', jnat (dr_chunk_count d)), (''content_hash'', JStr (dr_content_hash d)),
           (''created_at'', JStr (fmt (dr_created_at d))), (''updated_at'', JStr (fmt (dr_updated_at d)))]"

definition upload_json :: "(timestamp \<Rightarrow> string) \<Rightarrow> document_response \<Rightarrow> uuid \<Rightarrow> json" where
  "upload_json fmt d job_id =
     JObj [(''document'', document_json fmt d), (''job_id'', juuid job_id),
           (''message'', JStr ''Document uploaded. Ingestion job queued.'')]"

definition chunk_json :: "(timestamp \<Rightarrow> string) \<Rightarrow> chunk_response \<Rightarrow> json" where
  "chunk_json fmt c =
     JObj [(''id'', juuid (ch_id c)), (''document_id'', juuid (ch_document_id c)), (''content'', JStr (ch_content c)),
           (''chunk_index'', jnat (ch_chunk_index c)), (''page_number'', jopt jnat (ch_page_number c)),
           (''created_at'', JStr (fmt (ch_created_at c)))]"

definition job_json :: "(timestamp \<Rightarrow> string) \<Rightarrow> job_response \<Rightarrow> json" where
  "job_json fmt j =
     JObj [(''id'', juuid (jr_id j)), (''document_id'', juuid (jr_document_id j)), (''tenant_id'', juuid (jr_tenant_id j)),
           (''status'', JStr (jr_status j)), (''attempt_count'', jnat (jr_attempt_count j)),
           (''max_attempts'', jnat (jr_max_attempts j)), (''error_message'', jopt JStr (jr_error_message j)),
           (''created_at'', JStr (fmt (jr_created_at j))), (''started_at'', jopt (JStr \<circ> fmt) (jr_started_at j)),
           (''completed_at'', jopt (JStr \<circ> fmt) (jr_completed_at j))]"

definition page_json :: "('a \<Rightarrow> json) \<Rightarrow> 'a page \<Rightarrow> json" where
  "page_json f p =
     JObj [(''items'', JArr (map f (items p))), (''next_cursor'', jopt JStr (next_cursor p)), (''has_more'', JBool (has_more p))]"

definition ranked_json :: "ranked_chunk \<Rightarrow> json" where
  "ranked_json r =
     JObj [(''chunk_id'', juuid (rc_chunk_id r)), (''document_id'', juuid (rc_document_id r)), (''content'', JStr (rc_content r)),
           (''chunk_index'', jnat (rc_chunk_index r)), (''page_number'', jopt jnat (rc_page_number r)),
           (''score'', JFloat (rc_score r)), (''document_filename'', JStr (rc_document_filename r)),
           (''source_type'', JStr ''internal'')]"

definition web_json :: "web_result \<Rightarrow> json" where
  "web_json r =
     JObj [(''url'', JStr (web_url r)), (''title'', JStr (web_title r)), (''content'', JStr (web_content r)),
           (''score'', JFloat (web_score r)), (''source_type'', JStr ''web'')]"

fun result_json :: "search_result \<Rightarrow> json" where
  "result_json (Internal r) = ranked_json r"
| "result_json (FromWeb r) = web_json r"

definition search_json :: "search_response \<Rightarrow> json" where
  "search_json s =
     JObj [(''query'', JStr (sr_query s)), (''results'', JArr (map result_json (sr_results s))), (''total'', jnat (sr_total s)),
           (''answer'', jopt JStr (sr_answer s))]"

definition evaluation_json :: "chunk_relevance \<Rightarrow> json" where
  "evaluation_json c =
     JObj [(''chunk_id'', juuid (cr_chunk_id c)), (''grade'', JStr (grade_value (cr_grade c))), (''reasoning'', JStr (cr_reasoning c))]"

definition relevance_json :: "relevance_response \<Rightarrow> json" where
  "relevance_json r =
     JObj [(''query'', JStr (rr_query r)), (''evaluations'', JArr (map evaluation_json (rr_evaluations r))),
           (''model'', JStr (rr_model r)), (''circuit_state'', JStr (circuit_state_str (rr_circuit_state r)))]"

fun platform_reply_json :: "(timestamp \<Rightarrow> string) \<Rightarrow> platform_reply \<Rightarrow> json" where
  "platform_reply_json fmt (Uploaded d job_id) = upload_json fmt d job_id"
| "platform_reply_json fmt (DocumentPage p) = page_json (document_json fmt) p"
| "platform_reply_json fmt (OneDocument d) = document_json fmt d"
| "platform_reply_json fmt (ChunkPage p) = page_json (chunk_json fmt) p"
| "platform_reply_json fmt Deleted = JNull"
| "platform_reply_json fmt (JobPage p) = page_json (job_json fmt) p"
| "platform_reply_json fmt (OneJob j) = job_json fmt j"
| "platform_reply_json fmt (JobList js) = JArr (map (job_json fmt) js)"
| "platform_reply_json fmt (Found s) = search_json s"
| "platform_reply_json fmt (Evaluated r) = relevance_json r"

text \<open>The error envelope and the health reports.\<close>

definition error_json :: "string \<Rightarrow> string \<Rightarrow> json" where
  "error_json code m = JObj [(''error'', JObj [(''code'', JStr code), (''message'', JStr m)])]"

definition health_json :: "string \<Rightarrow> (string \<times> string) list \<Rightarrow> json" where
  "health_json overall checks =
     JObj ((''status'', JStr overall) #
           (if checks = [] then [] else [(''checks'', JObj (map (\<lambda>(k, v). (k, JStr v)) checks))]))"

subsection \<open>Every reply has a body\<close>

lemma organization_of_exists: "org_exists db gid \<Longrightarrow> organization_of db gid \<noteq> None"
  by (auto simp: organization_of_def find_None_iff)

lemma those_Some: "\<forall>x \<in> set xs. f x \<noteq> None \<Longrightarrow> those (map f xs) \<noteq> None"
  by (induction xs) auto

text \<open>What a reply shows of memberships and invitations is in the database after the request.\<close>

fun shown_memberships :: "reply \<Rightarrow> membership set" where
  "shown_memberships (Memberships ms) = set ms"
| "shown_memberships (Joined m) = {m}"
| "shown_memberships _ = {}"

fun shown_invites :: "reply \<Rightarrow> invite set" where
  "shown_invites (Invited i) = {i}"
| "shown_invites (Invites is) = set is"
| "shown_invites _ = {}"

lemma reply_json_defined:
  assumes "referenced db" and "shown_memberships y \<subseteq> set (memberships db)" and "shown_invites y \<subseteq> set (invites db)"
  shows "reply_json fmt db y \<noteq> None"
proof -
  have m: "membership_json fmt db m \<noteq> None" if "m \<in> set (memberships db)" for m
    using that assms(1) organization_of_exists [where db = db and gid = "m_org_id m"] by (auto simp: membership_json_def referenced_def)
  have i: "invite_json fmt db i \<noteq> None" if "i \<in> set (invites db)" for i
    using that assms(1) organization_of_exists [where db = db and gid = "i_org_id i"] by (auto simp: invite_json_def referenced_def)
  show ?thesis
    using assms(2,3) m i those_Some [of _ "membership_json fmt db"] those_Some [of _ "invite_json fmt db"]
    by (cases y) (auto simp: subset_iff)
qed

lemma user_body_shows:
  assumes "user_body cx req u db = (Inr y, db')"
  shows "shown_memberships y \<subseteq> set (memberships db') \<and> shown_invites y \<subseteq> set (invites db')"
proof (cases req)
  case (AcceptInvite iid)
  with assms obtain m where m: "accept_invite (env_membership_id (cx_env cx)) (env_now (cx_env cx)) (env_tx_now (cx_env cx)) iid
      (u_id u) (u_email u) db = (Inr m, db')" "y = Joined m"
    by (auto simp: user_body_def Let_def reply_with_Inr)
  from m(1) have "m \<in> set (memberships db')"
    by (rule accept_invite_Inr) (auto simp: insert_membership_def)
  with m(2) show ?thesis by simp
next
  case ListOrganizations
  with assms show ?thesis by (auto simp: user_body_def list_memberships_def)
next
  case ListPendingInvites
  with assms show ?thesis by (auto simp: user_body_def list_pending_invites_def)
qed (use assms in \<open>auto simp: user_body_def Let_def reply_with_Inr\<close>)

lemma serve_shows:
  assumes "serve cx req db r = (Inr y, db', r')"
  shows "shown_memberships y \<subseteq> set (memberships db') \<and> shown_invites y \<subseteq> set (invites db')"
proof (cases req)
  case (CreateInvite email ro)
  with assms have "as_member cx (create_invite_body cx email ro) db r = (Inr y, db', r')" by (simp add: serve_def)
  then obtain i h k now tx t u d where "create_invite h k now tx t email ro u d = (Inr i, db')" "y = Invited i"
    by (rule as_member_Inr) (auto simp: create_invite_body_def reply_with_Inr split: sum.splits)
  with create_invite_tables show ?thesis by fastforce
next
  case (RemoveMember t)
  with assms have "as_member cx (remove_member_body t) db r = (Inr y, db', r')" by (simp add: serve_def)
  then show ?thesis
    by (rule as_member_Inr) (auto simp: remove_member_body_def reply_with_Inr split: sum.splits)
next
  case ListMembers
  with assms have "as_member cx (\<lambda>user tenant db. (Inr (Members (list_org_members (tc_org_id tenant) db)), db)) db r = (Inr y, db', r')"
    by (simp add: serve_def)
  then show ?thesis by (rule as_member_Inr) auto
qed (use assms in \<open>auto simp: serve_def reply_with_Inr split: prod.splits elim!: as_user_Inr
    dest: user_body_shows [THEN conjunct1, THEN subsetD] user_body_shows [THEN conjunct2, THEN subsetD]\<close>)

text \<open>
  No reply fails its response model.  In a well-formed database every reply of an
  account request has a body: each membership and each invitation that it shows, the one just made
  included, has its organization in the tables after the request.  That the relationship has been loaded
  when the body is made is not modelled.
\<close>

theorem replies_serialise:
  assumes "accounts_wf db" and "handle cx req (db, r) = (Inr y, db', r')"
  shows "\<exists>body. reply_json fmt db' y = Some body"
proof -
  have "serve cx req db r = (Inr y, db', r')"
    using assms(2) by (auto simp: handle_def split: prod.splits sum.splits)
  moreover have "accounts_wf db'" using wf_handle [of "(db, r)" cx req] assms by simp
  ultimately show ?thesis
    using reply_json_defined [of db' y fmt] serve_shows by (auto simp: accounts_wf_def)
qed

theorem replies_serialise_witness:
  "\<exists>body w'. handle (sample_cx (AccountInvariant.sample_env 6 ''r'' 0) (Some (''eyJ'' @ uuid_str 3))) ListOrganizations
     (sample_accounts [sample_user 3 ''a@x.y''] [] [\<lparr>o_id = 20, o_name = ''Lab'', o_slug = ''lab'', o_created_at = 0\<rparr>]
        [\<lparr>m_id = 40, m_org_id = 20, m_user_id = 3, m_role = Admin, m_created_at = 0\<rparr>] [] [], \<lambda>_. None) =
     (Inr (Memberships [\<lparr>m_id = 40, m_org_id = 20, m_user_id = 3, m_role = Admin, m_created_at = 0\<rparr>]), w') \<and>
     reply_json (\<lambda>_. ''1970'') (fst w')
       (Memberships [\<lparr>m_id = 40, m_org_id = 20, m_user_id = 3, m_role = Admin, m_created_at = 0\<rparr>]) = Some body"
proof -
  let ?g = "\<lparr>o_id = 20, o_name = ''Lab'', o_slug = ''lab'', o_created_at = 0\<rparr>"
  let ?m = "\<lparr>m_id = 40, m_org_id = 20, m_user_id = 3, m_role = Admin, m_created_at = 0\<rparr>"
  let ?db = "sample_accounts [sample_user 3 ''a@x.y''] [] [?g] [?m] [] []"
  let ?cx = "sample_cx (AccountInvariant.sample_env 6 ''r'' 0) (Some (''eyJ'' @ uuid_str 3))"
  have "get_current_user sample_crypto sample_settings 0 (Some (''eyJ'' @ uuid_str 3)) ?db = (Inr (sample_user 3 ''a@x.y''), ?db)"
    using jwt_authenticates [of sample_crypto sample_settings 0 "sample_user 3 ''a@x.y''" 0 ?db] sample_tokens_decode
    by (simp add: keyed_defs Auth.minutes_def seconds_def create_access_token_def)
  then have run: "handle ?cx ListOrganizations (?db, \<lambda>_. None) = (Inr (Memberships [?m]), ?db, \<lambda>_. None)"
    by (simp add: handle_def serve_def as_user_def user_body_def list_memberships_def order_by_asc_def Let_def)
  have wf: "accounts_wf ?db"
    by (simp add: accounts_wf_def keys_wf_def keyed_defs referenced_def administered_def pending_unique_def pending_outside_def)
  from replies_serialise [OF wf run, of "\<lambda>_. ''1970''"] run show ?thesis by auto
qed

end
