(* ===== verification/Metrics.thy ===== *)
theory Metrics
  imports Http Breaker
begin

section \<open>Metrics\<close>

text \<open>
  \<open>src/observability/metrics.py\<close> and \<open>src/observability/middleware.py\<close>, and the metrics of
  \<open>src/evaluation/llm_gateway.py\<close>.  A counter is a map from its labels to a number, a histogram a list
  of one number per bucket from which the exposition takes the running sums, as the client library
  does it.  Requests interleave: a request is the start and the end of \<open>dispatch\<close>, with the
  extracted template of its route and its duration, a float.
\<close>

subsection \<open>Histograms\<close>

definition duration_buckets :: "rat option list" where
  "duration_buckets =
     map (Some \<circ> b64) [1 / 100, 25 / 1000, 5 / 100, 1 / 10, 1 / 4, 1 / 2, 1, 5 / 2, 5, 10] @ [None]"

text \<open>A bound of \<open>None\<close> is \<open>float("inf")\<close>.\<close>

definition at_most :: "rat \<Rightarrow> rat option \<Rightarrow> bool" where
  "at_most x bound \<longleftrightarrow> (case bound of None \<Rightarrow> True | Some b \<Rightarrow> x \<le> b)"

fun observe :: "rat option list \<Rightarrow> rat \<Rightarrow> nat list \<Rightarrow> nat list" where
  "observe (b # bs) x (n # ns) = (if at_most x b then Suc n # ns else n # observe bs x ns)"
| "observe _ x ns = ns"

definition exposed_bucket :: "nat \<Rightarrow> nat list \<Rightarrow> nat" where
  "exposed_bucket i counts = sum_list (take (Suc i) counts)"

lemma length_observe [simp]: "length (observe bs x ns) = length ns"
  by (induction bs x ns rule: observe.induct) simp_all

lemma observe_exposed:
  assumes "length ns = length bs" and "i < length bs"
    and "sorted_wrt (\<lambda>b c. \<forall>x. at_most x b \<longrightarrow> at_most x c) bs"
  shows "exposed_bucket i (observe bs x ns) = exposed_bucket i ns + (if at_most x (bs ! i) then 1 else 0)"
  using assms
proof (induction bs x ns arbitrary: i rule: observe.induct)
  case (1 b bs x n ns)
  show ?case
  proof (cases i)
    case 0
    then show ?thesis by (simp add: exposed_bucket_def)
  next
    case (Suc j)
    with 1 show ?thesis by (auto simp: exposed_bucket_def)
  qed
qed simp_all

lemma duration_buckets_sorted: "sorted_wrt (\<lambda>b c. \<forall>x. at_most x b \<longrightarrow> at_most x c) duration_buckets"
proof -
  have "sorted_wrt (\<lambda>b c. b \<le> c) (map b64 [1 / 100, 25 / 1000, 5 / 100, 1 / 10, 1 / 4, 1 / 2, 1, 5 / 2, 5, 10])"
    unfolding sorted_wrt_map by (rule sorted_wrt_mono_rel [of _ "(\<le>)"]) (auto intro: b64_mono)
  then show ?thesis
    unfolding duration_buckets_def
    by (auto simp: sorted_wrt_append sorted_wrt_map at_most_def comp_def elim!: sorted_wrt_mono_rel [rotated])
qed

subsection \<open>The middleware\<close>

record http_metrics =
  requests_total :: "string \<times> string \<times> nat \<Rightarrow> nat"
  request_duration :: "string \<times> string \<Rightarrow> nat list"
  active_requests :: int

definition no_metrics :: http_metrics where
  "no_metrics =
     \<lparr>requests_total = (\<lambda>_. 0), request_duration = (\<lambda>_. replicate (length duration_buckets) 0), active_requests = 0\<rparr>"

text \<open>
  How \<open>call_next\<close> ends.  \<open>Cancelled\<close> is an exception that is no \<open>Exception\<close>: neither branch of the
  \<open>try\<close> assigns \<open>status_code\<close>, and the \<open>finally\<close> fails where it first reads it.
\<close>

datatype call_end = Answered nat | RaisedException | Cancelled

definition begin_request :: "http_metrics \<Rightarrow> http_metrics" where
  "begin_request hm = hm \<lparr>active_requests := active_requests hm + 1\<rparr>"

definition status_label :: "call_end \<Rightarrow> nat option" where
  "status_label ce = (case ce of Answered s \<Rightarrow> Some s | RaisedException \<Rightarrow> Some 500 | Cancelled \<Rightarrow> None)"

definition end_request :: "string \<Rightarrow> string \<Rightarrow> rat \<Rightarrow> call_end \<Rightarrow> http_metrics \<Rightarrow> (exn, unit) outcome \<times> http_metrics" where
  "end_request meth template duration ce hm =
     (let hm1 = hm \<lparr>active_requests := active_requests hm - 1\<rparr>
      in case status_label ce of
           None \<Rightarrow> (Inl (OtherError ''UnboundLocalError''), hm1)
         | Some s \<Rightarrow>
             (Inr (), hm1 \<lparr>requests_total := (requests_total hm1)((meth, template, s) := requests_total hm1 (meth, template, s) + 1),
                request_duration := (request_duration hm1)((meth, template) :=
                  observe duration_buckets duration (request_duration hm1 (meth, template)))\<rparr>))"

subsection \<open>What the metrics say\<close>

text \<open>
  The specification remembers the starts and ends of requests and answers a scrape from them.  It has
  its own table of what an end counts as and of the bounds of the buckets, in milliseconds; the
  bounds are compared as floats, and the last bucket takes every duration.
\<close>

datatype metrics_event =
    Begins
  | Ends string string rat call_end
  | ScrapeTotal string string nat
  | ScrapeBucket string string nat
  | ScrapeActive

datatype scraped = Done | Failure exn | Value int

definition metrics_step :: "metrics_event \<Rightarrow> http_metrics \<Rightarrow> scraped \<times> http_metrics" where
  "metrics_step ev hm =
     (case ev of
        Begins \<Rightarrow> (Done, begin_request hm)
      | Ends m t d ce \<Rightarrow> (case end_request m t d ce hm of (Inl e, hm1) \<Rightarrow> (Failure e, hm1) | (Inr _, hm1) \<Rightarrow> (Done, hm1))
      | ScrapeTotal m t s \<Rightarrow> (Value (int (requests_total hm (m, t, s))), hm)
      | ScrapeBucket m t i \<Rightarrow>
          (if i < length duration_buckets then Value (int (exposed_bucket i (request_duration hm (m, t)))) else Done, hm)
      | ScrapeActive \<Rightarrow> (Value (active_requests hm), hm))"

fun counted_as :: "string \<Rightarrow> string \<Rightarrow> nat \<Rightarrow> metrics_event \<Rightarrow> bool" where
  "counted_as m t s (Ends m' t' d (Answered s')) \<longleftrightarrow> m' = m \<and> t' = t \<and> s' = s"
| "counted_as m t s (Ends m' t' d RaisedException) \<longleftrightarrow> m' = m \<and> t' = t \<and> s = 500"
| "counted_as m t s _ \<longleftrightarrow> False"

definition bucket_millis :: "nat list" where
  "bucket_millis = [10, 25, 50, 100, 250, 500, 1000, 2500, 5000, 10000]"

definition within_bucket :: "nat \<Rightarrow> rat \<Rightarrow> bool" where
  "within_bucket i d \<longleftrightarrow> i = 10 \<or> d \<le> b64 (of_nat (bucket_millis ! i) / 1000)"

fun lasted :: "string \<Rightarrow> string \<Rightarrow> nat \<Rightarrow> metrics_event \<Rightarrow> bool" where
  "lasted m t i (Ends m' t' d ce) \<longleftrightarrow> m' = m \<and> t' = t \<and> ce \<noteq> Cancelled \<and> within_bucket i d"
| "lasted m t i _ \<longleftrightarrow> False"

fun is_end :: "metrics_event \<Rightarrow> bool" where
  "is_end (Ends _ _ _ _) \<longleftrightarrow> True"
| "is_end _ \<longleftrightarrow> False"

definition number :: "(metrics_event \<Rightarrow> bool) \<Rightarrow> metrics_event list \<Rightarrow> int" where
  "number P h = int (length (filter P h))"

definition observed_step :: "metrics_event \<Rightarrow> metrics_event list \<Rightarrow> scraped \<times> metrics_event list" where
  "observed_step ev h =
     (case ev of
        Begins \<Rightarrow> Done
      | Ends m t d ce \<Rightarrow> if ce = Cancelled then Failure (OtherError ''UnboundLocalError'') else Done
      | ScrapeTotal m t s \<Rightarrow> Value (number (counted_as m t s) h)
      | ScrapeBucket m t i \<Rightarrow>
          if i < 11 then Value (number (lasted m t i) h) else Done
      | ScrapeActive \<Rightarrow> Value (number (\<lambda>e. e = Begins) h - number is_end h), ev # h)"

definition metrics_rel :: "http_metrics \<Rightarrow> metrics_event list \<Rightarrow> bool" where
  "metrics_rel hm h \<longleftrightarrow>
     (\<forall>m t s. int (requests_total hm (m, t, s)) = number (counted_as m t s) h) \<and>
     (\<forall>m t. length (request_duration hm (m, t)) = length duration_buckets) \<and>
     (\<forall>m t i. i < 11 \<longrightarrow> int (exposed_bucket i (request_duration hm (m, t))) = number (lasted m t i) h) \<and>
     active_requests hm = number (\<lambda>e. e = Begins) h - number is_end h"

lemma number_Cons [simp]: "number P (e # h) = (if P e then 1 else 0) + number P h"
  by (simp add: number_def)

lemma number_Nil [simp]: "number P [] = 0"
  by (simp add: number_def)

lemma metrics_rel_init: "metrics_rel no_metrics []"
  by (simp add: metrics_rel_def no_metrics_def exposed_bucket_def take_replicate)

lemma length_duration_buckets: "length duration_buckets = 11"
  by (simp add: duration_buckets_def)

lemma at_most_bucket:
  assumes "i < 11"
  shows "at_most d (duration_buckets ! i) = within_bucket i d"
proof -
  from assms have "i \<in> {0, 1, 2, 3, 4, 5, 6, 7, 8, 9, 10}" by (simp only: insert_iff empty_iff) presburger
  then show ?thesis
    by (auto simp: duration_buckets_def within_bucket_def bucket_millis_def at_most_def nth_append)
qed

lemma exposed_observe:
  assumes "length ns = length duration_buckets" and "i < 11"
  shows "exposed_bucket i (observe duration_buckets d ns) = exposed_bucket i ns + (if within_bucket i d then 1 else 0)"
  using observe_exposed [OF assms(1) _ duration_buckets_sorted, of i d] assms(2)
  by (simp add: length_duration_buckets at_most_bucket)

lemma end_request_rel:
  assumes "metrics_rel hm h"
  shows "metrics_rel (snd (end_request m t d ce hm)) (Ends m t d ce # h)"
  using assms
  by (cases ce)
    (auto simp: metrics_rel_def end_request_def status_label_def exposed_observe Let_def)

lemma metrics_rel_step:
  assumes "metrics_rel hm h"
  shows "fst (metrics_step ev hm) = fst (observed_step ev h)" and "metrics_rel (snd (metrics_step ev hm)) (snd (observed_step ev h))"
proof -
  show "fst (metrics_step ev hm) = fst (observed_step ev h)"
    using assms
    by (cases ev) (auto simp: metrics_step_def observed_step_def metrics_rel_def end_request_def status_label_def
      length_duration_buckets Let_def split: call_end.split)
  show "metrics_rel (snd (metrics_step ev hm)) (snd (observed_step ev h))"
  proof (cases ev)
    case (Ends m t d ce)
    then show ?thesis
      using end_request_rel [OF assms, of m t d ce]
      by (cases "end_request m t d ce hm") (auto simp: metrics_step_def observed_step_def split: sum.split)
  qed (use assms in \<open>auto simp: metrics_step_def observed_step_def metrics_rel_def begin_request_def\<close>)
qed

interpretation metrics: machine_refinement metrics_step observed_step metrics_rel
  by unfold_locales (simp_all add: metrics_rel_step)

text \<open>
  Claim C25 (refinement): every scrape reports what has happened.  Whatever requests begin and end
  between the scrapes, a counter has the number of requests that ended with its labels, an
  exception counting as a 500; a bucket has the number of requests to its route that lasted at
  most its bound, of 10, 25, 50, 100, 250, 500, 1000, 2500, 5000 and 10000 milliseconds and no bound; and the gauge has the number of requests that are in flight.  A request that is
  cancelled leaves the gauge, but no counter and no histogram, and ends in an \<open>UnboundLocalError\<close>.
\<close>

theorem metrics_report_history:
  "outputs metrics_step evs no_metrics = outputs observed_step evs []"
  by (rule metrics.same_outputs [OF metrics_rel_init])

subsection \<open>Labels of requests\<close>

fun segment_str :: "segment \<Rightarrow> string" where
  "segment_str (Lit l) = l"
| "segment_str (Param p) = ''{'' @ p @ ''}''"

definition template_str :: "segment list \<Rightarrow> string" where
  "template_str p = concat (map (\<lambda>s. ''/'' @ segment_str s) p)"

text \<open>
  \<open>_get_route_template\<close>: a route of the API that matches is noted in the scope, or the first one that
  matches the path but not the method; the pages of FastAPI are plain routes that note nothing.
\<close>

definition noted_template :: "route \<Rightarrow> string" where
  "noted_template r =
     (if rt_path r \<in> rt_path ` set page_routes then ''unhandled_path'' else template_str (rt_path r))"

definition route_template :: "route list \<Rightarrow> http_method \<Rightarrow> string list \<Rightarrow> string" where
  "route_template routes m path =
     (case find_route routes m path of
        Found_Route r _ \<Rightarrow> noted_template r
      | Wrong_Method \<Rightarrow>
          (case find (\<lambda>r. match_path (rt_path r) path \<noteq> None) routes of
             None \<Rightarrow> ''unhandled_path''
           | Some r \<Rightarrow> noted_template r)
      | No_Route \<Rightarrow> ''unhandled_path'')"

fun method_str :: "http_method \<Rightarrow> string" where
  "method_str GET = ''GET''"
| "method_str POST = ''POST''"
| "method_str DELETE = ''DELETE''"
| "method_str (Other m) = m"

text \<open>\<open>dispatch\<close> of a request that is served without being cancelled.\<close>

definition metered ::
  "http_context \<Rightarrow> route list \<Rightarrow> rat \<Rightarrow> raw_request \<Rightarrow> platform \<times> http_metrics \<Rightarrow> http_response \<times> platform \<times> http_metrics" where
  "metered hx routes duration rq s =
     (case serve_http hx routes rq (fst s) of
        (rs, w) \<Rightarrow>
          (rs, w,
           if rq_path rq = [''metrics''] then snd s
           else snd (end_request (method_str (rq_method rq))
                       (if is_preflight rq then ''unhandled_path'' else route_template routes (rq_method rq) (rq_path rq)) duration
                       (Answered (rs_status rs)) (begin_request (snd s)))))"

text \<open>
  The templates are bounded, the methods are not.  The label of a request is the
  template of one of the routes or \<open>unhandled_path\<close>, so that two requests which differ in the
  values of path parameters of one endpoint share it; but the method is taken from the request, and
  every string a client sends for it makes a counter of its own.
\<close>

theorem template_labels_bounded:
  "route_template (app_routes api_prefix) m path \<in>
     insert ''unhandled_path'' (template_str ` rt_path ` set (app_routes api_prefix)) \<and>
   (\<forall>r \<in> set (app_routes api_prefix). match_path (rt_path r) path \<noteq> None \<longrightarrow> rt_method r = m \<longrightarrow>
     route_template (app_routes api_prefix) m path = noted_template r) \<and>
   (\<forall>hx d rq s k. rq_path rq = path \<longrightarrow> path \<noteq> [''metrics''] \<longrightarrow> rq_method rq = Other k \<longrightarrow>
     (\<exists>t st. requests_total (snd (snd (metered hx (app_routes api_prefix) d rq s))) (k, t, st) =
        requests_total (snd s) (k, t, st) + 1))"
proof (intro conjI)
  show "route_template (app_routes api_prefix) m path \<in>
     insert ''unhandled_path'' (template_str ` rt_path ` set (app_routes api_prefix))"
    by (auto simp: route_template_def noted_template_def find_Some_iff dest: find_route_sound
      split: matched.split option.split)
  show "\<forall>r \<in> set (app_routes api_prefix). match_path (rt_path r) path \<noteq> None \<longrightarrow> rt_method r = m \<longrightarrow>
     route_template (app_routes api_prefix) m path = noted_template r"
    using find_route_unique [OF app_routes_apart] by (fastforce simp: route_template_def)
  show "\<forall>hx d rq s k. rq_path rq = path \<longrightarrow> path \<noteq> [''metrics''] \<longrightarrow> rq_method rq = Other k \<longrightarrow>
     (\<exists>t st. requests_total (snd (snd (metered hx (app_routes api_prefix) d rq s))) (k, t, st) =
        requests_total (snd s) (k, t, st) + 1)"
    by (auto simp: metered_def end_request_def begin_request_def status_label_def Let_def split: prod.split)
qed

theorem template_labels_bounded_witness:
  "route_template (app_routes default_prefix) GET [''api'', ''v1'', ''jobs'', ''10''] \<in>
     insert ''unhandled_path'' (template_str ` rt_path ` set (app_routes default_prefix))"
  using template_labels_bounded [of default_prefix GET "[''api'', ''v1'', ''jobs'', ''10'']"] by blast

subsection \<open>The metrics of the gateway\<close>

record llm_metrics =
  llm_requests_total :: "string \<times> string \<Rightarrow> nat"
  llm_circuit_breaker_state :: int

definition no_llm_metrics :: llm_metrics where
  "no_llm_metrics = \<lparr>llm_requests_total = (\<lambda>_. 0), llm_circuit_breaker_state = 0\<rparr>"

definition circuit_number :: "circuit_state \<Rightarrow> int" where
  "circuit_number s = (case s of CLOSED \<Rightarrow> 0 | HALF_OPEN \<Rightarrow> 1 | OPEN \<Rightarrow> 2)"

text \<open>The gauge is set where the breaker changes its state.\<close>

definition metered_breaker_step ::
  "cb_event \<Rightarrow> circuit_breaker \<times> llm_metrics \<Rightarrow> (exn, unit) outcome \<times> circuit_breaker \<times> llm_metrics" where
  "metered_breaker_step ev s =
     (let cb = fst s; lm = snd s; set_state = (\<lambda>n. lm \<lparr>llm_circuit_breaker_state := n\<rparr>)
      in case breaker_step ev cb of
           (r, cb1) \<Rightarrow>
             (r, cb1,
              case ev of
                Check now \<Rightarrow> if cb_state cb = OPEN \<and> r = Inr () then set_state 1 else lm
              | Succeeded \<Rightarrow> set_state 0
              | Failed now \<Rightarrow>
                  if cb_state cb = HALF_OPEN then set_state 2
                  else if failure_count cb + 1 \<ge> failure_threshold cb then set_state 2
                  else lm))"

definition metered_complete ::
  "int \<Rightarrow> rat \<Rightarrow> rat \<Rightarrow> (nat \<Rightarrow> (exn, string option) outcome) \<Rightarrow> string \<Rightarrow> circuit_breaker \<times> llm_metrics \<Rightarrow>
     (exn, string) outcome \<times> circuit_breaker \<times> llm_metrics" where
  "metered_complete max_retries checked finished model operation s =
     (case metered_breaker_step (Check checked) s of
        (Inl e, s1) \<Rightarrow> (Inl e, s1)
      | (Inr _, s1) \<Rightarrow>
          (let count = (\<lambda>label (cb, lm). (cb, lm \<lparr>llm_requests_total :=
                 (llm_requests_total lm)((operation, label) := llm_requests_total lm (operation, label) + 1)\<rparr>))
           in case call_with_retry max_retries model of
                (Inr text, _) \<Rightarrow> (Inr text, count ''success'' (snd (metered_breaker_step Succeeded s1)))
              | (Inl e, _) \<Rightarrow>
                  (Inl (App (ExternalServiceError ''LLM'' (exn_str e))),
                   count ''error'' (snd (metered_breaker_step (Failed finished) s1)))))"

definition gauge_faithful :: "circuit_breaker \<times> llm_metrics \<Rightarrow> circuit_breaker \<Rightarrow> bool" where
  "gauge_faithful s cb \<longleftrightarrow> fst s = cb \<and> llm_circuit_breaker_state (snd s) = circuit_number (cb_state cb)"

interpretation breaker_gauge: machine_refinement metered_breaker_step breaker_step gauge_faithful
proof
  fix s cb e
  assume "gauge_faithful s cb"
  then show "fst (metered_breaker_step e s) = fst (breaker_step e cb)"
    by (simp add: gauge_faithful_def metered_breaker_step_def Let_def split: prod.split)
next
  fix s cb e
  assume "gauge_faithful s cb"
  then show "gauge_faithful (snd (metered_breaker_step e s)) (snd (breaker_step e cb))"
    by (cases e)
      (auto simp: gauge_faithful_def metered_breaker_step_def breaker_step_def cb_check_def record_success_def
        record_failure_def circuit_number_def Let_def split: circuit_state.splits if_splits)
qed

lemma metered_breaker_keeps_counters [simp]:
  "llm_requests_total (snd (snd (metered_breaker_step ev s))) = llm_requests_total (snd s)"
  by (auto simp: metered_breaker_step_def Let_def split: prod.split cb_event.split)

text \<open>
  Metering changes no completion, and the metrics tell the truth.  With a
  gauge that shows the state of the breaker, a completion returns what it returns without metrics
  and leaves a gauge that shows the new state; it is counted once, as a success or as an error,
  unless the breaker refused it, in which case it is not counted at all.
\<close>

theorem metered_complete_complete:
  assumes "gauge_faithful s cb" and "llm_complete k checked finished model cb = (r, calls, cb')"
  shows "\<exists>s'. metered_complete k checked finished model op s = (r, s') \<and> gauge_faithful s' cb' \<and>
    llm_requests_total (snd s') =
      (if isl (fst (cb_check checked cb)) then llm_requests_total (snd s)
       else (let label = (op, if isl r then ''error'' else ''success'')
             in (llm_requests_total (snd s))(label := llm_requests_total (snd s) label + 1)))"
proof -
  obtain x s1 where check: "metered_breaker_step (Check checked) s = (x, s1)"
    using prod.exhaust by blast
  have x: "x = fst (cb_check checked cb)"
    using breaker_gauge.same_output [OF assms(1), of "Check checked"] check by (simp add: breaker_step_def)
  have s1: "gauge_faithful s1 (snd (cb_check checked cb))" "llm_requests_total (snd s1) = llm_requests_total (snd s)"
    using breaker_gauge.stay_related [OF assms(1), of "Check checked"] metered_breaker_keeps_counters [of "Check checked" s] check
    by (simp_all add: breaker_step_def)
  note ended = breaker_gauge.stay_related [OF s1(1), of Succeeded] breaker_gauge.stay_related [OF s1(1), of "Failed finished"]
  show ?thesis
  proof (cases x)
    case (Inl e)
    with x obtain cb1 where cb1: "cb_check checked cb = (Inl e, cb1)" by (cases "cb_check checked cb") simp
    then have "r = Inl e" "cb' = cb1" using assms(2) by (simp_all add: llm_complete_def)
    moreover have "metered_complete k checked finished model op s = (Inl e, s1)"
      using check Inl by (simp add: metered_complete_def)
    ultimately show ?thesis using s1 cb1 by simp
  next
    case (Inr u)
    with x obtain cb1 where cb1: "cb_check checked cb = (Inr u, cb1)" by (cases "cb_check checked cb") simp
    obtain y n where run: "call_with_retry k model = (y, n)" by force
    show ?thesis
    proof (cases y)
      case (Inl e)
      obtain cb2 lm2 where after: "metered_breaker_step (Failed finished) s1 = (Inr (), cb2, lm2)"
        by (cases s1) (auto simp: metered_breaker_step_def breaker_step_def Let_def)
      have "llm_requests_total lm2 = llm_requests_total (snd s)" "gauge_faithful (cb2, lm2) (record_failure finished cb1)"
        using metered_breaker_keeps_counters [of "Failed finished" s1] s1(2) ended(2) cb1 after
        by (simp_all add: breaker_step_def)
      moreover have "r = Inl (App (ExternalServiceError ''LLM'' (exn_str e)))" "cb' = record_failure finished cb1"
        using assms(2) cb1 run Inl by (simp_all add: llm_complete_def)
      ultimately show ?thesis
        using check Inr run Inl after cb1 by (simp add: metered_complete_def gauge_faithful_def Let_def)
    next
      case ok: (Inr ans)
      obtain cb2 lm2 where after: "metered_breaker_step Succeeded s1 = (Inr (), cb2, lm2)"
        by (cases s1) (auto simp: metered_breaker_step_def breaker_step_def Let_def)
      have "llm_requests_total lm2 = llm_requests_total (snd s)" "gauge_faithful (cb2, lm2) (record_success cb1)"
        using metered_breaker_keeps_counters [of Succeeded s1] s1(2) ended(1) cb1 after
        by (simp_all add: breaker_step_def)
      moreover have "r = Inr ans" "cb' = record_success cb1"
        using assms(2) cb1 run ok by (simp_all add: llm_complete_def)
      ultimately show ?thesis
        using check Inr run ok after cb1 by (simp add: metered_complete_def gauge_faithful_def Let_def)
    qed
  qed
qed

theorem metered_complete_complete_witness:
  "\<exists>s'. metered_complete 3 0 1 (\<lambda>_. Inr (Some ''ok'')) ''grade'' (new_gateway, no_llm_metrics) = (Inr ''ok'', s') \<and>
     llm_circuit_breaker_state (snd s') = 0 \<and> llm_requests_total (snd s') (''grade'', ''success'') = 1"
proof -
  have "gauge_faithful (new_gateway, no_llm_metrics) new_gateway"
    by (simp add: gauge_faithful_def new_gateway_def new_breaker_def no_llm_metrics_def circuit_number_def)
  moreover have "llm_complete 3 0 1 (\<lambda>_. Inr (Some ''ok'')) new_gateway = (Inr ''ok'', 1, record_success new_gateway)"
    by (simp add: llm_complete_def call_with_retry_def retry_from.simps inner_call_def cb_check_def new_gateway_def new_breaker_def)
  moreover have "\<not> isl (fst (cb_check 0 new_gateway))" by (simp add: cb_check_def new_gateway_def new_breaker_def)
  ultimately show ?thesis
    using metered_complete_complete [of "(new_gateway, no_llm_metrics)" new_gateway 3 0 1 "\<lambda>_. Inr (Some ''ok'')" "Inr ''ok''" 1
        "record_success new_gateway" "''grade''"]
    by (auto simp: gauge_faithful_def circuit_number_def record_success_def no_llm_metrics_def Let_def)
qed

end
