(* ===== verification/Logging.thy ===== *)
theory Logging
  imports PyText Exceptions
begin

section \<open>Logging\<close>

text \<open>
  \<open>configure_logging\<close> of \<open>src/core/logging.py\<close>: the levels it gives to the loggers of the standard
  library.  A logger without a level of its own takes the one of its nearest ancestor in the dotted
  hierarchy, the root last, and what it writes goes to the root's handler, which filters nothing.
\<close>

type_synonym log_levels = "(string \<times> int) list"

definition root_logger :: string where "root_logger = ''''"

text \<open>The logger and its ancestors, the nearest first.\<close>

definition ancestors :: "string \<Rightarrow> string list" where
  "ancestors name =
     filter (\<lambda>a. a \<noteq> root_logger)
       (name # map (\<lambda>i. take i name) (filter (\<lambda>i. name ! i = CHR ''.'') (rev [0..<length name])))
     @ [root_logger]"

definition own_level :: "log_levels \<Rightarrow> string \<Rightarrow> int" where
  "own_level levels name = (case map_of levels name of None \<Rightarrow> 0 | Some l \<Rightarrow> l)"

definition effective_level :: "log_levels \<Rightarrow> string \<Rightarrow> int" where
  "effective_level levels name =
     (case filter (\<lambda>l. l \<noteq> 0) (map (own_level levels) (ancestors name)) of [] \<Rightarrow> 0 | l # _ \<Rightarrow> l)"

definition written :: "log_levels \<Rightarrow> string \<Rightarrow> int \<Rightarrow> bool" where
  "written levels name l \<longleftrightarrow> effective_level levels name \<le> l"

text \<open>
  \<open>getattr(logging, log_level.upper(), logging.INFO)\<close>: the capital names of the module are the
  levels and one string, which \<open>basicConfig\<close> refuses.
\<close>

definition numeric_level :: "string \<Rightarrow> (exn, int) outcome" where
  "numeric_level log_level =
     (let name = map upper_char log_level
      in if name = ''BASIC_FORMAT'' then Inl (ValueError (''Unknown level: '' @ [CHR 0x27] @ ''%(levelname)s:%(name)s:%(message)s'' @ [CHR 0x27]))
         else Inr (case map_of [(''CRITICAL'', 50), (''FATAL'', 50), (''ERROR'', 40), (''WARNING'', 30), (''WARN'', 30),
                                (''INFO'', 20), (''DEBUG'', 10), (''NOTSET'', 0)] name of
                     None \<Rightarrow> 20
                   | Some n \<Rightarrow> n))"

definition noisy_loggers :: "string list" where
  "noisy_loggers = [''urllib3'', ''botocore'', ''boto3'', ''asyncio'', ''sqlalchemy.engine'', ''sentence_transformers'', ''httpx'']"

datatype renderer = JSONRenderer | ConsoleRenderer

definition configure_logging :: "string \<Rightarrow> bool \<Rightarrow> log_levels \<Rightarrow> (exn, renderer \<times> log_levels) outcome" where
  "configure_logging log_level json_format levels =
     (case numeric_level log_level of
        Inl e \<Rightarrow> Inl e
      | Inr n \<Rightarrow>
          Inr (if json_format then JSONRenderer else ConsoleRenderer,
               fold (\<lambda>name ls. (name, 30) # ls) noisy_loggers ((root_logger, n) # levels)))"

definition below :: "string \<Rightarrow> string \<Rightarrow> bool" where
  "below name ancestor \<longleftrightarrow> name = ancestor \<or> startswith name (ancestor @ ''.'')"

lemma startswith_dot:
  "startswith name (a @ ''.'') \<longleftrightarrow> (\<exists>i < length name. name ! i = CHR ''.'' \<and> a = take i name)"
proof
  assume "startswith name (a @ ''.'')"
  then have t: "take (Suc (length a)) name = a @ ''.''" by (simp add: startswith_def)
  from arg_cong [OF t, of length] have l: "length a < length name" by simp
  then have "take (length a) name @ [name ! length a] = a @ ''.''"
    using t by (simp add: take_Suc_conv_app_nth)
  then have "a = take (length a) name" "name ! length a = CHR ''.''" by simp_all
  with l show "\<exists>i < length name. name ! i = CHR ''.'' \<and> a = take i name" by blast
next
  assume "\<exists>i < length name. name ! i = CHR ''.'' \<and> a = take i name"
  then show "startswith name (a @ ''.'')" by (auto simp: startswith_def take_Suc_conv_app_nth)
qed

lemma ancestors_below: "a \<noteq> root_logger \<Longrightarrow> a \<in> set (ancestors name) \<longleftrightarrow> below name a"
  by (auto simp: ancestors_def below_def startswith_dot)

lemma root_last:
  obtains pre where "ancestors name = pre @ [root_logger]" and "root_logger \<notin> set pre"
  by (rule that [OF ancestors_def]) (simp only: set_filter mem_Collect_eq simp_thms)

lemma effective_level_eq:
  assumes "a \<noteq> root_logger" and "below name a" and "own_level levels a = k" and "k \<noteq> 0"
    and "\<And>b. b \<noteq> root_logger \<Longrightarrow> below name b \<Longrightarrow> own_level levels b \<in> {0, k}"
  shows "effective_level levels name = k"
proof -
  obtain pre where pre: "ancestors name = pre @ [root_logger]" "root_logger \<notin> set pre" by (rule root_last)
  have mem: "b \<in> set pre \<longleftrightarrow> b \<noteq> root_logger \<and> below name b" for b
    using ancestors_below [of b name] pre by auto
  let ?ls = "filter (\<lambda>l. l \<noteq> 0) (map (own_level levels) pre)"
  have "k \<in> set ?ls" using assms(1-4) mem by auto
  then obtain l ls where ls: "?ls = l # ls" by (cases ?ls) auto
  then have "l \<in> set ?ls" by simp
  then have "l = k" using assms(5) mem by fastforce
  with ls show ?thesis by (simp add: effective_level_def pre)
qed

lemma effective_level_root:
  assumes "\<And>b. b \<noteq> root_logger \<Longrightarrow> below name b \<Longrightarrow> own_level levels b = 0"
  shows "effective_level levels name = own_level levels root_logger"
proof -
  obtain pre where pre: "ancestors name = pre @ [root_logger]" "root_logger \<notin> set pre" by (rule root_last)
  have "own_level levels b = 0" if "b \<in> set pre" for b
    using that pre(2) ancestors_below [of b name] by (intro assms) (auto simp: pre(1))
  then have "filter (\<lambda>l. l \<noteq> 0) (map (own_level levels) pre) = []" by (simp add: filter_empty_conv)
  then show ?thesis by (simp add: effective_level_def pre)
qed

lemma configured_levels:
  assumes "configure_logging log_level json_format [] = Inr (r, levels)" and "numeric_level log_level = Inr n"
  shows "own_level levels name = (if name \<in> set noisy_loggers then 30 else if name = root_logger then n else 0)"
  using assms by (auto simp: configure_logging_def own_level_def noisy_loggers_def root_logger_def)

text \<open>
  Who writes what.  In a process where nobody else has set a level, after
  the configuration the loggers of the noisy libraries and everything below them write from
  WARNING on, whatever the configured level is; all others write from the configured level on.
\<close>

theorem noisy_loggers_from_warning:
  assumes "configure_logging log_level json_format [] = Inr (r, levels)"
  shows "\<exists>n. numeric_level log_level = Inr n \<and>
    (written levels name l \<longleftrightarrow> (if \<exists>m \<in> set noisy_loggers. below name m then 30 else n) \<le> l)"
proof -
  obtain n where n: "numeric_level log_level = Inr n"
    using assms by (auto simp: configure_logging_def split: sum.splits)
  note own = configured_levels [OF assms n]
  have "effective_level levels name = (if \<exists>m \<in> set noisy_loggers. below name m then 30 else n)"
  proof (cases "\<exists>m \<in> set noisy_loggers. below name m")
    case True
    then obtain m where m: "m \<in> set noisy_loggers" "below name m" by blast
    then have "m \<noteq> root_logger" by (auto simp: noisy_loggers_def root_logger_def)
    from effective_level_eq [OF this m(2), of levels 30] m(1) own True show ?thesis by simp
  next
    case False
    have "root_logger \<notin> set noisy_loggers" by (simp add: noisy_loggers_def root_logger_def)
    have "own_level levels b = 0" if "b \<noteq> root_logger" "below name b" for b
      using that own False by auto
    from effective_level_root [OF this] False own \<open>root_logger \<notin> set noisy_loggers\<close> show ?thesis by simp
  qed
  with n show ?thesis by (simp add: written_def)
qed

text \<open>The silenced libraries are louder than the program when the level is above WARNING.\<close>

theorem noisy_loggers_from_warning_witness:
  "\<exists>r levels. configure_logging ''error'' True [] = Inr (r, levels) \<and>
     written levels ''urllib3.connectionpool'' 30 \<and> \<not> written levels ''src.main'' 30"
proof -
  have n: "numeric_level ''error'' = Inr 40" by code_simp
  then obtain r levels where c: "configure_logging ''error'' True [] = Inr (r, levels)"
    by (simp add: configure_logging_def)
  have "\<exists>m \<in> set noisy_loggers. below ''urllib3.connectionpool'' m" "\<not> (\<exists>m \<in> set noisy_loggers. below ''src.main'' m)"
    by (simp_all add: noisy_loggers_def below_def startswith_def)
  with noisy_loggers_from_warning [OF c, of "''urllib3.connectionpool''" 30]
    noisy_loggers_from_warning [OF c, of "''src.main''" 30] n
  have "written levels ''urllib3.connectionpool'' 30" "\<not> written levels ''src.main'' 30" by auto
  with c show ?thesis by blast
qed

end
