(* ===== verification/Storage.thy ===== *)
theory Storage
  imports Documents
begin

section \<open>The object store\<close>

text \<open>
  \<open>src/documents/storage.py\<close> over a store that may not have the bucket yet.  Of S3 the calls are used
  as documented: they succeed or fail with a \<open>ClientError\<close> that carries a code; a store that cannot
  be reached raises an exception of another kind, which the code does not catch.  Each call takes
  the fault that it meets, if any.
\<close>

datatype s3_fault = ClientError string string | TransportError string

type_synonym s3 = "bucket option"

definition head_bucket :: "s3_fault option \<Rightarrow> s3 \<Rightarrow> (s3_fault, unit) outcome" where
  "head_bucket fault s =
     (case (fault, s) of
        (Some e, _) \<Rightarrow> Inl e
      | (None, None) \<Rightarrow> Inl (ClientError ''404'' ''Not Found'')
      | (None, Some _) \<Rightarrow> Inr ())"

definition create_bucket :: "s3_fault option \<Rightarrow> s3 \<Rightarrow> (s3_fault, unit) outcome \<times> s3" where
  "create_bucket fault s =
     (case (fault, s) of
        (Some e, _) \<Rightarrow> (Inl e, s)
      | (None, None) \<Rightarrow> (Inr (), Some Map.empty)
      | (None, Some _) \<Rightarrow> (Inl (ClientError ''BucketAlreadyOwnedByYou'' ''The bucket is yours.''), s))"

definition put_object :: "s3_fault option \<Rightarrow> string \<Rightarrow> bytes \<Rightarrow> s3 \<Rightarrow> (s3_fault, unit) outcome \<times> s3" where
  "put_object fault key data s =
     (case (fault, s) of
        (Some e, _) \<Rightarrow> (Inl e, s)
      | (None, None) \<Rightarrow> (Inl (ClientError ''NoSuchBucket'' ''The bucket does not exist.''), s)
      | (None, Some b) \<Rightarrow> (Inr (), Some (b(key \<mapsto> data))))"

definition get_object :: "s3_fault option \<Rightarrow> string \<Rightarrow> s3 \<Rightarrow> (s3_fault, bytes) outcome" where
  "get_object fault key s =
     (case (fault, s) of
        (Some e, _) \<Rightarrow> Inl e
      | (None, None) \<Rightarrow> Inl (ClientError ''NoSuchBucket'' ''The bucket does not exist.'')
      | (None, Some b) \<Rightarrow> (case b key of None \<Rightarrow> Inl (ClientError ''NoSuchKey'' ''The key does not exist.'') | Some data \<Rightarrow> Inr data))"

definition delete_object :: "s3_fault option \<Rightarrow> string \<Rightarrow> s3 \<Rightarrow> (s3_fault, unit) outcome \<times> s3" where
  "delete_object fault key s =
     (case (fault, s) of
        (Some e, _) \<Rightarrow> (Inl e, s)
      | (None, None) \<Rightarrow> (Inl (ClientError ''NoSuchBucket'' ''The bucket does not exist.''), s)
      | (None, Some b) \<Rightarrow> (Inr (), Some (b(key := None))))"

text \<open>\<open>except ClientError as exc: raise ExternalServiceError("MinIO", str(exc))\<close>\<close>

definition minio :: "(s3_fault, 'a) outcome \<Rightarrow> (exn, 'a) outcome" where
  "minio x =
     (case x of
        Inl (ClientError code m) \<Rightarrow> Inl (App (ExternalServiceError ''MinIO'' m))
      | Inl (TransportError m) \<Rightarrow> Inl (OtherError m)
      | Inr y \<Rightarrow> Inr y)"

text \<open>
  \<open>ensure_bucket\<close>, with the faults of its two calls and what others do between them.
\<close>

definition ensure_bucket :: "s3_fault option \<Rightarrow> s3_fault option \<Rightarrow> (s3 \<Rightarrow> s3) \<Rightarrow> s3 \<Rightarrow> (exn, unit) outcome \<times> s3" where
  "ensure_bucket head_fault create_fault meanwhile s =
     (case head_bucket head_fault s of
        Inr _ \<Rightarrow> (Inr (), s)
      | Inl (TransportError m) \<Rightarrow> (minio (Inl (TransportError m)), s)
      | Inl (ClientError code m) \<Rightarrow>
          if code \<in> {''404'', ''NoSuchBucket''}
          then (case create_bucket create_fault (meanwhile s) of
                  (Inr _, s') \<Rightarrow> (Inr (), s')
                | (Inl (ClientError create_code cm), s') \<Rightarrow>
                    if create_code \<in> {''BucketAlreadyOwnedByYou'', ''BucketAlreadyExists''} then (Inr (), s')
                    else (minio (Inl (ClientError create_code cm)), s')
                | (Inl (TransportError cm), s') \<Rightarrow> (minio (Inl (TransportError cm)), s'))
          else (minio (Inl (ClientError code m)), s))"

definition object_upload :: "s3_fault option \<Rightarrow> string \<Rightarrow> bytes \<Rightarrow> s3 \<Rightarrow> (exn, unit) outcome \<times> s3" where
  "object_upload fault key data s = (case put_object fault key data s of (r, s') \<Rightarrow> (minio r, s'))"

definition object_download :: "s3_fault option \<Rightarrow> string \<Rightarrow> s3 \<Rightarrow> (exn, bytes) outcome" where
  "object_download fault key s = minio (get_object fault key s)"

definition object_delete :: "s3_fault option \<Rightarrow> string \<Rightarrow> s3 \<Rightarrow> (exn, unit) outcome \<times> s3" where
  "object_delete fault key s = (case delete_object fault key s of (r, s') \<Rightarrow> (minio r, s'))"

text \<open>On a bucket that exists, these are the calls that \<open>Documents\<close> makes.\<close>

lemma object_upload_bucket:
  "object_upload (map_option (ClientError code) fault) key data (Some b) = apsnd Some (storage_upload fault key data b)"
  by (cases fault) (simp_all add: object_upload_def storage_upload_def put_object_def minio_def)

lemma object_delete_bucket:
  "object_delete (map_option (ClientError code) fault) key (Some b) = apsnd Some (storage_delete fault key b)"
  by (cases fault) (simp_all add: object_delete_def storage_delete_def delete_object_def minio_def)

text \<open>
  The bucket is there after \<open>ensure_bucket\<close>, also under races.  Whatever
  others do between its two calls, without a fault it returns; the bucket then exists, with the
  contents it had or that others gave it in the meantime, and ensuring it again changes nothing.
\<close>

theorem ensure_bucket_establishes:
  "\<exists>b. ensure_bucket None None meanwhile s = (Inr (), Some b) \<and>
    (case s of
       Some old \<Rightarrow> b = old
     | None \<Rightarrow> (case meanwhile None of Some theirs \<Rightarrow> b = theirs | None \<Rightarrow> b = Map.empty)) \<and>
    ensure_bucket None create_fault meanwhile' (Some b) = (Inr (), Some b)"
  by (cases s; cases "meanwhile s")
    (simp_all add: ensure_bucket_def head_bucket_def create_bucket_def)

text \<open>
  A refused call is reported, and leaves the store to the others: every \<open>ClientError\<close> but the two
  that say the bucket exists becomes an \<open>ExternalServiceError\<close> (status 502), whereas a store that
  cannot be reached is an unexpected error (status 500) in every operation.
\<close>

lemma transport_error_is_unexpected:
  "ensure_bucket (Some (TransportError m)) create_fault meanwhile s = (Inl (OtherError m), s)"
  "object_upload (Some (TransportError m)) key data s = (Inl (OtherError m), s)"
  "object_download (Some (TransportError m)) key s = Inl (OtherError m)"
  "object_delete (Some (TransportError m)) key s = (Inl (OtherError m), s)"
  by (simp_all add: ensure_bucket_def head_bucket_def object_upload_def put_object_def object_download_def get_object_def
      object_delete_def delete_object_def minio_def split: option.split)

text \<open>
  What was uploaded is downloaded.  After an upload that returned, the key
  holds the contents until it is deleted, after which a download fails as an external error; every
  other key holds what it held before, in both cases.  An upload that failed has changed nothing.
\<close>

theorem object_roundtrip:
  assumes "object_upload fault key data s = (r, s1)"
  shows "case r of
    Inl _ \<Rightarrow> s1 = s
  | Inr _ \<Rightarrow> (\<exists>s2. object_delete None key s1 = (Inr (), s2) \<and>
      (\<forall>k. object_download None k s1 = (if k = key then Inr data else object_download None k s) \<and>
           object_download None k s2 =
             (if k = key then Inl (App (ExternalServiceError ''MinIO'' ''The key does not exist.''))
              else object_download None k s)))"
  using assms
  by (cases fault; cases s)
    (auto simp: object_upload_def put_object_def object_download_def get_object_def object_delete_def delete_object_def
       minio_def split: s3_fault.splits)

theorem object_roundtrip_witness:
  "object_download None ''k'' (snd (object_upload None ''k'' ''data'' (Some Map.empty))) = Inr ''data''"
proof -
  have up: "object_upload None ''k'' ''data'' (Some Map.empty) = (Inr (), Some [''k'' \<mapsto> ''data''])"
    by (simp add: object_upload_def put_object_def minio_def)
  from object_roundtrip [OF up] show ?thesis unfolding up by auto
qed

end
