(* ===== verification/Lifecycle.thy ===== *)
theory Lifecycle
  imports Configuration Logging Breaker Storage
begin

section \<open>What a process owns\<close>

text \<open>
  The objects that live as long as a process and are made when they are first needed: the engine and
  the session factory of \<open>Database\<close> (\<open>src/core/database.py\<close>), the rate limiter of
  \<open>src/core/rate_limit.py\<close>, the object store, the embedding model (\<open>src/ingestion/pipeline.py\<close>) and the
  LLM gateway (\<open>src/evaluation/llm_gateway.py\<close>) that the routes keep on the application's state, the
  same ones of the adapter in \<open>mcp_server/adapters/research_platform.py\<close>, and the \<open>lifespan\<close> of
  \<open>src/main.py\<close>.  The table of open connection pools says what is held: those of the two servers that
  the application opens and closes itself, and the clients of other services, each with the
  connections its library keeps for it, from its construction on.
\<close>

subsection \<open>Connection pools\<close>

record object_storage =
  os_endpoint :: string
  os_access_key :: string
  os_secret_key :: string
  os_bucket :: string

datatype pool =
    EnginePool string int int int int
  | RedisPool string
  | S3Client object_storage
  | GeminiClient "string \<times> string"
  | GroqClient string
  | TavilyClient string

fun is_client :: "pool \<Rightarrow> bool" where
  "is_client (EnginePool _ _ _ _ _) \<longleftrightarrow> False"
| "is_client (RedisPool _) \<longleftrightarrow> False"
| "is_client _ \<longleftrightarrow> True"

record pool_table =
  pt_next :: nat
  pt_open :: "(nat \<times> pool) list"

definition open_pool :: "pool \<Rightarrow> pool_table \<Rightarrow> nat \<times> pool_table" where
  "open_pool p t = (pt_next t, t \<lparr>pt_next := Suc (pt_next t), pt_open := pt_open t @ [(pt_next t, p)]\<rparr>)"

definition close_pool :: "nat \<Rightarrow> pool_table \<Rightarrow> pool_table" where
  "close_pool n t = t \<lparr>pt_open := filter (\<lambda>(i, _). i \<noteq> n) (pt_open t)\<rparr>"

definition pools_wf :: "pool_table \<Rightarrow> bool" where
  "pools_wf t \<longleftrightarrow> distinct (map fst (pt_open t)) \<and> (\<forall>(i, _) \<in> set (pt_open t). i < pt_next t)"

definition server_pools :: "pool_table \<Rightarrow> (nat \<times> pool) list" where
  "server_pools t = filter (\<lambda>(_, p). \<not> is_client p) (pt_open t)"

definition client_pools :: "pool_table \<Rightarrow> (nat \<times> pool) list" where
  "client_pools t = filter (\<lambda>(_, p). is_client p) (pt_open t)"

lemma open_pool_keeps: "pools_wf t \<Longrightarrow> pools_wf (snd (open_pool p t))"
  by (fastforce simp: pools_wf_def open_pool_def)

lemma close_pool_keeps: "pools_wf t \<Longrightarrow> pools_wf (close_pool n t)"
  by (auto simp: pools_wf_def close_pool_def intro!: distinct_map_filter)

lemma open_client: "is_client p \<Longrightarrow> server_pools (snd (open_pool p t)) = server_pools t"
  by (simp add: server_pools_def open_pool_def)

lemma close_client:
  assumes "pools_wf t" and "(n, p) \<in> set (pt_open t)" and "is_client p"
  shows "server_pools (close_pool n t) = server_pools t"
proof -
  have "i \<noteq> n" if "(i, q) \<in> set (pt_open t)" "\<not> is_client q" for i q
    using assms that eq_key_imp_eq_value [of "pt_open t" n p q] by (auto simp: pools_wf_def)
  then show ?thesis
    unfolding server_pools_def close_pool_def by (auto simp: filter_filter intro!: filter_cong)
qed

lemma close_server:
  assumes "pools_wf t" and "(n, p) \<in> set (pt_open t)" and "\<not> is_client p"
  shows "client_pools (close_pool n t) = client_pools t"
    and "server_pools (close_pool n t) = filter (\<lambda>(i, _). i \<noteq> n) (server_pools t)"
proof -
  have "i \<noteq> n" if "(i, q) \<in> set (pt_open t)" "is_client q" for i q
    using assms that eq_key_imp_eq_value [of "pt_open t" n p q] by (auto simp: pools_wf_def)
  then show "client_pools (close_pool n t) = client_pools t"
    unfolding client_pools_def close_pool_def by (auto simp: filter_filter intro!: filter_cong)
  show "server_pools (close_pool n t) = filter (\<lambda>(i, _). i \<noteq> n) (server_pools t)"
    unfolding server_pools_def close_pool_def by (auto simp: filter_filter intro!: filter_cong)
qed

subsection \<open>The database\<close>

text \<open>A session factory is known by the engine it is bound to.\<close>

record db_handle =
  dh_settings :: settings
  dh_engine :: "nat option"
  dh_factory :: "nat option"

definition new_db_handle :: "settings \<Rightarrow> db_handle" where
  "new_db_handle st = \<lparr>dh_settings = st, dh_engine = None, dh_factory = None\<rparr>"

definition engine_pool :: "settings \<Rightarrow> pool" where
  "engine_pool st =
     EnginePool (str_setting st ''database_url'') (int_setting st ''database_pool_size'')
       (int_setting st ''database_max_overflow'') (int_setting st ''database_pool_timeout'')
       (int_setting st ''database_pool_recycle'')"

definition engine :: "db_handle \<Rightarrow> pool_table \<Rightarrow> nat \<times> db_handle \<times> pool_table" where
  "engine h t =
     (case dh_engine h of
        Some e \<Rightarrow> (e, h, t)
      | None \<Rightarrow> (case open_pool (engine_pool (dh_settings h)) t of (e, t1) \<Rightarrow> (e, h \<lparr>dh_engine := Some e\<rparr>, t1)))"

definition session_factory :: "db_handle \<Rightarrow> pool_table \<Rightarrow> nat \<times> db_handle \<times> pool_table" where
  "session_factory h t =
     (case dh_factory h of
        Some f \<Rightarrow> (f, h, t)
      | None \<Rightarrow> (case engine h t of (e, h1, t1) \<Rightarrow> (e, h1 \<lparr>dh_factory := Some e\<rparr>, t1)))"

definition dispose :: "db_handle \<Rightarrow> pool_table \<Rightarrow> db_handle \<times> pool_table" where
  "dispose h t =
     (case dh_engine h of
        None \<Rightarrow> (h, t)
      | Some e \<Rightarrow> (h \<lparr>dh_engine := None, dh_factory := None\<rparr>, close_pool e t))"

definition handle_wf :: "db_handle \<Rightarrow> bool" where
  "handle_wf h \<longleftrightarrow> dh_factory h = None \<or> dh_factory h = dh_engine h"

text \<open>A session always comes from the engine that is open, and at most one engine is.\<close>

lemma session_factory_engine:
  "handle_wf h \<Longrightarrow> session_factory h t = (f, h1, t1) \<Longrightarrow> dh_engine h1 = Some f \<and> dh_factory h1 = Some f \<and> handle_wf h1"
  by (auto simp: session_factory_def engine_def handle_wf_def split: option.splits prod.splits)

lemma session_factory_again:
  "session_factory h t = (f, h1, t1) \<Longrightarrow> session_factory h1 t' = (f, h1, t')"
  by (auto simp: session_factory_def engine_def split: option.splits prod.splits)

lemma dispose_closes:
  assumes "handle_wf h" and "pools_wf t" and "dh_engine h = None" and "session_factory h t = (f, h1, t1)"
  shows "pt_open (snd (dispose h1 t1)) = pt_open t" and "dh_engine (fst (dispose h1 t1)) = None"
    and "dh_factory (fst (dispose h1 t1)) = None"
  using assms
  by (fastforce simp: session_factory_def engine_def dispose_def open_pool_def close_pool_def handle_wf_def pools_wf_def
      filter_id_conv split: option.splits)+

subsection \<open>The rate limiter\<close>

definition init_rate_limiter :: "string \<Rightarrow> pool_table \<Rightarrow> nat option \<times> pool_table" where
  "init_rate_limiter redis_url t = (case open_pool (RedisPool redis_url) t of (l, t1) \<Rightarrow> (Some l, t1))"

text \<open>
  \<open>close\<close> calls \<open>aclose\<close> on a client that was made for a given pool.  Whether that disconnects the pool
  is a parameter; the documentation of redis-py says that it does not.
\<close>

definition close_rate_limiter :: "bool \<Rightarrow> nat option \<Rightarrow> pool_table \<Rightarrow> nat option \<times> pool_table" where
  "close_rate_limiter aclose_disconnects limiter t =
     (case limiter of
        None \<Rightarrow> (None, t)
      | Some l \<Rightarrow> (None, if aclose_disconnects then close_pool l t else t))"

definition get_rate_limiter :: "string \<Rightarrow> nat option \<Rightarrow> pool_table \<Rightarrow> nat \<times> pool_table" where
  "get_rate_limiter redis_url limiter t =
     (case limiter of Some l \<Rightarrow> (l, t) | None \<Rightarrow> open_pool (RedisPool redis_url) t)"

text \<open>Without a limiter each call makes a new one with a pool of its own, and keeps it nowhere.\<close>

lemma limiters_without_init:
  "pt_open (((\<lambda>t. snd (get_rate_limiter url None t)) ^^ n) t) =
     pt_open t @ map (\<lambda>i. (pt_next t + i, RedisPool url)) [0..<n] \<and>
   pt_next (((\<lambda>t. snd (get_rate_limiter url None t)) ^^ n) t) = pt_next t + n"
  by (induction n) (simp_all add: get_rate_limiter_def open_pool_def)

subsection \<open>The objects the routes keep\<close>

definition make_object_storage :: "settings \<Rightarrow> object_storage" where
  "make_object_storage st =
     \<lparr>os_endpoint = str_setting st ''minio_endpoint'', os_access_key = str_setting st ''minio_access_key'',
      os_secret_key = str_setting st ''minio_secret_key'', os_bucket = str_setting st ''minio_bucket_name''\<rparr>"

type_synonym loaded_model = "string list \<Rightarrow> rat list list"

record embedding_model =
  em_model_name :: string
  em_dim :: int
  em_model :: "loaded_model option"

definition make_embedder :: "settings \<Rightarrow> embedding_model" where
  "make_embedder st =
     \<lparr>em_model_name = str_setting st ''embedding_model_name'', em_dim = int_setting st ''embedding_dimension'',
      em_model = None\<rparr>"

text \<open>\<open>_load\<close> and \<open>encode\<close>; loading a model by its name is a parameter and may fail.\<close>

definition load_model :: "(string \<Rightarrow> (exn, loaded_model) outcome) \<Rightarrow> embedding_model \<Rightarrow> (exn, loaded_model) outcome \<times> embedding_model" where
  "load_model sentence_transformer em =
     (case em_model em of
        Some f \<Rightarrow> (Inr f, em)
      | None \<Rightarrow>
          (case sentence_transformer (em_model_name em) of
             Inl e \<Rightarrow> (Inl e, em)
           | Inr f \<Rightarrow> (Inr f, em \<lparr>em_model := Some f\<rparr>)))"

definition encode ::
  "(string \<Rightarrow> (exn, loaded_model) outcome) \<Rightarrow> string list \<Rightarrow> embedding_model \<Rightarrow> (exn, rat list list) outcome \<times> embedding_model" where
  "encode sentence_transformer texts em =
     (case load_model sentence_transformer em of (r, em1) \<Rightarrow> (map_sum id (\<lambda>f. f texts) r, em1))"

record llm_gateway =
  gw_model_name :: string
  gw_api_key :: string
  gw_timeout :: int
  gw_max_retries :: int
  gw_rate :: "int \<times> int"
  gw_concurrency :: int
  gw_circuit :: circuit_breaker
  gw_client :: "(string \<times> string) option"

text \<open>\<open>LLMGateway(settings)\<close>; a semaphore refuses a negative value.\<close>

definition make_llm_gateway :: "settings \<Rightarrow> (exn, llm_gateway) outcome" where
  "make_llm_gateway st =
     (if int_setting st ''llm_concurrency_limit'' < 0
      then Inl (ValueError ''Semaphore initial value must be >= 0'')
      else Inr \<lparr>gw_model_name = str_setting st ''llm_model_name'', gw_api_key = str_setting st ''google_api_key'',
                gw_timeout = int_setting st ''llm_timeout_seconds'', gw_max_retries = int_setting st ''llm_max_retries'',
                gw_rate = (int_setting st ''llm_rate_limit_rpm'', 60),
                gw_concurrency = int_setting st ''llm_concurrency_limit'', gw_circuit = new_gateway, gw_client = None\<rparr>)"

definition get_client :: "llm_gateway \<Rightarrow> (string \<times> string) \<times> llm_gateway" where
  "get_client gw =
     (case gw_client gw of
        Some c \<Rightarrow> (c, gw)
      | None \<Rightarrow> (let c = (gw_api_key gw, gw_model_name gw) in (c, gw \<lparr>gw_client := Some c\<rparr>)))"

definition circuit_of :: "llm_gateway \<Rightarrow> string" where
  "circuit_of gw = circuit_state_str (cb_state (gw_circuit gw))"

subsection \<open>The application's process\<close>

text \<open>\<open>pr_settings\<close> is the cache of \<open>get_settings\<close>, the others are \<open>app.state\<close> and the global limiter.\<close>

record process_state =
  pr_settings :: "settings option"
  pr_levels :: log_levels
  pr_renderer :: "renderer option"
  pr_db :: "db_handle option"
  pr_limiter :: "nat option"
  pr_storage :: "object_storage option"
  pr_embedder :: "embedding_model option"
  pr_gateway :: "llm_gateway option"
  pr_pools :: pool_table

definition new_process :: "pool_table \<Rightarrow> process_state" where
  "new_process t =
     \<lparr>pr_settings = None, pr_levels = [], pr_renderer = None, pr_db = None, pr_limiter = None, pr_storage = None,
      pr_embedder = None, pr_gateway = None, pr_pools = t\<rparr>"

definition settings_error :: "string list \<Rightarrow> exn" where
  "settings_error bad = ValueError (concat bad)"

text \<open>\<open>lifespan\<close> up to its \<open>yield\<close>, and after it.\<close>

definition startup :: "env_reader \<Rightarrow> environ \<Rightarrow> environ \<Rightarrow> process_state \<Rightarrow> (exn, unit) outcome \<times> process_state" where
  "startup rd env dotenv pr =
     (case get_settings rd env dotenv (pr_settings pr) of
        (Inl bad, cache) \<Rightarrow> (Inl (settings_error bad), pr \<lparr>pr_settings := cache\<rparr>)
      | (Inr st, cache) \<Rightarrow>
          (case configure_logging (str_setting st ''log_level'') (is_production st) (pr_levels pr) of
             Inl e \<Rightarrow> (Inl e, pr \<lparr>pr_settings := cache\<rparr>)
           | Inr (r, levels) \<Rightarrow>
               (case engine (new_db_handle st) (pr_pools pr) of
                  (_, h, t1) \<Rightarrow>
                    (case init_rate_limiter (str_setting st ''redis_url'') t1 of
                       (l, t2) \<Rightarrow>
                         (Inr (), pr \<lparr>pr_settings := cache, pr_levels := levels, pr_renderer := Some r, pr_db := Some h,
                                      pr_limiter := l, pr_pools := t2\<rparr>)))))"

definition shutdown :: "bool \<Rightarrow> process_state \<Rightarrow> process_state" where
  "shutdown aclose_disconnects pr =
     (case close_rate_limiter aclose_disconnects (pr_limiter pr) (pr_pools pr) of
        (l, t1) \<Rightarrow>
          (case pr_db pr of
             None \<Rightarrow> pr \<lparr>pr_limiter := l, pr_pools := t1\<rparr>
           | Some h \<Rightarrow> (case dispose h t1 of (h1, t2) \<Rightarrow> pr \<lparr>pr_limiter := l, pr_db := Some h1, pr_pools := t2\<rparr>)))"

text \<open>\<open>_get_storage\<close>, \<open>_get_embedder\<close>, \<open>_get_llm_gateway\<close> of the routes, with the cached settings.\<close>

definition get_storage :: "settings \<Rightarrow> process_state \<Rightarrow> object_storage \<times> process_state" where
  "get_storage st pr =
     (case pr_storage pr of
        Some os \<Rightarrow> (os, pr)
      | None \<Rightarrow>
          (let os = make_object_storage st
           in (os, pr \<lparr>pr_storage := Some os, pr_pools := snd (open_pool (S3Client os) (pr_pools pr))\<rparr>)))"

definition get_embedder :: "settings \<Rightarrow> process_state \<Rightarrow> embedding_model \<times> process_state" where
  "get_embedder st pr =
     (case pr_embedder pr of
        Some em \<Rightarrow> (em, pr)
      | None \<Rightarrow> (let em = make_embedder st in (em, pr \<lparr>pr_embedder := Some em\<rparr>)))"

definition get_llm_gateway :: "settings \<Rightarrow> process_state \<Rightarrow> (exn, llm_gateway) outcome \<times> process_state" where
  "get_llm_gateway st pr =
     (case pr_gateway pr of
        Some gw \<Rightarrow> (Inr gw, pr)
      | None \<Rightarrow>
          (case make_llm_gateway st of
             Inl e \<Rightarrow> (Inl e, pr)
           | Inr gw \<Rightarrow> (Inr gw, pr \<lparr>pr_gateway := Some gw\<rparr>)))"

text \<open>
  What the requests of a process do to it, in any order and interleaving: open a session, take the
  limiter, take one of the objects, encode texts, on the gateway make the client or call the
  breaker, and make a client for Groq or Tavily, which every search with a key for them does anew.
  Such a client is nowhere kept or closed; it may be released with the object that holds it, which
  the last step allows for any client.
\<close>

inductive request_step :: "process_state \<Rightarrow> process_state \<Rightarrow> bool" where
  opens_session: "pr_db pr = Some h \<Longrightarrow> session_factory h (pr_pools pr) = (f, h1, t1) \<Longrightarrow>
     request_step pr (pr \<lparr>pr_db := Some h1, pr_pools := t1\<rparr>)"
| takes_limiter: "pr_settings pr = Some st \<Longrightarrow>
     get_rate_limiter (str_setting st ''redis_url'') (pr_limiter pr) (pr_pools pr) = (l, t1) \<Longrightarrow>
     request_step pr (pr \<lparr>pr_pools := t1\<rparr>)"
| takes_storage: "pr_settings pr = Some st \<Longrightarrow> get_storage st pr = (os, pr1) \<Longrightarrow> request_step pr pr1"
| takes_embedder: "pr_settings pr = Some st \<Longrightarrow> get_embedder st pr = (em, pr1) \<Longrightarrow> request_step pr pr1"
| encodes: "pr_embedder pr = Some em \<Longrightarrow> encode sentence_transformer texts em = (r, em1) \<Longrightarrow>
     request_step pr (pr \<lparr>pr_embedder := Some em1\<rparr>)"
| takes_gateway: "pr_settings pr = Some st \<Longrightarrow> get_llm_gateway st pr = (r, pr1) \<Longrightarrow> request_step pr pr1"
| makes_client: "pr_gateway pr = Some gw \<Longrightarrow> get_client gw = (c, gw1) \<Longrightarrow>
     request_step pr (pr \<lparr>pr_gateway := Some gw1,
       pr_pools := (if gw_client gw = None then snd (open_pool (GeminiClient c) (pr_pools pr)) else pr_pools pr)\<rparr>)"
| calls_breaker: "pr_gateway pr = Some gw \<Longrightarrow> breaker_step ev (gw_circuit gw) = (r, cb) \<Longrightarrow>
     request_step pr (pr \<lparr>pr_gateway := Some (gw \<lparr>gw_circuit := cb\<rparr>)\<rparr>)"
| asks_groq: "pr_settings pr = Some st \<Longrightarrow> str_setting st ''groq_api_key'' \<noteq> [] \<Longrightarrow>
     request_step pr (pr \<lparr>pr_pools := snd (open_pool (GroqClient (str_setting st ''groq_api_key'')) (pr_pools pr))\<rparr>)"
| asks_tavily: "pr_settings pr = Some st \<Longrightarrow> str_setting st ''tavily_api_key'' \<noteq> [] \<Longrightarrow>
     request_step pr (pr \<lparr>pr_pools := snd (open_pool (TavilyClient (str_setting st ''tavily_api_key'')) (pr_pools pr))\<rparr>)"
| releases: "(n, p) \<in> set (pt_open (pr_pools pr)) \<Longrightarrow> is_client p \<Longrightarrow>
     request_step pr (pr \<lparr>pr_pools := close_pool n (pr_pools pr)\<rparr>)"

text \<open>
  \<open>_get_storage\<close>, \<open>_get_embedder\<close> and \<open>_get_llm_gateway\<close> are plain functions, which FastAPI runs in a thread
  pool: two first requests may both find no object and make one each, of which the later replaces
  the earlier.
\<close>

inductive racing_step :: "process_state \<Rightarrow> process_state \<Rightarrow> bool" where
  in_order: "request_step pr pr' \<Longrightarrow> racing_step pr pr'"
| storage_again: "pr_settings pr = Some st \<Longrightarrow> os = make_object_storage st \<Longrightarrow>
     racing_step pr (pr \<lparr>pr_storage := Some os, pr_pools := snd (open_pool (S3Client os) (pr_pools pr))\<rparr>)"
| embedder_again: "pr_settings pr = Some st \<Longrightarrow> racing_step pr (pr \<lparr>pr_embedder := Some (make_embedder st)\<rparr>)"
| gateway_again: "pr_settings pr = Some st \<Longrightarrow> make_llm_gateway st = Inr gw \<Longrightarrow>
     racing_step pr (pr \<lparr>pr_gateway := Some gw\<rparr>)"

subsection \<open>What a process holds while it serves\<close>

text \<open>
  Between startup and shutdown: one engine, to which the session factory is bound, one pool for the
  limiter, what was open before, and clients.
\<close>

definition serving :: "settings \<Rightarrow> pool_table \<Rightarrow> process_state \<Rightarrow> bool" where
  "serving st t pr \<longleftrightarrow>
     pr_settings pr = Some st \<and>
     (\<exists>h. pr_db pr = Some h \<and> handle_wf h \<and> dh_engine h = Some (pt_next t)) \<and>
     pr_limiter pr = Some (Suc (pt_next t)) \<and> pools_wf t \<and> pools_wf (pr_pools pr) \<and>
     server_pools (pr_pools pr) =
       server_pools t @ [(pt_next t, engine_pool st), (Suc (pt_next t), RedisPool (str_setting st ''redis_url''))]"

definition started :: "settings \<Rightarrow> pool_table \<Rightarrow> process_state \<Rightarrow> bool" where
  "started st t pr \<longleftrightarrow> pools_wf t \<and>
     (\<exists>rd env dotenv pr0. startup rd env dotenv pr0 = (Inr (), pr) \<and> pr_pools pr0 = t \<and> pr_settings pr = Some st)"

lemma engine_pool_server [simp]: "\<not> is_client (engine_pool st)"
  by (simp add: engine_pool_def)

lemma startup_Inr:
  assumes "startup rd env dotenv pr0 = (Inr (), pr)" and "pools_wf (pr_pools pr0)"
  shows "\<exists>st. pr_settings pr = Some st \<and> serving st (pr_pools pr0) pr"
proof -
  obtain st cache where st: "get_settings rd env dotenv (pr_settings pr0) = (Inr st, cache)"
    using assms by (cases "get_settings rd env dotenv (pr_settings pr0)") (auto simp: startup_def split: sum.splits)
  then have cache: "cache = Some st" by (auto simp: get_settings_def split: option.splits sum.splits)
  obtain r levels where "configure_logging (str_setting st ''log_level'') (is_production st) (pr_levels pr0) = Inr (r, levels)"
    using assms st by (auto simp: startup_def split: sum.splits)
  moreover have "pools_wf (snd (open_pool p (snd (open_pool q (pr_pools pr0)))))" for p q
    using assms(2) by (intro open_pool_keeps)
  ultimately show ?thesis using assms st cache
    by (auto simp: startup_def serving_def engine_def new_db_handle_def open_pool_def init_rate_limiter_def handle_wf_def
        server_pools_def)
qed

lemma startup_serving: "started st t pr \<Longrightarrow> serving st t pr"
  using startup_Inr by (fastforce simp: started_def)

lemma request_keeps_serving:
  assumes "request_step pr pr'" and "serving st t pr"
  shows "serving st t pr'"
  using assms
proof (induction rule: request_step.induct)
  case (opens_session pr h f h1 t1)
  then show ?case
    by (auto simp: serving_def session_factory_def engine_def handle_wf_def split: option.splits)
qed (auto simp: serving_def get_rate_limiter_def get_storage_def get_embedder_def get_llm_gateway_def Let_def
     open_client open_pool_keeps close_client close_pool_keeps split: option.splits sum.splits)

lemma racing_keeps_serving:
  assumes "racing_step pr pr'" and "serving st t pr"
  shows "serving st t pr'"
  using assms
proof (induction rule: racing_step.induct)
  case (in_order pr pr')
  then show ?case by (rule request_keeps_serving)
qed (auto simp: serving_def open_client open_pool_keeps)

interpretation app: transition_invariant "started st t" racing_step "serving st t" for st t
  by unfold_locales (auto intro: startup_serving racing_keeps_serving)

lemma server_pools_mem: "x \<in> set (server_pools t) \<Longrightarrow> x \<in> set (pt_open t) \<and> \<not> is_client (snd x)"
  by (auto simp: server_pools_def)

lemma shutdown_serving:
  assumes s: "serving st t pr"
  shows "server_pools (pr_pools (shutdown aclose_disconnects pr)) =
      server_pools t @ (if aclose_disconnects then [] else [(Suc (pt_next t), RedisPool (str_setting st ''redis_url''))])"
    and "client_pools (pr_pools (shutdown aclose_disconnects pr)) = client_pools (pr_pools pr)"
proof -
  let ?e = "pt_next t" and ?l = "Suc (pt_next t)" and ?t = "pr_pools pr"
  have old: "filter (\<lambda>(i, _). i \<noteq> n) (server_pools t) = server_pools t" if "pt_next t \<le> n" for n
  proof -
    from s have "pools_wf t" by (simp add: serving_def)
    with that have "i \<noteq> n" if "(i, p) \<in> set (server_pools t)" for i p
      using that by (auto simp: pools_wf_def server_pools_def)
    then show ?thesis by (auto simp: filter_id_conv)
  qed
  have pools: "server_pools ?t = server_pools t @ [(?e, engine_pool st), (?l, RedisPool (str_setting st ''redis_url''))]"
    and wf: "pools_wf ?t" using s by (simp_all add: serving_def)
  then have l: "(?l, RedisPool (str_setting st ''redis_url'')) \<in> set (pt_open ?t)"
    and e: "(?e, engine_pool st) \<in> set (pt_open ?t)" using server_pools_mem [of _ ?t] by auto
  note limiter = close_server [OF wf l]
  have "(?e, engine_pool st) \<in> set (pt_open (close_pool ?l ?t))" using e by (simp add: close_pool_def)
  note both = close_server [OF close_pool_keeps [OF wf] this]
  show "server_pools (pr_pools (shutdown aclose_disconnects pr)) =
      server_pools t @ (if aclose_disconnects then [] else [(?l, RedisPool (str_setting st ''redis_url''))])"
    using s close_server(2) [OF wf e] limiter(2) both(2)
    by (auto simp: serving_def shutdown_def close_rate_limiter_def dispose_def pools old)
  show "client_pools (pr_pools (shutdown aclose_disconnects pr)) = client_pools ?t"
    using s close_server(1) [OF wf e] limiter(1) both(1)
    by (auto simp: serving_def shutdown_def close_rate_limiter_def dispose_def)
qed



subsection \<open>What the requests share\<close>

lemma final_state_append: "final_state step (es @ es') s = final_state step es' (final_state step es s)"
  by (induction es arbitrary: s) simp_all

definition shares :: "process_state \<Rightarrow> process_state \<Rightarrow> bool" where
  "shares pr pr' \<longleftrightarrow>
     (\<forall>os. pr_storage pr = Some os \<longrightarrow> pr_storage pr' = Some os) \<and>
     (\<forall>em. pr_embedder pr = Some em \<longrightarrow> (\<exists>em'. pr_embedder pr' = Some em' \<and> em_model_name em' = em_model_name em \<and>
        em_dim em' = em_dim em \<and> (em_model em \<noteq> None \<longrightarrow> em_model em' = em_model em))) \<and>
     (\<forall>gw. pr_gateway pr = Some gw \<longrightarrow> (\<exists>c es. pr_gateway pr' =
        Some (gw \<lparr>gw_client := c, gw_circuit := final_state breaker_step es (gw_circuit gw)\<rparr>) \<and>
        (gw_client gw \<noteq> None \<longrightarrow> c = gw_client gw)))"

lemma shares_pools [simp]: "shares pr (pr1 \<lparr>pr_pools := t\<rparr>) = shares pr pr1"
  by (simp add: shares_def)

lemma shares_refl: "shares pr pr"
proof -
  have "\<exists>c es. gw = gw \<lparr>gw_client := c, gw_circuit := final_state breaker_step es (gw_circuit gw)\<rparr> \<and>
      (gw_client gw \<noteq> None \<longrightarrow> c = gw_client gw)" for gw
    by (intro exI [of _ "gw_client gw"] exI [of _ "[]"]) simp
  then show ?thesis by (auto simp: shares_def)
qed

lemma shares_gateway:
  assumes "shares pr pr1" and "pr_gateway pr1 = Some gw1" and "\<And>gw. pr_gateway pr = Some gw \<Longrightarrow>
     (gw_client gw1 \<noteq> None \<longrightarrow> c = gw_client gw1)"
  shows "shares pr (pr1 \<lparr>pr_gateway := Some (gw1 \<lparr>gw_client := c, gw_circuit := final_state breaker_step es (gw_circuit gw1)\<rparr>)\<rparr>)"
proof -
  have "\<exists>c' es'. gw1 \<lparr>gw_client := c, gw_circuit := final_state breaker_step es (gw_circuit gw1)\<rparr> =
      gw \<lparr>gw_client := c', gw_circuit := final_state breaker_step es' (gw_circuit gw)\<rparr> \<and> (gw_client gw \<noteq> None \<longrightarrow> c' = gw_client gw)"
    if gw: "pr_gateway pr = Some gw" for gw
  proof -
    from assms(1,2) gw obtain c0 es0 where g: "gw1 = gw \<lparr>gw_client := c0, gw_circuit := final_state breaker_step es0 (gw_circuit gw)\<rparr>"
      "gw_client gw \<noteq> None \<longrightarrow> c0 = gw_client gw" by (auto simp: shares_def)
    with assms(3) [OF gw] show ?thesis
      by (intro exI [of _ c] exI [of _ "es0 @ es"]) (auto simp: final_state_append)
  qed
  with assms(1) show ?thesis by (auto simp: shares_def)
qed

lemma request_keeps_shares:
  assumes "request_step pr1 pr2" and "shares pr pr1"
  shows "shares pr pr2"
  using assms
proof (induction rule: request_step.induct)
  case (makes_client pr1 gw c gw1)
  have "gw1 = gw \<lparr>gw_client := gw_client gw1, gw_circuit := final_state breaker_step [] (gw_circuit gw)\<rparr>"
    "gw_client gw \<noteq> None \<longrightarrow> gw_client gw1 = gw_client gw"
    using makes_client(2) by (auto simp: get_client_def Let_def split: option.splits)
  with shares_gateway [OF makes_client(3,1), of "gw_client gw1" "[]"] have "shares pr (pr1 \<lparr>pr_gateway := Some gw1\<rparr>)"
    by metis
  then show ?case by (simp only: shares_pools)
next
  case (calls_breaker pr1 gw ev r cb)
  have "gw \<lparr>gw_circuit := cb\<rparr> = gw \<lparr>gw_client := gw_client gw, gw_circuit := final_state breaker_step [ev] (gw_circuit gw)\<rparr>"
    using calls_breaker(2) by simp
  with shares_gateway [OF calls_breaker(3,1), of "gw_client gw" "[ev]"] show ?case by metis
next
  case (encodes pr1 em st texts r em1)
  then show ?case by (fastforce simp: shares_def encode_def load_model_def split: option.splits sum.splits)
qed (auto simp: shares_def get_storage_def get_embedder_def get_llm_gateway_def Let_def split: option.splits sum.splits)

interpretation sharing: transition_invariant "(=) pr" request_step "shares pr" for pr
  by unfold_locales (auto intro: shares_refl request_keeps_shares)

text \<open>
  The requests of a process share one gateway, one store and one model, unless its first requests
  race to make them.  An object that a request has made serves all later ones: the breaker they see
  is the earlier one after the calls made since, so that failures of one request count for the
  next; the client and the loaded model stay.
\<close>

theorem requests_share_objects:
  assumes "request_step\<^sup>*\<^sup>* pr pr'" and "pr_gateway pr = Some gw" and "pr_storage pr = Some os" and "pr_embedder pr = Some em"
  shows "\<exists>gw' em' es. get_llm_gateway st pr' = (Inr gw', pr') \<and> gw_circuit gw' = final_state breaker_step es (gw_circuit gw) \<and>
    gw_concurrency gw' = gw_concurrency gw \<and> (gw_client gw \<noteq> None \<longrightarrow> get_client gw' = (the (gw_client gw), gw')) \<and>
    get_storage st pr' = (os, pr') \<and> get_embedder st pr' = (em', pr') \<and> em_model_name em' = em_model_name em \<and>
    (em_model em \<noteq> None \<longrightarrow> em_model em' = em_model em)"
proof -
  have s: "shares pr pr'" by (rule sharing.inv_reachable [OF refl assms(1)])
  from s assms(2) obtain c es where gw: "pr_gateway pr' = Some (gw \<lparr>gw_client := c, gw_circuit := final_state breaker_step es (gw_circuit gw)\<rparr>)"
    "gw_client gw \<noteq> None \<longrightarrow> c = gw_client gw" unfolding shares_def by blast
  from s assms(4) obtain em' where em: "pr_embedder pr' = Some em'" "em_model_name em' = em_model_name em"
    "em_model em \<noteq> None \<longrightarrow> em_model em' = em_model em" unfolding shares_def by blast
  from s assms(3) have os: "pr_storage pr' = Some os" unfolding shares_def by blast
  show ?thesis
    by (intro exI [of _ "gw \<lparr>gw_client := c, gw_circuit := final_state breaker_step es (gw_circuit gw)\<rparr>"] exI [of _ em'] exI [of _ es])
      (use gw em os in \<open>auto simp: get_llm_gateway_def get_storage_def get_embedder_def get_client_def\<close>)
qed

theorem requests_share_objects_witness:
  "\<exists>gw pr pr' gw'. pr_gateway pr = Some gw \<and> cb_state (gw_circuit gw) = CLOSED \<and> request_step\<^sup>*\<^sup>* pr pr' \<and>
     get_llm_gateway default_settings pr' = (Inr gw', pr')"
proof -
  obtain gw where gw: "make_llm_gateway default_settings = Inr gw" "cb_state (gw_circuit gw) = CLOSED"
    by (simp add: make_llm_gateway_def int_setting_def default_settings_def new_gateway_def new_breaker_def)
  define pr where "pr = (new_process \<lparr>pt_next = 0, pt_open = []\<rparr>)\<lparr>pr_gateway := Some gw,
    pr_storage := Some (make_object_storage default_settings), pr_embedder := Some (make_embedder default_settings)\<rparr>"
  then have made: "pr_gateway pr = Some gw" "pr_storage pr = Some (make_object_storage default_settings)"
    "pr_embedder pr = Some (make_embedder default_settings)" by simp_all
  have "breaker_step (Failed 1) (gw_circuit gw) = (Inr (), record_failure 1 (gw_circuit gw))"
    by (simp add: breaker_step_def)
  from r_into_rtranclp [of request_step, OF calls_breaker [OF made(1) this]]
  obtain pr' where steps: "request_step\<^sup>*\<^sup>* pr pr'" by blast
  from requests_share_objects [OF this made, of default_settings]
  obtain gw' where "get_llm_gateway default_settings pr' = (Inr gw', pr')" by blast
  with steps gw(2) made(1) show ?thesis by blast
qed

subsection \<open>The adapter of the MCP server\<close>

record mcp_adapter =
  ma_settings :: settings
  ma_database :: db_handle
  ma_storage :: "object_storage option"
  ma_embedder :: "embedding_model option"
  ma_gateway :: "llm_gateway option"

definition make_adapter :: "settings \<Rightarrow> mcp_adapter" where
  "make_adapter st =
     \<lparr>ma_settings = st, ma_database = new_db_handle st, ma_storage = None, ma_embedder = None, ma_gateway = None\<rparr>"

definition adapter_close :: "mcp_adapter \<Rightarrow> pool_table \<Rightarrow> mcp_adapter \<times> pool_table" where
  "adapter_close ma t = (case dispose (ma_database ma) t of (h, t1) \<Rightarrow> (ma \<lparr>ma_database := h\<rparr>, t1))"

definition adapter_session :: "mcp_adapter \<Rightarrow> pool_table \<Rightarrow> nat \<times> mcp_adapter \<times> pool_table" where
  "adapter_session ma t = (case session_factory (ma_database ma) t of (f, h, t1) \<Rightarrow> (f, ma \<lparr>ma_database := h\<rparr>, t1))"

definition adapter_embedder :: "mcp_adapter \<Rightarrow> embedding_model \<times> mcp_adapter" where
  "adapter_embedder ma =
     (case ma_embedder ma of
        Some em \<Rightarrow> (em, ma)
      | None \<Rightarrow> (let em = make_embedder (ma_settings ma) in (em, ma \<lparr>ma_embedder := Some em\<rparr>)))"

definition adapter_gateway :: "mcp_adapter \<Rightarrow> (exn, llm_gateway) outcome \<times> mcp_adapter" where
  "adapter_gateway ma =
     (case ma_gateway ma of
        Some gw \<Rightarrow> (Inr gw, ma)
      | None \<Rightarrow>
          (case make_llm_gateway (ma_settings ma) of
             Inl e \<Rightarrow> (Inl e, ma)
           | Inr gw \<Rightarrow> (Inr gw, ma \<lparr>ma_gateway := Some gw\<rparr>)))"

text \<open>\<open>_get_storage\<close> keeps the new store before it has ensured the bucket.\<close>

definition adapter_storage ::
  "s3_fault option \<Rightarrow> s3_fault option \<Rightarrow> (s3 \<Rightarrow> s3) \<Rightarrow> mcp_adapter \<Rightarrow> s3 \<Rightarrow> (exn, object_storage) outcome \<times> mcp_adapter \<times> s3" where
  "adapter_storage head_fault create_fault meanwhile ma s =
     (case ma_storage ma of
        Some os \<Rightarrow> (Inr os, ma, s)
      | None \<Rightarrow>
          (let os = make_object_storage (ma_settings ma); ma1 = ma \<lparr>ma_storage := Some os\<rparr>
           in case ensure_bucket head_fault create_fault meanwhile s of
                (Inl e, s1) \<Rightarrow> (Inl e, ma1, s1)
              | (Inr _, s1) \<Rightarrow> (Inr os, ma1, s1)))"

text \<open>
  The bucket is ensured once, also when that failed.  If the first use of the
  store meets a fault while there is no bucket, every later use gets the store without another
  attempt to create the bucket, and an upload to it is refused until somebody else does.
\<close>

theorem adapter_storage_not_retried:
  assumes "ma_storage ma = None" and "adapter_storage head_fault create_fault (\<lambda>s. s) ma None = (Inl e, ma1, s1)"
  shows "s1 = None \<and> (\<exists>os. adapter_storage head_fault' create_fault' meanwhile ma1 s1 = (Inr os, ma1, s1)) \<and>
    object_upload None key data s1 = (Inl (App (ExternalServiceError ''MinIO'' ''The bucket does not exist.'')), None)"
proof -
  have bucket: "s' = None" if "ensure_bucket head_fault create_fault (\<lambda>s. s) None = (Inl e', s')" for e' s'
    using that by (auto simp: ensure_bucket_def head_bucket_def create_bucket_def minio_def split: option.splits s3_fault.splits if_splits)
  obtain os where "ensure_bucket head_fault create_fault (\<lambda>s. s) None = (Inl e, s1)" "ma1 = ma \<lparr>ma_storage := Some os\<rparr>"
    using assms by (auto simp: adapter_storage_def Let_def split: prod.splits sum.splits)
  with bucket show ?thesis
    by (simp add: adapter_storage_def object_upload_def put_object_def minio_def)
qed

theorem adapter_storage_not_retried_witness:
  "object_upload None ''k'' ''d''
     (snd (snd (adapter_storage (Some (TransportError ''refused'')) None (\<lambda>s. s) (make_adapter default_settings) None))) =
   (Inl (App (ExternalServiceError ''MinIO'' ''The bucket does not exist.'')), None)"
proof -
  obtain ma1 where "adapter_storage (Some (TransportError ''refused'')) None (\<lambda>s. s) (make_adapter default_settings) None =
      (Inl (OtherError ''refused''), ma1, None)"
    by (simp add: adapter_storage_def make_adapter_def ensure_bucket_def head_bucket_def minio_def Let_def)
  with adapter_storage_not_retried [OF _ this] show ?thesis by (simp add: make_adapter_def)
qed

end
