(* ===== verification/EndToEnd.thy ===== *)
theory EndToEnd
  imports Retrieval Storage Worker
begin

section \<open>From the upload to the search\<close>

text \<open>
  The way of a document through the components: \<open>Documents\<close> stores the file and queues a job,
  \<open>JobService\<close> hands the job to a worker, \<open>Worker\<close> downloads the object of \<open>Storage\<close> and runs
  \<open>Pipeline\<close> on it, and \<open>Retrieval\<close> reads the chunks that it stored.
\<close>

subsection \<open>Storing chunks\<close>

lemma add_chunks_succeed:
  assumes "\<forall>ch \<in> set chs. storable_text (cd_content ch) \<and> length (cd_embedding ch) = embedding_dim"
    and "inj new_id" and "\<forall>i \<ge> n. new_id i \<notin> c_id ` set (chunks db)"
    and "document_exists db d" and "user_exists db u" and "org_exists db t"
  shows "add_chunks new_id n d u t tx chs db = Inr (db \<lparr>chunks := chunks db @ chunk_rows new_id n d u t tx chs\<rparr>)"
  using assms
proof (induction chs arbitrary: n db)
  case (Cons ch chs)
  let ?row = "\<lparr>c_id = new_id n, c_document_id = d, c_user_id = u, c_tenant_id = t, c_content = cd_content ch,
    c_page_number = cd_page_number ch, c_chunk_index = cd_chunk_index ch, c_embedding = cd_embedding ch, c_created_at = tx\<rparr>"
  let ?db = "db \<lparr>chunks := chunks db @ [?row]\<rparr>"
  have "insert_chunk ?row db = Inr ?db"
    using Cons.prems by (simp add: insert_chunk_def checked_insert_def)
  moreover have "add_chunks new_id (Suc n) d u t tx chs ?db =
      Inr (?db \<lparr>chunks := chunks ?db @ chunk_rows new_id (Suc n) d u t tx chs\<rparr>)"
    using Cons.prems by (intro Cons.IH) (auto dest: injD)
  ultimately show ?case by simp
qed simp

text \<open>A task whose file is fetched, cut and embedded commits.\<close>

lemma process_transaction_commits:
  assumes "filter (\<lambda>j. j_id j = t_job_id t \<and> j_version j = t_version t) (jobs db) \<noteq> []"
    and "scalars_first (filter (\<lambda>d. d_id d = t_document_id t) (documents db)) = Some doc"
    and "d_storage_key doc = Some key" and "download env key = Inr data"
    and "pipeline env data (d_mime_type doc) = Some (Inr chs)"
    and "\<forall>ch \<in> set chs. storable_text (cd_content ch) \<and> length (cd_embedding ch) = embedding_dim"
    and "inj (fresh_id env)" and "\<forall>i. fresh_id env i \<notin> c_id ` set (chunks db)"
    and "document_exists db (t_document_id t)" and "user_exists db (t_user_id t)" and "org_exists db (t_tenant_id t)"
  shows "\<exists>db'. process_transaction env t db = Committed db' \<and>
    chunks db' = chunks db @ chunk_rows (fresh_id env) 0 (t_document_id t) (t_user_id t) (t_tenant_id t) (db_now env) chs \<and>
    documents db' = update_where (\<lambda>d. d_id d = t_document_id t)
      (\<lambda>d. d \<lparr>d_status := DocReady, d_chunk_count := length chs, d_updated_at := app_now env\<rparr>) (documents db)"
proof -
  obtain db1 where db1: "mark_running (t_job_id t) (t_version t) (app_now env) db = (True, db1)"
    using assms(1) by (simp add: mark_running_def Let_def)
  then have same: "documents db1 = documents db" "chunks db1 = chunks db" "users db1 = users db" "organizations db1 = organizations db"
    by (auto simp: mark_running_def Let_def)
  then have "add_chunks (fresh_id env) 0 (t_document_id t) (t_user_id t) (t_tenant_id t) (db_now env) chs db1 =
      Inr (db1 \<lparr>chunks := chunks db1 @ chunk_rows (fresh_id env) 0 (t_document_id t) (t_user_id t) (t_tenant_id t) (db_now env) chs\<rparr>)"
    using assms(6-11) by (intro add_chunks_succeed) auto
  then obtain db2 where db2: "complete_job (fresh_id env) (app_now env) (db_now env) (t_job_id t) (t_document_id t) chs
      (t_user_id t) (t_tenant_id t) db1 = Inr db2"
    by (simp add: complete_job_def)
  have "process_transaction env t db = Committed db2"
    using db1 db2 same assms(2-5) by (simp add: process_transaction_def)
  then show ?thesis using complete_job_Inr(1,3) [OF db2] same by simp
qed

subsection \<open>The way of a document\<close>

lemma map_triple: "map (\<lambda>x. (f x, g x, h x)) xs = zip (map f xs) (zip (map g xs) (map h xs))"
  by (induction xs) simp_all

lemma pipeline_of_texts:
  assumes "extract_text decode pypdf file mime = Inr tx" and "worker_chunker st encode tx = Some (Inr texts)"
    and "length vs = length texts" and "texts \<noteq> [] \<Longrightarrow> encode texts = Inr vs"
  shows "worker_pipeline decode pypdf encode st file mime = Some (Inr (number_chunks 0 (zip texts vs)))"
  using assms by (cases "texts = []") (auto simp: worker_pipeline_def process_def)

lemma snoc_key: "distinct (map f (xs @ [x])) \<Longrightarrow> \<forall>y \<in> set xs. f y \<noteq> f x"
  by (induction xs) auto

lemma live_chunks_of:
  "filter (\<lambda>(c, _). c_document_id c = k) (live_chunks t db) =
    concat (map (\<lambda>c. map (Pair c) (filter (\<lambda>d. k = d_id d \<and> c_tenant_id c = t \<and> d_deleted_at d = None) (documents db)))
      (filter (\<lambda>c. c_document_id c = k) (chunks db)))"
proof -
  have inner: "concat (map (\<lambda>d. if P d then [(c, d)] else []) ds) = map (Pair c) (filter P ds)" for P and c :: chunk_row and ds :: "document list"
    by (induction ds) simp_all
  have "filter (\<lambda>(c, _). c_document_id c = k) (concat (map (\<lambda>c. map (Pair c) (filter (\<lambda>d. c_document_id c = d_id d \<and> Q c d) ds)) cs)) =
      concat (map (\<lambda>c. map (Pair c) (filter (\<lambda>d. k = d_id d \<and> Q c d) ds)) (filter (\<lambda>c. c_document_id c = k) cs))" for Q ds cs
    by (induction cs) (auto simp: filter_map comp_def)
  then show ?thesis by (simp add: live_chunks_def inner)
qed

text \<open>The last document of the table and its chunks, as its tenant reads them.\<close>

lemma get_last_document:
  assumes "documents db = ds @ [d]" and "\<forall>e \<in> set ds. d_id e \<noteq> d_id d" and "d_deleted_at d = None"
  shows "get_document (d_id d) (d_tenant_id d) db = Inr d"
proof -
  have "filter (\<lambda>e. d_id e = d_id d \<and> d_tenant_id e = d_tenant_id d \<and> d_deleted_at e = None) (documents db) = [d]"
    using assms by simp
  then show ?thesis by (simp add: get_document_def scalar_one_or_none_Some)
qed

lemma live_chunks_last_document:
  assumes "documents db = ds @ [d]" and "\<forall>e \<in> set ds. d_id e \<noteq> d_id d" and "d_deleted_at d = None"
    and "chunks db = cs @ rows" and "\<forall>c \<in> set cs. c_document_id c \<noteq> d_id d"
    and "\<forall>c \<in> set rows. c_document_id c = d_id d \<and> c_tenant_id c = t"
  shows "filter (\<lambda>(c, _). c_document_id c = d_id d) (live_chunks t db) = map (\<lambda>c. (c, d)) rows"
proof -
  have stored: "filter (\<lambda>c. c_document_id c = d_id d) (chunks db) = rows"
    using assms(4-6) by (simp add: filter_empty_conv filter_id_conv)
  have "filter (\<lambda>e. d_id d = d_id e \<and> c_tenant_id c = t \<and> d_deleted_at e = None) (documents db) = [d]" if "c \<in> set rows" for c
    using assms(1-3,6) that by (auto simp: filter_empty_conv)
  then have "filter (\<lambda>(c, _). c_document_id c = d_id d) (live_chunks t db) = concat (map (\<lambda>c. [(c, d)]) rows)"
    unfolding live_chunks_of stored by (intro arg_cong [of _ _ concat] map_cong) simp_all
  then show ?thesis by simp
qed

lemma get_committed_job:
  assumes "process_transaction env (task_of job) db = Committed db'" and "jobs db = js @ [job]" and "\<forall>j \<in> set js. j_id j \<noteq> j_id job"
  shows "\<exists>j. get_job (j_id job) (j_tenant_id job) db' = Inr (Some j) \<and> j_status j = JobCompleted"
  using assms(2,3)
  by (auto simp: committed_jobs [OF assms(1)] get_job_def task_of_def scalar_one_or_none_Some filter_map comp_def filter_empty_conv)

text \<open>Claiming from a queue in which one job can be claimed.\<close>

lemma claim_only_job:
  assumes "jobs db = js @ [job]" and "claimable job" and "\<forall>j \<in> set js. settled j \<and> \<not> claimable j"
    and "job_ids.keyed db" and "settled job"
  shows "claim_next_job timeout now tx {} w db =
    (Some (claim w tx job), db \<lparr>jobs := js @ [claim w tx job]\<rparr>)"
proof -
  have reset: "reset_stale_claims timeout now db = db"
    using assms(1,3,5) by (intro reset_settled) auto
  have others: "\<forall>j \<in> set js. j_id j \<noteq> j_id job"
    using assms(1,4) snoc_key [of j_id js job] by (simp add: job_ids.keyed_def)
  show ?thesis
    using assms(4)
  proof (cases rule: claim_next_job_cases [where timeout = timeout and now = now and tx_now = tx and locked = "{}" and w = w])
    case none
    then show ?thesis using assms(1,2) by (simp add: reset next_job_None)
  next
    case (claimed row)
    from next_job_Some(1,2) [OF claimed(1)] have "row = job" using assms(1,3) by (auto simp: reset)
    moreover have "update_where (\<lambda>j. j_id j = j_id job) (claim w tx) (jobs db) = js @ [claim w tx job]"
      using others by (simp add: assms(1) update_where_def map_idI)
    ultimately show ?thesis using claimed(2) by (simp add: reset)
  qed
qed

text \<open>
  Claim C4 (liveness): an uploaded document can be searched after one turn of a worker.  When an
  upload stores new content, no other job is waiting, the worker reads the bucket the upload wrote
  to, the file's text is cut into \<open>texts\<close> and the model embeds them, then the turn of the worker
  makes the document ready, completes its job, and the tenant's searches range over exactly these
  chunks of the document, in order, each with its embedding.
\<close>

theorem upload_reaches_search:
  assumes upload: "upload_document uenv req db bkt = (Inr (doc, job), db1, bkt1)"
    and fresh: "find_existing_upload (sha256 uenv (up_content req)) (up_idempotency_key req) (up_tenant_id req) db = Inr None"
      "find_existing_upload (sha256 uenv (up_content req)) (up_idempotency_key req) (up_tenant_id req) (others uenv db) = Inr None"
    and wf: "documents_wf (others uenv db)" "\<forall>c \<in> set (chunks (others uenv db)). c_document_id c \<noteq> new_document_id uenv"
    and idle: "\<forall>j \<in> set (jobs (others uenv db)). settled j \<and> \<not> claimable j"
    and worker: "download wenv = (\<lambda>key. object_download None key (Some bkt1))"
      "pipeline wenv = worker_pipeline decode pypdf encode st"
    and texts: "extract_text decode pypdf (up_content req) (up_mime_type req) = Inr tx"
      "worker_chunker st encode tx = Some (Inr texts)" "\<forall>x \<in> set texts. storable_text x"
    and vectors: "length vs = length texts" "texts \<noteq> [] \<Longrightarrow> encode texts = Inr vs" "\<forall>v \<in> set vs. length v = embedding_dim"
    and ids: "inj (fresh_id wenv)" "\<forall>i. fresh_id wenv i \<notin> c_id ` set (chunks (others uenv db))"
  shows "\<exists>db2 d j. worker_turn timeout w wenv db1 = Some db2 \<and>
    get_document (d_id doc) (up_tenant_id req) db2 = Inr d \<and> d_status d = DocReady \<and> d_chunk_count d = length texts \<and>
    get_job (j_id job) (up_tenant_id req) db2 = Inr (Some j) \<and> j_status j = JobCompleted \<and>
    map (\<lambda>(c, _). (c_content c, c_embedding c, c_chunk_index c))
        (filter (\<lambda>(c, _). c_document_id c = d_id doc) (live_chunks (up_tenant_id req) db2)) =
      zip texts (zip vs [0..<length texts])"
proof -
  let ?db0 = "others uenv db" and ?doc = "uploaded_document uenv req" and ?job = "uploaded_job uenv req"
  let ?key = "upload_key (up_tenant_id req) (new_document_id uenv) (up_filename req)"
  let ?claimed = "claim w (db_now wenv) ?job" and ?chs = "number_chunks 0 (zip texts vs)"
  from upload fresh have ins: "insert_upload uenv req ?db0 = Inr db1" and r: "doc = ?doc" "job = ?job"
    and bkt1: "bkt1 = bkt(?key \<mapsto> up_content req)"
    by (auto elim: upload_document_cases)
  note rows = insert_upload_Inr [OF ins] and wf1 = documents_wfD [OF insert_upload_wf [OF wf(1) ins]]
  from ins have chunks1: "chunks db1 = chunks ?db0" and exist: "document_exists db1 (new_document_id uenv)"
    "user_exists db1 (up_user_id req)" "org_exists db1 (up_tenant_id req)"
    by (auto simp: insert_upload_def insert_document_def insert_job_def uploaded_document_def uploaded_job_def dest!: try_bind_InrD)
  let ?db1 = "db1 \<lparr>jobs := jobs ?db0 @ [?claimed]\<rparr>" and ?t = "task_of ?claimed"
  have "claim_next_job timeout (app_now wenv) (db_now wenv) {} w db1 = (Some ?claimed, ?db1)"
    by (rule claim_only_job [OF rows(2) _ idle wf1(3)]) (simp_all add: uploaded_job_def claimable_def settled_def)
  moreover have "\<exists>db2. process_transaction wenv ?t ?db1 = Committed db2 \<and>
      chunks db2 = chunks ?db1 @ chunk_rows (fresh_id wenv) 0 (t_document_id ?t) (t_user_id ?t) (t_tenant_id ?t) (db_now wenv) ?chs \<and>
      documents db2 = update_where (\<lambda>d. d_id d = t_document_id ?t)
        (\<lambda>d. d \<lparr>d_status := DocReady, d_chunk_count := length ?chs, d_updated_at := app_now wenv\<rparr>) (documents ?db1)"
  proof (rule process_transaction_commits [where doc = ?doc and key = ?key and data = "up_content req"])
    show "filter (\<lambda>j. j_id j = t_job_id ?t \<and> j_version j = t_version ?t) (jobs ?db1) \<noteq> []"
      by (simp add: task_of_def)
    show "scalars_first (filter (\<lambda>d. d_id d = t_document_id ?t) (documents ?db1)) = Some ?doc"
      using document_ids.lookup [OF wf1(1), of ?doc]
      by (simp add: rows task_of_def claim_def uploaded_job_def uploaded_document_def scalar_one_or_none_Some)
    show "d_storage_key ?doc = Some ?key" by (simp add: uploaded_document_def)
    show "download wenv ?key = Inr (up_content req)"
      by (simp add: worker(1) bkt1 object_download_def get_object_def minio_def)
    show "pipeline wenv (up_content req) (d_mime_type ?doc) = Some (Inr ?chs)"
      using pipeline_of_texts [OF texts(1,2) vectors(1,2)] by (simp add: worker(2) uploaded_document_def)
    show "\<forall>ch \<in> set ?chs. storable_text (cd_content ch) \<and> length (cd_embedding ch) = embedding_dim"
      using texts(3) vectors(1,3) number_chunks_content [of 0 "zip texts vs"] number_chunks_embedding [of 0 "zip texts vs"]
      by (metis (no_types, lifting) imageI list.set_map map_fst_zip map_snd_zip)
  qed (use ids chunks1 exist in \<open>simp_all add: task_of_def claim_def uploaded_job_def\<close>)
  ultimately obtain db2 where db2: "worker_turn timeout w wenv db1 = Some db2" "process_transaction wenv ?t ?db1 = Committed db2"
    "chunks db2 = chunks ?db0 @ chunk_rows (fresh_id wenv) 0 (d_id ?doc) (up_user_id req) (up_tenant_id req) (db_now wenv) ?chs"
    "documents db2 = update_where (\<lambda>d. d_id d = d_id ?doc)
        (\<lambda>d. d \<lparr>d_status := DocReady, d_chunk_count := length texts, d_updated_at := app_now wenv\<rparr>) (documents db1)"
    by (auto simp: worker_turn_def process_single_job_def chunks1 task_of_def claim_def uploaded_job_def uploaded_document_def
        length_number_chunks vectors(1))
  let ?d = "?doc \<lparr>d_status := DocReady, d_chunk_count := length texts, d_updated_at := app_now wenv\<rparr>"
  let ?rows = "chunk_rows (fresh_id wenv) 0 (d_id ?doc) (up_user_id req) (up_tenant_id req) (db_now wenv) ?chs"
  have older: "\<forall>d \<in> set (documents ?db0). d_id d \<noteq> d_id ?doc" "\<forall>j \<in> set (jobs ?db0). j_id j \<noteq> j_id ?claimed"
    using wf1(1,3) snoc_key [of d_id "documents ?db0" ?doc] snoc_key [of j_id "jobs ?db0" ?job]
    by (simp_all add: rows document_ids.keyed_def job_ids.keyed_def claim_def)
  then have docs: "documents db2 = documents ?db0 @ [?d]"
    by (simp add: db2(4) rows update_where_def map_idI)
  have "get_document (d_id ?doc) (up_tenant_id req) db2 = Inr ?d"
    using get_last_document [OF docs] older(1) by (simp add: uploaded_document_def)
  moreover have "\<exists>j. get_job (j_id ?job) (up_tenant_id req) db2 = Inr (Some j) \<and> j_status j = JobCompleted"
    using get_committed_job [OF db2(2) _ older(2)] by (simp add: claim_def uploaded_job_def)
  moreover have "filter (\<lambda>(c, _). c_document_id c = d_id ?doc) (live_chunks (up_tenant_id req) db2) = map (\<lambda>c. (c, ?d)) ?rows"
    using live_chunks_last_document [OF docs _ _ db2(3), of "up_tenant_id req"] older(1) wf(2) chunk_rows_fields(4)
    by (auto simp: uploaded_document_def)
  moreover have "map (\<lambda>c. (c_content c, c_embedding c, c_chunk_index c)) ?rows = zip texts (zip vs [0..<length texts])"
    using vectors(1)
    by (simp add: map_triple chunk_rows_fields number_chunks_content number_chunks_embedding number_chunks_index)
  ultimately show ?thesis
    using db2(1) unfolding r
    by (intro exI [of _ db2] exI [of _ ?d]) (auto simp: comp_def)
qed

theorem upload_reaches_search_witness:
  "\<exists>db1 bkt1 wenv db2 d.
     upload_document sample_upload_env (sample_request ''k1'') (sample_db [] []) (\<lambda>_. None) =
       (Inr (uploaded_document sample_upload_env (sample_request ''k1''),
             uploaded_job sample_upload_env (sample_request ''k1'')), db1, bkt1) \<and>
     download wenv = (\<lambda>key. object_download None key (Some bkt1)) \<and>
     worker_turn 10 ''w'' wenv db1 = Some db2 \<and> get_document 50 2 db2 = Inr d \<and> d_status d = DocReady \<and>
     map (\<lambda>(c, _). c_content c) (filter (\<lambda>(c, _). c_document_id c = 50) (live_chunks 2 db2)) = [''Hi.'']"
proof -
  let ?encode = "\<lambda>ts. Inr (map (\<lambda>_. replicate embedding_dim 0) ts)"
  let ?st = "\<lparr>chunking_strategy = ''recursive'', chunking_semantic_threshold_percentile = 85, chunking_semantic_buffer_size = 1\<rparr>"
  let ?vs = "[replicate embedding_dim 0]"
  obtain db1 bkt1 where up: "upload_document sample_upload_env (sample_request ''k1'') (sample_db [] []) (\<lambda>_. None) =
     (Inr (uploaded_document sample_upload_env (sample_request ''k1''),
           uploaded_job sample_upload_env (sample_request ''k1'')), db1, bkt1)"
    using sample_upload by blast
  define wenv where "wenv = sample_env \<lparr>download := \<lambda>key. object_download None key (Some bkt1),
    pipeline := worker_pipeline id None ?encode ?st\<rparr>"
  have tx: "extract_text id None ''Hi.'' (Some ''text/plain'') = Inr ''Hi.''" by code_simp
  have texts: "worker_chunker ?st ?encode ''Hi.'' = Some (Inr [''Hi.''])" by code_simp
  have "inj (fresh_id wenv)" by (simp add: wenv_def inj_def)
  from upload_reaches_search [OF up, of wenv id None ?encode ?st "''Hi.''" "[''Hi.'']" ?vs 10 "''w''"] this tx texts
  obtain db2 d where "worker_turn 10 ''w'' wenv db1 = Some db2" "get_document 50 2 db2 = Inr d" "d_status d = DocReady"
    "map (\<lambda>(c, _). (c_content c, c_embedding c, c_chunk_index c)) (filter (\<lambda>(c, _). c_document_id c = 50) (live_chunks 2 db2)) =
       zip [''Hi.''] (zip ?vs [0..<1])"
    by (auto simp: wenv_def find_existing_upload_def by_idempotency_key_def by_content_hash_def documents_wf_def
        document_ids.keyed_def document_hashes.keyed_def job_ids.keyed_def job_keys.keyed_def storable_text_def
        uploaded_document_def)
  moreover from this(4) have "map fst (map (\<lambda>(c, _). (c_content c, c_embedding c, c_chunk_index c))
      (filter (\<lambda>(c, _). c_document_id c = 50) (live_chunks 2 db2))) = [''Hi.'']" by simp
  then have "map (\<lambda>(c, _). c_content c) (filter (\<lambda>(c, _). c_document_id c = 50) (live_chunks 2 db2)) = [''Hi.'']"
    by (simp add: comp_def case_prod_unfold)
  moreover have "download wenv = (\<lambda>key. object_download None key (Some bkt1))" by (simp add: wenv_def)
  ultimately show ?thesis
    by (intro exI [of _ db1] exI [of _ bkt1] exI [of _ wenv] exI [of _ db2] exI [of _ d] conjI up)
qed

end
