(* ===== verification/Spec2Isabelle.thy ===== *)
theory Spec2Isabelle
  imports Workers Invitations Listing Rls Mcp MigrationRuns OrmSchema SchemaPolicies Responses Metrics Lifecycle EndToEnd
begin

text \<open>
  A model of the AI research platform: a multi-tenant service (FastAPI, PostgreSQL, Redis, an S3
  bucket) to which members of organizations upload documents; workers cut the documents into
  chunks with embeddings; searches combine vector and text retrieval, and language models grade
  and answer.  Paths below are relative to the repository.

  \<^bold>\<open>How the program is represented.\<close>  A service function is a HOL function from its arguments and
  the state it works on to its result and the new state.  A raise is \<open>Inl\<close> of an \<open>exn\<close>, a
  return \<open>Inr\<close>; code that may not return yields an option (\<open>None\<close>: it does not return).  The
  database is the record of its tables, lists of rows in insertion order; an insert checks
  column widths, unique and foreign keys.  Ids, clock readings, random draws, other transactions'
  commits and the answers of libraries and services (bcrypt, PyJWT, SHA-256, Google, S3, the
  embedding model, pypdf, pgvector, the text search, Groq, Tavily, Gemini) are parameters.
  Floating point is binary64 with rounding to even; strings are lists of characters below 256.

  \<^bold>\<open>Foundations.\<close>
  \<^item> \<open>Prelude\<close>, \<open>PyText\<close>, \<open>Uuids\<close>, \<open>Decimal\<close>, \<open>Binary64\<close>: identifiers, time, Python's string
    methods, \<open>uuid.UUID\<close>, integers as text, float rounding.
  \<^item> \<open>Machine\<close>: the locales \<open>transition_invariant\<close> and \<open>machine_refinement\<close> that the state machines
    interpret (\<open>Workers\<close>, \<open>AccountInvariant\<close>, \<open>WholeSystem\<close>, \<open>Lifecycle\<close>; \<open>Breaker\<close>, \<open>Metrics\<close>).
  \<^item> \<open>Sql\<close>: queries, updates, sessions, and the locale \<open>unique_key\<close> of a keyed table, interpreted
    for every key of the schema in \<open>Models\<close>.
  \<^item> \<open>Exceptions\<close>: \<open>src/core/exceptions.py\<close> and the handlers of \<open>src/main.py\<close>.
  \<^item> \<open>Models\<close>: the tables of \<open>src/auth/models.py\<close>, \<open>src/tenants/models.py\<close>,
    \<open>src/documents/models.py\<close> and \<open>src/ingestion/models.py\<close>.

  \<^bold>\<open>Ingestion.\<close>
  \<^item> \<open>Chunking\<close>, \<open>SemanticChunking\<close>, \<open>Pipeline\<close> (\<open>src/ingestion/pipeline.py\<close>): the chunkers lose no
    character that is not blank, their chunks are bounded and not blank, and they return; the
    pipeline numbers and embeds exactly the chunks of the extracted text.
  \<^item> \<open>JobService\<close> (\<open>src/ingestion/service.py\<close>) and \<open>Worker\<close> (\<open>src/ingestion/worker.py\<close>): the queue
    takes the oldest claimable job; a task stores all or nothing, and its failure is recorded unless
    the database refuses the text of the error; a worker alone drains the queue.
  \<^item> \<open>Workers\<close>: any number of workers with crashes, as a step relation.  One task in flight per
    claimed version wins; the invariant of the queue; and what the missing version check of
    \<open>fail_job\<close> and the lost last attempt lead to.
  \<^item> \<open>Documents\<close> (\<open>src/documents/service.py\<close>, \<open>src/documents/storage.py\<close>): uploads are idempotent
    under retries and races; deletion hides a document from everybody.  \<open>Storage\<close>: the bucket behind
    them, which may be missing or out of reach; what is uploaded is what is downloaded.
  \<^item> \<open>EndToEnd\<close>: upload, bucket, worker and search composed; new content is searchable, chunk by
    chunk with its embedding, after one turn of a worker.

  \<^bold>\<open>Accounts.\<close>
  \<^item> \<open>RateLimit\<close> (\<open>src/core/rate_limit.py\<close>): the Lua script is a fixed-window limiter per key.
  \<^item> \<open>Auth\<close> (\<open>src/core/security.py\<close>, \<open>src/auth/service.py\<close>, \<open>src/auth/dependencies.py\<close>),
    \<open>Tenancy\<close> (\<open>src/tenants/service.py\<close>), \<open>Accounts\<close> (their routes): the operations.
    \<open>AccountInvariant\<close> proves the invariant of the account tables, \<open>AccountClaims\<close>, \<open>Invitations\<close>
    and \<open>Credentials\<close> what refresh tokens, invitations, logins and API keys do.

  \<^bold>\<open>Retrieval and evaluation.\<close>
  \<^item> \<open>Fusion\<close> (\<open>_reciprocal_rank_fusion\<close>) and \<open>Retrieval\<close> (\<open>src/retrieval/service.py\<close>): scores and order
    of the fused results, tenant isolation of the searches, what a search returns.
  \<^item> \<open>Breaker\<close> (\<open>src/evaluation/llm_gateway.py\<close>): the circuit breaker refines a specification over
    the history of its calls; retries are bounded.  \<open>Grading\<close> (\<open>src/evaluation/service.py\<close>): one
    grade per requested chunk of the tenant.
  \<^item> \<open>Cursor\<close> (\<open>src/core/pagination.py\<close>, with base64 and JSON) and \<open>Listing\<close>: cursors round-trip, and
    following them lists every row once when the keys differ.

  \<^bold>\<open>The system.\<close>
  \<^item> \<open>Platform\<close>: the requests of \<open>src/documents/routes.py\<close>, \<open>src/ingestion/routes.py\<close>,
    \<open>src/retrieval/routes.py\<close>, \<open>src/evaluation/routes.py\<close> behind authentication, tenant and rate
    limit; \<open>PlatformInvariant\<close>: their invariant and what they show and change.
  \<^item> \<open>WholeSystem\<close>: account requests, platform requests and workers interleaved; the invariant of all
    tables, and that a request stays within one tenant of which its user is a member.
  \<^item> \<open>Mcp\<close> (\<open>mcp_server/\<close>): the MCP tools, which resolve the tenant but check no role.

  \<^bold>\<open>The database.\<close>
  \<^item> \<open>Schema\<close>: the catalogue of PostgreSQL (tables, columns, constraints, indexes, policies) and the
    effect of each operation of Alembic on it, its errors included.  \<open>Migrations\<close>: the four revisions
    of \<open>alembic/versions/\<close>, statement by statement; \<open>MigrationHistory\<close>: their chain as Alembic
    (\<open>alembic/env.py\<close>) runs it, upgrades and downgrades from every revision to every other, on the
    catalogue; \<open>MigrationRuns\<close>: the same with the rows, where they are such that the statements succeed.
  \<^item> \<open>OrmSchema\<close>: the tables that the declarative models describe, compared with the migrated ones;
    \<open>SchemaInserts\<close>: the inserts of \<open>Models\<close> refuse what the migrated schema refuses, but for the
    blanks at the end of a long text (below);
    \<open>SchemaPolicies\<close>: the row filter of \<open>Rls\<close> is the one of the migrated policies, and no write of a
    request is stopped by them.
  \<^item> \<open>Rls\<close> and \<open>Migration\<close> (\<open>alembic/versions/0002_multi_tenant_rls.py\<close>): the policies are
    transparent to the reads of a tenant; the backfill gives every row its owner's tenant and
    can be undone.

  \<^bold>\<open>The web application.\<close>
  \<^item> \<open>Requests\<close>: the validation of bodies (the request classes of the \<open>schemas.py\<close> files).
    \<open>Http\<close>: the routers and \<open>src/main.py\<close> with the validation of paths, queries and forms; the
    first route that matches serves a request, after its body is parsed and its dependencies are
    resolved; preflight requests, FastAPI's pages and the mounted metrics are answered beside the
    routes, with their status only.  No route hides another, and without a valid credential only
    the public routes do anything.
  \<^item> \<open>Responses\<close>: the response classes and the bodies of the replies.
  \<^item> \<open>Configuration\<close> and \<open>Logging\<close> (\<open>src/core/config.py\<close>, \<open>src/core/logging.py\<close>): settings from the
    environment over \<open>.env\<close> over the defaults; levels of the loggers.
  \<^item> \<open>Lifecycle\<close> (\<open>src/core/database.py\<close>, \<open>lifespan\<close>, the objects that the routes and the MCP adapter
    keep): which connection pools and clients are open between start and shutdown, and which objects
    requests share.
  \<^item> \<open>Metrics\<close> (\<open>src/observability/\<close>): counters, histogram and gauge say what the history of the
    requests says, cancelled ones included; the gateway with metrics is the gateway without.

  \<^bold>\<open>Fuel and termination.\<close>  \<open>hard_split_from\<close> may loop for a chunker whose overlap is not smaller
  than its size, so it is a \<open>partial_function (option)\<close>; it returns for every chunker that the
  constructor accepts.  The JSON reader's fuel is the length of the text, the separators of the
  recursive splitter are its structural argument, and \<open>worker_turns\<close> runs over a list of turns,
  with a bound on how many empty the queue.  \<open>all_pages\<close> is a client with a bound on its pages.

  The migrations are lists of statements, run by recursion over them; one evaluation of the whole
  history is the basis of the claims about it, lifted to any other tables beside the platform's.

  \<^bold>\<open>Abstractions.\<close>  A transaction is one step; its effect is that of its commit.  Pydantic's
  readings of numbers and UUIDs are parameters, and a body is the JSON it holds, or not readable.
  A text that is too long for its column only by spaces at its end is refused, where PostgreSQL
  cuts the spaces off (\<open>SchemaInserts\<close> states the difference).  The counters of the rate limiter are
  unbounded, where Redis has 64 bits.  \<open>ORDER BY\<close> keeps ties in table order, and the vector index is
  taken to be exact.  The relationships of a row are looked up in the tables; that the services load
  them eagerly is not modelled.  A request's database is available.  In \<open>WholeSystem\<close> requests run
  one at a time (races are in \<open>Documents\<close>, \<open>AccountClaims\<close>, \<open>Invitations\<close> and \<open>Workers\<close>).

  \<^bold>\<open>Not modelled.\<close>  The headers that CORS adds, the contents of the metrics and of the documentation
  pages, the processors of structlog and the gauges that read SQLAlchemy's pool: the libraries do
  it.  The offline mode of \<open>alembic/env.py\<close>, which prints the statements, the package markers, the
  frontend and the benchmarks.  A request cancelled in mid-flight is modelled in \<open>Metrics\<close> only; the waiting
  of the gateway's limiters and back-off, and characters above 255, are outside the model.
\<close>

end
